(* ===== verification/Js_Prelude.thy ===== *)
theory Js_Prelude
  imports Main "HOL-Library.Char_ord" "HOL-Library.List_Lexorder" "HOL-Library.AList"
begin

text \<open>
  Shared vocabulary of the development: JavaScript strings, the string methods the sources
  call, objects as insertion-ordered association lists, thrown errors, decimal printing.

  A string is a \<^typ>\<open>char list\<close>, one \<^typ>\<open>char\<close> per UTF-16 code unit, so the model speaks
  of strings whose code units are below 256 (all literals of the modelled sources are,
  '\u00A0' included). \<open>List_Lexorder\<close> over \<open>Char_ord\<close> is then exactly the code-unit order
  of JavaScript's relational operators on strings.
\<close>

named_theorems js_simps \<open>rewrite rules for the JavaScript string and object operations\<close>

subsection \<open>Thrown errors\<close>

datatype js_error = TypeError | SyntaxError | InvalidStateError | RuntimeError string

text \<open>A computation that may throw is a value of \<^typ>\<open>js_error + 'a\<close>.\<close>

definition js_bind :: "js_error + 'a \<Rightarrow> ('a \<Rightarrow> js_error + 'b) \<Rightarrow> js_error + 'b" where
  "js_bind m f = (case m of Inl e \<Rightarrow> Inl e | Inr x \<Rightarrow> f x)"

lemma js_bind_simps [simp]:
  "js_bind (Inl e) f = Inl e"
  "js_bind (Inr x) f = f x"
  by (simp_all add: js_bind_def)

lemma js_bind_eq_Inr:
  "js_bind m f = Inr y \<longleftrightarrow> (\<exists>x. m = Inr x \<and> f x = Inr y)"
  by (cases m) auto

text \<open>Property reads of an absent value throw.\<close>

definition require :: "'a option \<Rightarrow> js_error + 'a" where
  "require m = (case m of None \<Rightarrow> Inl TypeError | Some x \<Rightarrow> Inr x)"

lemma require_simps [simp]:
  "require None = Inl TypeError"
  "require (Some x) = Inr x"
  by (simp_all add: require_def)

subsection \<open>Strings\<close>

text \<open>\<open>toLowerCase\<close> on one code unit below 256: the ASCII and Latin-1 capitals.\<close>

definition char_lower :: "char \<Rightarrow> char" where
  "char_lower c = (let n = (of_char c :: nat) in
     if 65 \<le> n \<and> n \<le> 90 \<or> 192 \<le> n \<and> n \<le> 222 \<and> n \<noteq> 215 then char_of (n + 32) else c)"

definition to_lower :: "string \<Rightarrow> string" where
  "to_lower s = map char_lower s"

text \<open>\<open>s.indexOf(p)\<close>: the first position where \<open>p\<close> occurs, or -1.\<close>

fun starts_with :: "string \<Rightarrow> string \<Rightarrow> bool" where
  "starts_with [] s = True"
| "starts_with (c # p) [] = False"
| "starts_with (c # p) (x # s) = (c = x \<and> starts_with p s)"

fun index_of :: "string \<Rightarrow> string \<Rightarrow> int" where
  "index_of p [] = (if p = [] then 0 else -1)"
| "index_of p (x # s) = (if starts_with p (x # s) then 0
     else (let k = index_of p s in if k < 0 then -1 else k + 1))"

lemma starts_with_iff: "starts_with p s \<longleftrightarrow> (\<exists>r. s = p @ r)"
  by (induction p s rule: starts_with.induct) auto

lemma starts_with_append [js_simps]: "starts_with p (p @ r)"
  by (auto simp: starts_with_iff)

lemma index_of_ge: "- 1 \<le> index_of p s"
  by (induction p s rule: index_of.induct) (auto simp: Let_def)

lemma index_of_0_iff: "index_of p s = 0 \<longleftrightarrow> starts_with p s"
proof (cases s)
  case Nil
  then show ?thesis by (cases p) auto
next
  case (Cons x r)
  then show ?thesis using index_of_ge [of p r] by (auto simp: Let_def)
qed

text \<open>\<open>s.substr(i)\<close>: a negative start counts from the end.\<close>

definition substr_from :: "string \<Rightarrow> int \<Rightarrow> string" where
  "substr_from s i = drop (nat (if i < 0 then max 0 (int (length s) + i) else i)) s"

text \<open>\<open>s.substring(i, j)\<close> for \<open>i \<le> j\<close>.\<close>

definition substring :: "nat \<Rightarrow> nat \<Rightarrow> string \<Rightarrow> string" where
  "substring i j s = take (j - i) (drop i s)"

text \<open>\<open>s.split(c)\<close> with a one-character separator, and \<open>xs.join(sep)\<close>.\<close>

fun split_on :: "char \<Rightarrow> string \<Rightarrow> string list" where
  "split_on c [] = [[]]"
| "split_on c (x # s) = (if x = c then [] # split_on c s
     else (case split_on c s of [] \<Rightarrow> [[x]] | w # ws \<Rightarrow> (x # w) # ws))"

fun js_join :: "string \<Rightarrow> string list \<Rightarrow> string" where
  "js_join sep [] = []"
| "js_join sep [w] = w"
| "js_join sep (w # v # ws) = w @ sep @ js_join sep (v # ws)"

lemma split_on_neq_Nil [simp]: "split_on c s \<noteq> []"
  by (induction s) (auto split: list.splits)

lemma js_join_Cons: "ws \<noteq> [] \<Longrightarrow> js_join sep (w # ws) = w @ sep @ js_join sep ws"
  by (cases ws) auto

lemma join_split_on: "js_join [c] (split_on c s) = s"
proof (induction s)
  case (Cons x s)
  obtain w ws where eq: "split_on c s = w # ws"
    by (cases "split_on c s") auto
  show ?case
    using Cons eq by (cases ws) auto
qed simp

lemma split_on_no_sep: "w \<in> set (split_on c s) \<Longrightarrow> c \<notin> set w"
proof (induction s arbitrary: w)
  case (Cons x s)
  obtain v vs where eq: "split_on c s = v # vs"
    by (cases "split_on c s") auto
  show ?case
    using Cons eq by (auto split: if_splits)
qed simp

lemma split_on_clean [js_simps]: "c \<notin> set w \<Longrightarrow> split_on c w = [w]"
  by (induction w) auto

lemma split_on_append [js_simps]:
  "c \<notin> set w \<Longrightarrow> split_on c (w @ c # s) = w # split_on c s"
  by (induction w) auto

lemma split_join:
  "ws \<noteq> [] \<Longrightarrow> \<forall>w \<in> set ws. c \<notin> set w \<Longrightarrow> split_on c (js_join [c] ws) = ws"
  by (induction "[c]" ws rule: js_join.induct) (auto simp: js_simps)

text \<open>\<open>s.trim()\<close>: the white space and line terminators of the language below 256.\<close>

definition is_space :: "char \<Rightarrow> bool" where
  "is_space c = (let n = (of_char c :: nat) in 9 \<le> n \<and> n \<le> 13 \<or> n = 32 \<or> n = 160)"

lemma is_space_code [code]:
  "is_space c \<longleftrightarrow> c \<in> set [CHR 0x09, CHR 0x0A, CHR 0x0B, CHR 0x0C, CHR 0x0D, CHR 0x20, CHR 0xA0]"
proof -
  have eq: "c = d \<longleftrightarrow> (of_char c :: nat) = of_char d" for d
    by (simp only: of_char_eq_iff)
  define n :: nat where "n = of_char c"
  have "9 \<le> n \<and> n \<le> 13 \<or> n = 32 \<or> n = 160 \<longleftrightarrow> n \<in> {9, 10, 11, 12, 13, 32, 160}"
    by auto
  then show ?thesis
    unfolding is_space_def Let_def n_def [symmetric] by (simp add: eq flip: n_def)
qed

definition trim_left :: "string \<Rightarrow> string" where
  "trim_left s = dropWhile is_space s"

definition trim :: "string \<Rightarrow> string" where
  "trim s = rev (trim_left (rev (trim_left s)))"

subsection \<open>Decimal printing of integers\<close>

definition digit_char :: "nat \<Rightarrow> char" where
  "digit_char d = char_of (48 + d)"

function nat_str :: "nat \<Rightarrow> string" where
  "nat_str n = (if n < 10 then [digit_char n] else nat_str (n div 10) @ [digit_char (n mod 10)])"
  by pat_completeness auto
termination
  by (relation "measure id") auto

declare nat_str.simps [simp del]

function pos_str :: "int \<Rightarrow> string" where
  "pos_str i = (if i < 10 then [digit_char (nat i)]
     else pos_str (i div 10) @ [digit_char (nat (i mod 10))])"
  by pat_completeness auto
termination
  by (relation "measure nat") auto

declare pos_str.simps [simp del]

lemma pos_str_nat_str: "0 \<le> i \<Longrightarrow> pos_str i = nat_str (nat i)"
proof (induction i rule: pos_str.induct)
  case (1 i)
  show ?case
  proof (cases "i < 10")
    case True
    with 1 show ?thesis
      by (subst pos_str.simps, subst nat_str.simps) (simp add: nat_less_iff)
  next
    case False
    then have "\<not> nat i < 10" by simp
    with False 1 show ?thesis
      by (subst pos_str.simps, subst nat_str.simps) (simp add: nat_div_distrib nat_mod_distrib)
  qed
qed

definition int_str :: "int \<Rightarrow> string" where
  "int_str i = (if i < 0 then CHR ''-'' # pos_str (- i) else pos_str i)"

text \<open>The value of a digit string, used to state that printing loses nothing.\<close>

definition digits_val :: "string \<Rightarrow> nat" where
  "digits_val s = foldl (\<lambda>a c. a * 10 + (of_char c - 48)) 0 s"

lemma of_char_digit [simp]: "d < 10 \<Longrightarrow> (of_char (digit_char d) :: nat) = 48 + d"
  by (simp add: digit_char_def)

lemma digits_val_simps [simp]:
  "digits_val [] = 0"
  "digits_val (s @ [c]) = digits_val s * 10 + (of_char c - 48)"
  by (simp_all add: digits_val_def)

lemma digits_val_single [simp]: "digits_val [c] = of_char c - 48"
  by (simp add: digits_val_def)

lemma digits_val_nat_str [simp]: "digits_val (nat_str n) = n"
proof (induction n rule: nat_str.induct)
  case (1 n)
  then show ?case
    by (cases "n < 10") (simp_all add: nat_str.simps [of n])
qed

lemma nat_str_inject [simp]: "nat_str m = nat_str n \<longleftrightarrow> m = n"
  by (metis digits_val_nat_str)

lemma nat_str_neq_Nil [simp]: "nat_str n \<noteq> []"
  by (subst nat_str.simps) simp

lemma nat_str_digits: "c \<in> set (nat_str n) \<Longrightarrow> \<exists>d < 10. c = digit_char d"
proof (induction n arbitrary: c rule: nat_str.induct)
  case (1 n)
  show ?case
  proof (cases "n < 10")
    case True
    with "1.prems" show ?thesis by (auto simp: nat_str.simps [of n])
  next
    case False
    with "1.prems" have "c \<in> set (nat_str (n div 10)) \<or> c = digit_char (n mod 10)"
      by (auto simp: nat_str.simps [of n])
    with "1.IH" False show ?thesis by (metis mod_less_divisor zero_less_numeral)
  qed
qed

lemma length_nat_str_le: "0 < k \<Longrightarrow> n < 10 ^ k \<Longrightarrow> length (nat_str n) \<le> k"
proof (induction n arbitrary: k rule: nat_str.induct)
  case (1 n)
  show ?case
  proof (cases "n < 10")
    case True
    with "1.prems" show ?thesis by (simp add: nat_str.simps [of n])
  next
    case False
    then obtain j where k: "k = Suc j" and "0 < j"
      using "1.prems" by (cases k; cases "k = 1") auto
    have "n div 10 < 10 ^ j"
      using "1.prems" k by (simp add: less_mult_imp_div_less)
    with "1.IH" False \<open>0 < j\<close> have "length (nat_str (n div 10)) \<le> j" by blast
    with False k show ?thesis by (simp add: nat_str.simps [of n])
  qed
qed

lemma char_of_inj_small: "m < 256 \<Longrightarrow> n < 256 \<Longrightarrow> (char_of (m::nat) = char_of n) = (m = n)"
  by (metis mod_less of_char_of)

lemma int_str_inject [simp]: "int_str i = int_str j \<longleftrightarrow> i = j"
proof -
  have minus: "CHR ''-'' # s \<noteq> nat_str n" for s n
  proof
    assume "CHR ''-'' # s = nat_str n"
    then have "CHR ''-'' \<in> set (nat_str n)" by (metis list.set_intros(1))
    then obtain d where "d < 10" and "CHR ''-'' = digit_char d"
      using nat_str_digits by blast
    then have "(of_char (CHR ''-'') :: nat) = 48 + d" by simp
    then show False by simp
  qed
  then show ?thesis
    by (auto simp: int_str_def pos_str_nat_str minus [symmetric])
qed

subsection \<open>Objects\<close>

text \<open>
  An object is the list of its own enumerable properties in insertion order, which is the
  order of \<open>Object.keys\<close> and \<open>for in\<close> for keys that are not array indices.
\<close>

type_synonym 'v obj = "(string \<times> 'v) list"

abbreviation obj_get :: "'v obj \<Rightarrow> string \<Rightarrow> 'v option" where
  "obj_get \<equiv> map_of"

abbreviation obj_set :: "string \<Rightarrow> 'v \<Rightarrow> 'v obj \<Rightarrow> 'v obj" where
  "obj_set \<equiv> AList.update"

abbreviation obj_del :: "string \<Rightarrow> 'v obj \<Rightarrow> 'v obj" where
  "obj_del \<equiv> AList.delete"

abbreviation obj_keys :: "'v obj \<Rightarrow> string list" where
  "obj_keys \<equiv> map fst"

lemma obj_get_set [js_simps]: "obj_get (obj_set k v o1) = (obj_get o1)(k \<mapsto> v)"
  by (rule update_conv')

lemma obj_keys_set: "obj_keys (obj_set k v o1) =
    (if k \<in> set (obj_keys o1) then obj_keys o1 else obj_keys o1 @ [k])"
  by (simp add: update_keys)

lemma set_obj_set: "set (obj_set k v ps) \<subseteq> insert (k, v) (set ps)"
  by (induction ps) auto

lemma set_obj_del: "set (obj_del k ps) \<subseteq> set ps"
  by (induction ps) auto

end
