(* ===== verification/Web_Common.thy ===== *)
theory Web_Common
  imports Js_Prelude
begin

text \<open>
  \<^verbatim>\<open>web-admin/common.js\<close>: padding, timestamps, severity colours, the icon table and the
  cookie helpers that every page of the administration console shares.
\<close>

subsection \<open>Padding\<close>

text \<open>\<open>num\<close> arrives already coerced to a string, as \<^verbatim>\<open>"0000000000" + num\<close> does.\<close>

definition zeroPad :: "string \<Rightarrow> nat \<Rightarrow> string" where
  "zeroPad num len =
     (let s = ''0000000000'' @ num in substr_from s (int (length s) - int len))"

lemma zeroPad_eq_drop:
  "len \<le> 10 + length num \<Longrightarrow>
     zeroPad num len = drop (10 + length num - len) (''0000000000'' @ num)"
  unfolding zeroPad_def substr_from_def Let_def
  by (auto simp: nat_diff_distrib' intro!: arg_cong [where f = "\<lambda>k. drop k _"])

lemma length_zeroPad: "len \<le> 10 + length num \<Longrightarrow> length (zeroPad num len) = len"
  by (simp add: zeroPad_eq_drop)

lemma zeroPad_replicate:
  assumes "length num \<le> len" "len \<le> 10"
  shows "zeroPad num len = replicate (len - length num) CHR ''0'' @ num"
proof -
  have zeros: "''0000000000'' = replicate 10 CHR ''0''"
    by (simp add: eval_nat_numeral)
  have "zeroPad num len = drop (10 + length num - len) (replicate 10 CHR ''0'' @ num)"
    using assms by (simp only: zeroPad_eq_drop zeros)
  also have "\<dots> = replicate (len - length num) CHR ''0'' @ num"
    using assms by (simp add: diff_diff_eq)
  finally show ?thesis .
qed

lemma digits_val_zeros [simp]:
  "digits_val (replicate k CHR ''0'' @ s) = digits_val s"
proof -
  have "foldl (\<lambda>a c. a * 10 + ((of_char c :: nat) - 48)) 0 (replicate k CHR ''0'') = 0"
    by (induction k) auto
  then show ?thesis by (simp add: digits_val_def)
qed

lemma zeroPad_nat:
  assumes "0 < len" "len \<le> 10" "n < 10 ^ len"
  shows "length (zeroPad (nat_str n) len) = len" "digits_val (zeroPad (nat_str n) len) = n"
  using assms length_nat_str_le [of len n]
  by (simp_all add: length_zeroPad zeroPad_replicate)

subsection \<open>Dates\<close>

text \<open>
  The UTC getters of \<open>Date\<close>, by the day and time arithmetic of ECMAScript 15.9.1: a time
  value is an integral number of milliseconds since the epoch, of magnitude at most
  8.64e15.  \<open>None\<close> is an invalid date, whose getters all return NaN.
\<close>

definition msPerDay :: int where "msPerDay = 86400000"

definition day_from_year :: "int \<Rightarrow> int" where
  "day_from_year y = 365 * (y - 1970) + (y - 1969) div 4 - (y - 1901) div 100 + (y - 1601) div 400"

definition year_from_day :: "int \<Rightarrow> int" where
  "year_from_day d = (let y = 1970 + 400 * d div 146097 in
     if d < day_from_year y then y - 1
     else if day_from_year (y + 1) \<le> d then y + 1 else y)"

definition leap_day :: "int \<Rightarrow> int" where
  "leap_day y = day_from_year (y + 1) - day_from_year y - 365"

definition month_start :: "int \<Rightarrow> nat \<Rightarrow> int" where
  "month_start l m = [0, 31, 59 + l, 90 + l, 120 + l, 151 + l, 181 + l, 212 + l, 243 + l,
      273 + l, 304 + l, 334 + l, 365 + l] ! m"

definition month_from_day :: "int \<Rightarrow> int \<Rightarrow> nat" where
  "month_from_day l n =
     (if n < 31 then 0 else if n < 59 + l then 1 else if n < 90 + l then 2
      else if n < 120 + l then 3 else if n < 151 + l then 4 else if n < 181 + l then 5
      else if n < 212 + l then 6 else if n < 243 + l then 7 else if n < 273 + l then 8
      else if n < 304 + l then 9 else if n < 334 + l then 10 else 11)"

record utc_fields =
  utcFullYear :: int
  utcMonth :: nat
  utcDate :: nat
  utcHours :: nat
  utcMinutes :: nat
  utcSeconds :: nat
  utcMilliseconds :: nat

definition date_fields :: "int \<Rightarrow> utc_fields option" where
  "date_fields t =
     (if \<bar>t\<bar> > 8640000000000000 then None
      else let d = t div msPerDay; r = t mod msPerDay; y = year_from_day d;
               l = leap_day y; n = d - day_from_year y; m = month_from_day l n
           in Some \<lparr>utcFullYear = y, utcMonth = m, utcDate = nat (n - month_start l m + 1),
                utcHours = nat (r div 3600000), utcMinutes = nat (r div 60000 mod 60),
                utcSeconds = nat (r div 1000 mod 60), utcMilliseconds = nat (r mod 1000)\<rparr>)"

text \<open>\<open>MakeDate(MakeDay(..), MakeTime(..))\<close>, the inverse used to state that nothing is lost.\<close>

definition make_time :: "utc_fields \<Rightarrow> int" where
  "make_time f = (day_from_year (utcFullYear f)
       + month_start (leap_day (utcFullYear f)) (utcMonth f) + int (utcDate f) - 1) * msPerDay
     + int (utcHours f) * 3600000 + int (utcMinutes f) * 60000 + int (utcSeconds f) * 1000
     + int (utcMilliseconds f)"

definition epochToGMT :: "int \<Rightarrow> string" where
  "epochToGMT timestamp =
     (case date_fields timestamp of
        None \<Rightarrow> ''NaN'' @ ''-'' @ zeroPad ''NaN'' 2 @ ''-'' @ zeroPad ''NaN'' 2 @ ''&nbsp;&nbsp;'' @
          zeroPad ''NaN'' 2 @ ''.'' @ zeroPad ''NaN'' 2 @ ''.'' @ zeroPad ''NaN'' 2 @ ''.'' @
          zeroPad ''NaN'' 3 @ '' Z''
      | Some d \<Rightarrow> int_str (utcFullYear d) @ ''-'' @
          zeroPad (nat_str (utcMonth d + 1)) 2 @ ''-'' @
          zeroPad (nat_str (utcDate d)) 2 @ ''&nbsp;&nbsp;'' @
          zeroPad (nat_str (utcHours d)) 2 @ ''.'' @
          zeroPad (nat_str (utcMinutes d)) 2 @ ''.'' @
          zeroPad (nat_str (utcSeconds d)) 2 @ ''.'' @
          zeroPad (nat_str (utcMilliseconds d)) 3 @ '' Z'')"

lemma div_numeral_bounds:
  fixes x :: int
  shows "numeral k * (x div numeral k) \<le> x" "x < numeral k * (x div numeral k) + numeral k"
  using mult_div_mod_eq [of "numeral k" x] pos_mod_sign [OF zero_less_numeral, of x k]
    pos_mod_bound [OF zero_less_numeral, of x k]
  by linarith+

lemma div_succ:
  fixes x n :: int
  assumes "0 < n"
  shows "(x + 1) div n = x div n + (if n dvd x + 1 then 1 else 0)"
proof (cases "x mod n = n - 1")
  case True
  then have "x + 1 = n * (x div n) + n"
    using mult_div_mod_eq [of n x] by linarith
  then have "x + 1 = n * (x div n + 1)" by (simp only: distrib_left mult_1_right)
  then show ?thesis using assms by (metis dvd_triv_left nonzero_mult_div_cancel_left less_irrefl)
next
  case False
  then have r: "0 \<le> x mod n + 1" "x mod n + 1 < n"
    using assms pos_mod_bound [of n x] pos_mod_sign [of n x] by linarith+
  have e: "x + 1 = n * (x div n) + (x mod n + 1)"
    using mult_div_mod_eq [of n x] by linarith
  have "(x + 1) div n = x div n"
    by (rule int_div_pos_eq [OF e r])
  moreover have "(x + 1) mod n = x mod n + 1"
    by (rule int_mod_pos_eq [OF e r])
  moreover have "x mod n + 1 \<noteq> 0"
    using pos_mod_sign [OF assms, of x] by linarith
  ultimately show ?thesis by (simp add: dvd_eq_mod_eq_0)
qed

lemma day_from_year_step:
  "day_from_year (y + 1) = day_from_year y + 365 + leap_day y"
  by (simp add: leap_day_def)

lemma leap_day_dvd:
  "leap_day y = (if 4 dvd y then 1 else 0) - (if 100 dvd y then 1 else 0)
     + (if 400 dvd y then 1 else 0)"
proof -
  have "4 dvd (y - 1969) + 1 \<longleftrightarrow> 4 dvd y" "100 dvd (y - 1901) + 1 \<longleftrightarrow> 100 dvd y"
    "400 dvd (y - 1601) + 1 \<longleftrightarrow> 400 dvd y"
    using dvd_add_left_iff [of 4 "- 1968" y] dvd_add_left_iff [of 100 "- 1900" y]
      dvd_add_left_iff [of 400 "- 1600" y] by (simp_all add: algebra_simps)
  then show ?thesis
    using div_succ [of 4 "y - 1969"] div_succ [of 100 "y - 1901"] div_succ [of 400 "y - 1601"]
    unfolding leap_day_def day_from_year_def by (simp add: algebra_simps)
qed

lemma leap_day_cases: "leap_day y = 0 \<or> leap_day y = 1"
proof -
  have "400 dvd y \<Longrightarrow> 100 dvd y" "100 dvd y \<Longrightarrow> 4 dvd y"
    by (erule dvd_trans [rotated], simp)+
  then show ?thesis by (auto simp: leap_day_dvd)
qed

lemma year_from_day_bounds:
  "day_from_year (year_from_day d) \<le> d \<and> d < day_from_year (year_from_day d + 1)"
proof -
  define q where "q = 400 * d div 146097"
  have q: "146097 * q \<le> 400 * d" "400 * d < 146097 * q + 146097"
    unfolding q_def by (rule div_numeral_bounds)+
  have b: "4 * (x div 4) \<le> x" "x < 4 * (x div 4) + 4"
    "100 * (x div 100) \<le> x" "x < 100 * (x div 100) + 100"
    "400 * (x div 400) \<le> x" "x < 400 * (x div 400) + 400" for x :: int
    by (rule div_numeral_bounds)+
  have approx: "400 * day_from_year y \<le> 146097 * (y - 1970) + 680"
    "146097 * (y - 1970) - 900 \<le> 400 * day_from_year y" for y
  proof -
    obtain e f g where efg: "e = (y - 1969) div 4" "f = (y - 1901) div 100" "g = (y - 1601) div 400"
      by blast
    show "400 * day_from_year y \<le> 146097 * (y - 1970) + 680"
      using b(1) [of "y - 1969"] b(4) [of "y - 1901"] b(5) [of "y - 1601"]
      unfolding day_from_year_def efg [symmetric] by (simp add: algebra_simps)
    show "146097 * (y - 1970) - 900 \<le> 400 * day_from_year y"
      using b(2) [of "y - 1969"] b(3) [of "y - 1901"] b(6) [of "y - 1601"]
      unfolding day_from_year_def efg [symmetric] by (simp add: algebra_simps)
  qed
  have lo: "day_from_year (1970 + q - 1) \<le> d"
    using q approx(1) [of "1970 + q - 1"] by (simp add: algebra_simps)
  have hi: "d < day_from_year (1970 + q + 1 + 1)"
    using q approx(2) [of "1970 + q + 1 + 1"] by (simp add: algebra_simps)
  show ?thesis
    using lo hi unfolding year_from_day_def q_def [symmetric] Let_def by (auto simp: algebra_simps)
qed

lemma month_from_day_bounds:
  assumes l: "l = 0 \<or> l = 1" and n: "0 \<le> n" "n < 365 + l"
  shows "month_from_day l n < 12" "month_start l (month_from_day l n) \<le> n"
    "n < month_start l (month_from_day l n) + 31"
  using assms by (auto simp: month_from_day_def month_start_def)

lemma date_fields_round:
  assumes f: "date_fields t = Some f"
  shows "make_time f = t" "utcMonth f < 12" "1 \<le> utcDate f" "utcDate f \<le> 31"
    "utcHours f < 24" "utcMinutes f < 60" "utcSeconds f < 60" "utcMilliseconds f < 1000"
proof -
  define d r where "d = t div msPerDay" and "r = t mod msPerDay"
  define y where "y = year_from_day d"
  define l n where "l = leap_day y" and "n = d - day_from_year y"
  define m where "m = month_from_day l n"
  have f: "f = \<lparr>utcFullYear = y, utcMonth = m, utcDate = nat (n - month_start l m + 1),
                utcHours = nat (r div 3600000), utcMinutes = nat (r div 60000 mod 60),
                utcSeconds = nat (r div 1000 mod 60), utcMilliseconds = nat (r mod 1000)\<rparr>"
    using f unfolding date_fields_def Let_def d_def r_def y_def l_def n_def m_def
    by (auto split: if_splits)
  have n: "0 \<le> n" "n < 365 + l"
    using year_from_day_bounds [of d] by (simp_all add: n_def l_def y_def day_from_year_step)
  note m = month_from_day_bounds [OF _ n, folded m_def]
  have l: "l = 0 \<or> l = 1" by (simp add: l_def leap_day_cases)
  have r: "0 \<le> r" "r < 86400000" by (simp_all add: r_def msPerDay_def)
  show "utcMonth f < 12" "1 \<le> utcDate f" "utcDate f \<le> 31"
    using m [OF l] by (simp_all add: f)
  show "utcHours f < 24" "utcMinutes f < 60" "utcSeconds f < 60" "utcMilliseconds f < 1000"
    using r by (auto simp: f nat_less_iff)
  have time: "r div 3600000 * 3600000 + r div 60000 mod 60 * 60000 + r div 1000 mod 60 * 1000
      + r mod 1000 = r"
  proof -
    define a b where "a = r div 1000" and "b = a div 60"
    have ab: "r div 60000 = b" "r div 3600000 = b div 60"
      by (simp_all add: a_def b_def zdiv_zmult2_eq [symmetric])
    have "r = a * 1000 + r mod 1000" "a = b * 60 + a mod 60" "b = b div 60 * 60 + b mod 60"
      unfolding a_def b_def by (rule div_mult_mod_eq [symmetric])+
    then show ?thesis
      unfolding ab a_def [symmetric] by linarith
  qed
  have date: "day_from_year y + month_start l m + int (nat (n - month_start l m + 1)) - 1 = d"
    using m [OF l] by (simp add: n_def)
  have "make_time f = d * msPerDay + (r div 3600000 * 3600000 + r div 60000 mod 60 * 60000
      + r div 1000 mod 60 * 1000 + r mod 1000)"
    using r unfolding make_time_def f utc_fields.simps l_def [symmetric] date by simp
  then have "make_time f = d * msPerDay + r" unfolding time .
  then show "make_time f = t" by (simp add: d_def r_def)
qed

lemma zeroPad_nat_inject:
  assumes "zeroPad (nat_str m) k = zeroPad (nat_str n) k" "m < 10 ^ k" "n < 10 ^ k" "0 < k" "k \<le> 10"
  shows "m = n"
  using assms by (metis zeroPad_nat(2))

lemma length_zeroPad_nat [simp]:
  "n < 100 \<Longrightarrow> length (zeroPad (nat_str n) 2) = 2"
  "n < 1000 \<Longrightarrow> length (zeroPad (nat_str n) 3) = 3"
  using zeroPad_nat(1) [of 2 n] zeroPad_nat(1) [of 3 n] by simp_all

text \<open>
  Two valid time stamps that \<open>epochToGMT\<close> renders as the same text are equal, so the
  fixed-width rendering (year, two-digit month to second, three-digit millisecond) loses
  nothing.
\<close>

theorem epochToGMT_inject:
  assumes t: "\<bar>t\<bar> \<le> 8640000000000000" and u: "\<bar>u\<bar> \<le> 8640000000000000"
    and eq: "epochToGMT t = epochToGMT u"
  shows "t = u"
proof -
  obtain f g where f: "date_fields t = Some f" and g: "date_fields u = Some g"
    using t u by (auto simp: date_fields_def Let_def)
  note bf = date_fields_round [OF f] and bg = date_fields_round [OF g]
  have le: "utcMonth f + 1 < 100" "utcDate f < 100" "utcHours f < 100" "utcMinutes f < 100"
    "utcSeconds f < 100" "utcMonth g + 1 < 100" "utcDate g < 100" "utcHours g < 100"
    "utcMinutes g < 100" "utcSeconds g < 100"
    using bf bg by simp_all
  have two: "zeroPad (nat_str a) 2 = zeroPad (nat_str b) 2 \<Longrightarrow> a < 100 \<Longrightarrow> b < 100 \<Longrightarrow> a = b"
    and three: "zeroPad (nat_str a) 3 = zeroPad (nat_str b) 3 \<Longrightarrow> a < 1000 \<Longrightarrow> b < 1000 \<Longrightarrow> a = b"
    for a b
    using zeroPad_nat_inject [of a 2 b] zeroPad_nat_inject [of a 3 b] by simp_all
  have eqs: "utcFullYear f = utcFullYear g"
      "zeroPad (nat_str (utcMonth f + 1)) 2 = zeroPad (nat_str (utcMonth g + 1)) 2"
      "zeroPad (nat_str (utcDate f)) 2 = zeroPad (nat_str (utcDate g)) 2"
      "zeroPad (nat_str (utcHours f)) 2 = zeroPad (nat_str (utcHours g)) 2"
      "zeroPad (nat_str (utcMinutes f)) 2 = zeroPad (nat_str (utcMinutes g)) 2"
      "zeroPad (nat_str (utcSeconds f)) 2 = zeroPad (nat_str (utcSeconds g)) 2"
      "zeroPad (nat_str (utcMilliseconds f)) 3 = zeroPad (nat_str (utcMilliseconds g)) 3"
    using eq le bf(8) bg(8) by (simp_all add: epochToGMT_def f g del: One_nat_def)
  have "f = g"
    using eqs(1) two [OF eqs(2) le(1,6)] two [OF eqs(3) le(2,7)] two [OF eqs(4) le(3,8)]
      two [OF eqs(5) le(4,9)] two [OF eqs(6) le(5,10)] three [OF eqs(7) bf(8) bg(8)] by simp
  then show ?thesis using bf(1) bg(1) by simp
qed

theorem epochToGMT_inject_witness:
  "epochToGMT 1572307200123 = ''2019-10-29&nbsp;&nbsp;00.00.00.123 Z''
     \<and> (1572307200123::int) = 1572307200123"
proof -
  have "\<bar>1572307200123 :: int\<bar> \<le> 8640000000000000" by simp
  from epochToGMT_inject [OF this this refl] show ?thesis by code_simp
qed

subsection \<open>Severity colours and icon classes\<close>

text \<open>A \<^verbatim>\<open>switch\<close> without a default returns \<open>undefined\<close>, the value \<^term>\<open>None\<close>.\<close>

definition mapSeverityToColor :: "string \<Rightarrow> string option" where
  "mapSeverityToColor severity =
     (if severity = ''info'' then Some ''w3-green''
      else if severity = ''warning'' then Some ''w3-yellow''
      else if severity = ''urgent'' then Some ''w3-orange''
      else if severity = ''critical'' then Some ''w3-red''
      else None)"

definition icons :: "string obj" where
  "icons = [
    (''about'', ''fas fa-info-circle''),
    (''dashboard'', ''fa fa-tachometer-alt''),
    (''sensors'', ''fa fa-rss''),
    (''inventory'', ''fa fa-tags''),
    (''tag_stats'', ''fa fa-tags''),
    (''upstream'', ''fa fa-cloud-upload-alt''),
    (''downstream'', ''fa fa-download''),
    (''clusters'', ''far fa-object-group''),
    (''scheduler'', ''far fa-calendar-alt''),
    (''configuration'', ''fa fa-cogs''),
    (''connected'', ''fa fa-link''),
    (''disconnected'', ''fa fa-unlink''),
    (''reading'', ''fa fa-rss''),
    (''stopped'', ''fas fa-square''),
    (''mobility'', ''fas fa-chart-line''),
    (''old_calendar'', ''fa fa-calendar'')]"

subsection \<open>Cookies\<close>

text \<open>
  \<open>document.cookie\<close> is the browser's.  Its documented behaviour (RFC 6265, section 5.2
  and 5.4) for the strings the helpers assign: the assigned text up to the first ';' is the
  name-value pair, split at its first '=' and trimmed; the pair replaces the pair of that
  name or is appended; reading gives all pairs as \<open>name=value\<close> joined by "; ".  Every page
  lives under the one path the helper names, so the path selects nothing.
\<close>

fun split_first :: "char \<Rightarrow> string \<Rightarrow> string \<times> string" where
  "split_first c [] = ([], [])"
| "split_first c (x # s) = (if x = c then ([], s)
     else (case split_first c s of (a, b) \<Rightarrow> (x # a, b)))"

definition jar_assign :: "string \<Rightarrow> string obj \<Rightarrow> string obj" where
  "jar_assign assigned jar =
     (let pair = fst (split_first CHR '';'' assigned); (n, v) = split_first CHR ''='' pair
      in obj_set (trim n) (trim v) jar)"

definition jar_read :: "string obj \<Rightarrow> string" where
  "jar_read jar = js_join ''; '' (map (\<lambda>(n, v). n @ ''='' @ v) jar)"

definition setCookie :: "string \<Rightarrow> string \<Rightarrow> string" where
  "setCookie name val = name @ ''='' @ val @ '';path=/''"

fun strip_spaces :: "string \<Rightarrow> string" where
  "strip_spaces [] = []"
| "strip_spaces (c # s) = (if c = CHR '' '' then strip_spaces s else c # s)"

fun find_cookie :: "string \<Rightarrow> string list \<Rightarrow> string" where
  "find_cookie search [] = []"
| "find_cookie search (tok # toks) =
     (let token = strip_spaces tok in
      if index_of search token = 0 then substring (length search) (length token) token
      else find_cookie search toks)"

definition getCookie :: "string \<Rightarrow> string \<Rightarrow> string" where
  "getCookie cookie name =
     (let search = name @ ''='' in find_cookie search (split_on CHR '';'' cookie))"

text \<open>
  The contract the helpers rely on: an abstract list of pairs, what an assignment does to
  it, and what a read shows.  Names and values are clean when they hold no separator and no
  surrounding white space.
\<close>

definition clean_name :: "string \<Rightarrow> bool" where
  "clean_name n \<longleftrightarrow> CHR '';'' \<notin> set n \<and> CHR ''='' \<notin> set n \<and> trim n = n"

definition clean_value :: "string \<Rightarrow> bool" where
  "clean_value v \<longleftrightarrow> CHR '';'' \<notin> set v \<and> trim v = v"

definition clean_pairs :: "string obj \<Rightarrow> bool" where
  "clean_pairs ps \<longleftrightarrow> (\<forall>p \<in> set ps. clean_name (fst p) \<and> clean_value (snd p))"

lemma trim_leading: "trim (c # s) = c # s \<Longrightarrow> \<not> is_space c"
proof
  assume eq: "trim (c # s) = c # s" and "is_space c"
  then have "trim (c # s) = rev (trim_left (rev (trim_left s)))"
    by (simp add: trim_def trim_left_def)
  also have "length \<dots> \<le> length s"
    by (metis length_dropWhile_le length_rev le_trans trim_left_def)
  finally show False using eq by simp
qed

lemma strip_spaces_name:
  assumes "clean_name n"
  shows "strip_spaces (n @ CHR ''='' # v) = n @ CHR ''='' # v"
proof (cases n)
  case (Cons c r)
  then have "c \<noteq> CHR '' ''"
    using assms trim_leading [of c r] by (auto simp: clean_name_def is_space_def)
  then show ?thesis using Cons by simp
qed simp

lemma starts_with_name:
  "CHR ''='' \<notin> set n \<Longrightarrow> CHR ''='' \<notin> set m \<Longrightarrow>
     starts_with (n @ ''='') (m @ CHR ''='' # v) \<longleftrightarrow> n = m"
proof (induction n arbitrary: m)
  case Nil
  then show ?case by (cases m) auto
next
  case (Cons c n)
  then show ?case by (cases m) auto
qed

definition token_text :: "string \<times> string \<Rightarrow> string" where
  "token_text p = fst p @ CHR ''='' # snd p"

lemma find_cookie_step:
  assumes "CHR ''='' \<notin> set n" "clean_name (fst p)"
    and "tok = token_text p \<or> tok = CHR '' '' # token_text p"
  shows "find_cookie (n @ ''='') (tok # toks) =
    (if n = fst p then snd p else find_cookie (n @ ''='') toks)"
proof -
  have s: "strip_spaces tok = token_text p"
    using assms(2,3) strip_spaces_name [of "fst p" "snd p"] by (auto simp: token_text_def)
  have "index_of (n @ ''='') (token_text p) = 0 \<longleftrightarrow> n = fst p"
    using assms(1,2) by (simp add: index_of_0_iff starts_with_name token_text_def clean_name_def)
  then show ?thesis
    by (simp add: s Let_def) (simp add: token_text_def substring_def)
qed

lemma find_cookie_tokens:
  assumes "CHR ''='' \<notin> set n" "clean_pairs ps"
    and "\<forall>p. f p = token_text p \<or> f p = CHR '' '' # token_text p"
  shows "find_cookie (n @ ''='') (map f ps) = (case obj_get ps n of None \<Rightarrow> [] | Some v \<Rightarrow> v)"
  using assms(2)
proof (induction ps)
  case (Cons p ps)
  then have c: "clean_name (fst p)" and ps: "clean_pairs ps"
    by (auto simp: clean_pairs_def)
  have "find_cookie (n @ ''='') (f p # map f ps) =
      (if n = fst p then snd p else find_cookie (n @ ''='') (map f ps))"
    using assms(3) by (intro find_cookie_step [OF assms(1) c]) blast
  then show ?case
    using Cons.IH [OF ps] by (cases p) (simp del: find_cookie.simps)
qed simp

lemma split_joined_tokens:
  assumes "\<forall>w \<in> set ws. CHR '';'' \<notin> set w"
  shows "split_on CHR '';'' (js_join ''; '' ws) =
    (case ws of [] \<Rightarrow> [[]] | v # vs \<Rightarrow> v # map (\<lambda>w. CHR '' '' # w) vs)"
  using assms
proof (induction "''; ''" ws rule: js_join.induct)
  case (3 w v ws)
  then show ?case by (auto simp: js_simps)
qed (auto simp: js_simps)

locale cookie_store =
  fixes put :: "string \<Rightarrow> 'j \<Rightarrow> 'j"
    and shown :: "'j \<Rightarrow> string"
    and pairs :: "'j \<Rightarrow> string obj"
  assumes put_pair: "clean_name n \<Longrightarrow> clean_value v \<Longrightarrow>
      pairs (put (n @ ''='' @ v @ '';path=/'') j) = obj_set n v (pairs j)"
    and shown_pairs: "shown j = js_join ''; '' (map token_text (pairs j))"
begin

lemma get_pairs:
  assumes "clean_pairs (pairs j)" "clean_name n"
  shows "getCookie (shown j) n = (case obj_get (pairs j) n of None \<Rightarrow> [] | Some v \<Rightarrow> v)"
proof -
  have n: "CHR ''='' \<notin> set n" using assms(2) by (simp add: clean_name_def)
  have no_sep: "\<forall>w \<in> set (map token_text (pairs j)). CHR '';'' \<notin> set w"
    using assms(1) by (auto simp: clean_pairs_def clean_name_def clean_value_def token_text_def)
  show ?thesis
  proof (cases "pairs j")
    case Nil
    then show ?thesis by (simp add: getCookie_def shown_pairs)
  next
    case (Cons p ps)
    have c: "clean_pairs [p]" "clean_pairs ps"
      using assms(1) Cons by (auto simp: clean_pairs_def)
    have "getCookie (shown j) n =
        find_cookie (n @ ''='') (token_text p # map (\<lambda>q. CHR '' '' # token_text q) ps)"
      using split_joined_tokens [OF no_sep] Cons
      by (simp add: getCookie_def shown_pairs Let_def comp_def)
    also have "\<dots> = (if n = fst p then snd p
        else find_cookie (n @ ''='') (map (\<lambda>q. CHR '' '' # token_text q) ps))"
      using c(1) by (intro find_cookie_step [OF n]) (auto simp: clean_pairs_def)
    also have "\<dots> = (case obj_get (p # ps) n of None \<Rightarrow> [] | Some v \<Rightarrow> v)"
      using find_cookie_tokens [OF n c(2), of "\<lambda>q. CHR '' '' # token_text q"]
      by (cases p) simp
    finally show ?thesis using Cons by simp
  qed
qed

lemma pairs_set: "clean_name n \<Longrightarrow> clean_value v \<Longrightarrow>
    pairs (put (setCookie n v) j) = obj_set n v (pairs j)"
  unfolding setCookie_def by (rule put_pair)

lemma clean_put:
  assumes "clean_pairs (pairs j)" "clean_name n" "clean_value v"
  shows "clean_pairs (pairs (put (setCookie n v) j))"
proof -
  show ?thesis
    using assms set_obj_set [of n v "pairs j"] by (fastforce simp: pairs_set clean_pairs_def)
qed

lemma get_put:
  assumes "clean_pairs (pairs j)" "clean_name n" "clean_value v" "clean_name m"
  shows "getCookie (shown (put (setCookie n v) j)) m =
    (if m = n then v else getCookie (shown j) m)"
  using assms get_pairs [OF clean_put [OF assms(1-3)] assms(4)] get_pairs [OF assms(1) assms(4)]
  by (simp add: pairs_set update_conv')

end

text \<open>The browser's jar satisfies the contract.\<close>

lemma split_first_hit [js_simps]: "c \<notin> set a \<Longrightarrow> split_first c (a @ c # b) = (a, b)"
  by (induction a) auto

interpretation jar: cookie_store jar_assign jar_read "\<lambda>j. j"
proof unfold_locales
  fix n v and j :: "string obj"
  assume n: "clean_name n" and v: "clean_value v"
  have "split_first CHR '';'' (n @ ''='' @ v @ '';path=/'') = (n @ ''='' @ v, ''path=/'')"
    using n v split_first_hit [of "CHR '';''" "n @ ''='' @ v" "''path=/''"]
    by (simp add: clean_name_def clean_value_def)
  moreover have "split_first CHR ''='' (n @ ''='' @ v) = (n, v)"
    using n by (simp add: clean_name_def js_simps)
  ultimately show "jar_assign (n @ ''='' @ v @ '';path=/'') j = obj_set n v j"
    using n v by (simp add: jar_assign_def Let_def clean_name_def clean_value_def)
next
  have "(\<lambda>(n, v). n @ ''='' @ v) = token_text"
    by (auto simp: token_text_def)
  then show "jar_read j = js_join ''; '' (map token_text j)" for j
    by (simp only: jar_read_def)
qed

text \<open>
  Reading a cookie after \<open>setCookie\<close>: the stored value comes back under the same
  name, and every other cookie reads as before (also one whose name is a prefix of it).
\<close>

theorem getCookie_setCookie:
  assumes "clean_pairs jar" "clean_name n" "clean_value v" "clean_name m"
  shows "getCookie (jar_read (jar_assign (setCookie n v) jar)) m =
    (if m = n then v else getCookie (jar_read jar) m)"
  using assms by (rule jar.get_put)

theorem getCookie_setCookie_witness:
  "getCookie (jar_read (jar_assign (setCookie ''epc_filter_pattern'' ''30*'')
      [(''epc'', ''1''), (''tag_stats_shown'', ''true'')])) ''epc'' =
    (if ''epc'' = ''epc_filter_pattern'' then ''30*''
     else getCookie (jar_read [(''epc'', ''1''), (''tag_stats_shown'', ''true'')]) ''epc'')"
  by (rule getCookie_setCookie; code_simp)

subsection \<open>Error responses\<close>

text \<open>
  \<open>checkResponseError(params)\<close> for an object \<open>params\<close>: whether it has an \<open>error\<close> member,
  and the text shown by \<open>alert\<close>, the serialisation of that member (the parameter
  \<open>stringify\<close> is \<open>JSON.stringify(_, null, ' ')\<close>).
\<close>

definition checkResponseError :: "('v \<Rightarrow> string) \<Rightarrow> 'v obj \<Rightarrow> bool \<times> string list" where
  "checkResponseError stringify params =
     (case obj_get params ''error'' of
        Some e \<Rightarrow> (True, [stringify e])
      | None \<Rightarrow> (False, []))"

end
