(* ===== verification/Web_TableSort.thy ===== *)
theory Web_TableSort
  imports Web_Common "HOL-Library.Multiset"
begin

text \<open>
  \<^verbatim>\<open>web-admin/table-support.js\<close>: click-to-sort tables.  The sort is an exchange sort over the
  live DOM rows: scan for the first adjacent pair in the wrong order, exchange it, scan
  again; an ascending scan that finds nothing to exchange on its first pass switches to
  descending.  The theory shows that the loop terminates, that it is a stable sort and how
  the direction is chosen, that it makes exactly one exchange per inversion, and that the
  sort indicators agree with the last sort.
\<close>

subsection \<open>The table\<close>

text \<open>
  A data row is the list of the \<open>innerHTML\<close> of its TD cells.  \<open>indicator\<close> gives the
  \<open>innerHTML\<close> of the element whose id is \<open>"sort_indicator_col_" + k\<close>, if there is one.
\<close>

datatype sort_order = ASC | DES

record header_cell =
  cell_classes :: "string list"
  cell_html :: string
  cell_clicks :: "nat list"

record sort_page =
  header_cells :: "header_cell list"
  data_rows :: "string list list"
  indicator :: "nat \<Rightarrow> string option"
  prevSortCol :: nat

definition nbsp :: string where "nbsp = ''&nbsp;''"

text \<open>\<open>classList.add\<close> adds a token once; \<open>bindSortTableCall\<close> is the closure over the column.\<close>

definition class_add :: "string \<Rightarrow> string list \<Rightarrow> string list" where
  "class_add c cs = (if c \<in> set cs then cs else cs @ [c])"

definition init_header_cell :: "nat \<Rightarrow> header_cell \<Rightarrow> header_cell" where
  "init_header_cell i h = h\<lparr>
     cell_classes := class_add ''w3-button'' (cell_classes h),
     cell_html := cell_html h @ ''&nbsp;<span id=\"sort_indicator_col_'' @ nat_str i
        @ ''\">&nbsp;</span>'',
     cell_clicks := cell_clicks h @ [i]\<rparr>"

fun init_header :: "nat \<Rightarrow> header_cell list \<Rightarrow> header_cell list" where
  "init_header i [] = []"
| "init_header i (h # hs) = init_header_cell i h # init_header (Suc i) hs"

definition initTableSort :: "sort_page \<Rightarrow> sort_page" where
  "initTableSort p = p\<lparr>
     header_cells := init_header 0 (header_cells p),
     indicator := (\<lambda>k. if k < length (header_cells p) then Some nbsp else indicator p k)\<rparr>"

subsection \<open>The exchange loop\<close>

definition cell_key :: "nat \<Rightarrow> string list \<Rightarrow> string option" where
  "cell_key c row = (if c < length row then Some (to_lower (row ! c)) else None)"

fun out_of_order :: "sort_order \<Rightarrow> string \<Rightarrow> string \<Rightarrow> bool" where
  "out_of_order ASC x y = (x > y)"
| "out_of_order DES x y = (x < y)"

text \<open>The \<^verbatim>\<open>for\<close> scan: the index of the first pair to switch, or a missing cell.\<close>

fun find_switch :: "sort_order \<Rightarrow> nat \<Rightarrow> string list list \<Rightarrow> js_error + nat option" where
  "find_switch ord c (r # r' # rs) =
     (case (cell_key c r, cell_key c r') of
        (Some x, Some y) \<Rightarrow>
          (if out_of_order ord x y then Inr (Some 0)
           else js_bind (find_switch ord c (r' # rs)) (\<lambda>k. Inr (map_option Suc k)))
      | _ \<Rightarrow> Inl TypeError)"
| "find_switch ord c rs = Inr None"

text \<open>\<^verbatim>\<open>insertBefore(rows[i + 1], rows[i])\<close>.\<close>

fun swap_at :: "nat \<Rightarrow> 'a list \<Rightarrow> 'a list" where
  "swap_at 0 (x # y # zs) = y # x # zs"
| "swap_at (Suc i) (x # zs) = x # swap_at i zs"
| "swap_at i zs = zs"

definition wrong_pair :: "sort_order \<Rightarrow> nat \<Rightarrow> string list \<Rightarrow> string list \<Rightarrow> bool" where
  "wrong_pair ord c r r' = (case (cell_key c r, cell_key c r') of
     (Some x, Some y) \<Rightarrow> out_of_order ord x y | _ \<Rightarrow> False)"

fun inversion_count :: "('a \<Rightarrow> 'a \<Rightarrow> bool) \<Rightarrow> 'a list \<Rightarrow> nat" where
  "inversion_count P [] = 0"
| "inversion_count P (x # xs) = length (filter (P x) xs) + inversion_count P xs"

lemma find_switch_SomeE:
  assumes "find_switch ord c rows = Inr (Some i)"
  obtains us x y vs where "rows = us @ x # y # vs" "wrong_pair ord c x y"
    "swap_at i rows = us @ y # x # vs"
proof -
  have "\<exists>us x y vs. rows = us @ x # y # vs \<and> wrong_pair ord c x y \<and> swap_at i rows = us @ y # x # vs"
    using assms
  proof (induction ord c rows arbitrary: i rule: find_switch.induct)
    case (1 ord c r r' rs)
    then obtain a b where ab: "cell_key c r = Some a" "cell_key c r' = Some b"
      by (auto split: option.splits)
    show ?case
    proof (cases "out_of_order ord a b")
      case True
      then have "i = 0" "wrong_pair ord c r r'"
        using 1 ab by (auto simp: wrong_pair_def)
      then have "r # r' # rs = [] @ r # r' # rs \<and> wrong_pair ord c r r' \<and>
          swap_at i (r # r' # rs) = [] @ r' # r # rs" by simp
      then show ?thesis by blast
    next
      case False
      then obtain j where "find_switch ord c (r' # rs) = Inr (Some j)" "i = Suc j"
        using 1(2) ab by (auto simp: js_bind_eq_Inr)
      with "1.IH" [OF refl ab False] obtain us x y vs where
        "r' # rs = us @ x # y # vs" "wrong_pair ord c x y" "swap_at j (r' # rs) = us @ y # x # vs"
        by blast
      then have "r # r' # rs = (r # us) @ x # y # vs \<and> wrong_pair ord c x y \<and>
          swap_at i (r # r' # rs) = (r # us) @ y # x # vs" using \<open>i = Suc j\<close> by simp
      then show ?thesis by blast
    qed
  qed auto
  then show ?thesis using that by blast
qed

lemma wrong_pair_asym: "wrong_pair ord c x y \<Longrightarrow> \<not> wrong_pair ord c y x"
  by (cases ord) (auto simp: wrong_pair_def split: option.splits)

lemma inversion_count_append:
  "inversion_count P (xs @ ys) =
     inversion_count P xs + inversion_count P ys + (\<Sum>x \<leftarrow> xs. length (filter (P x) ys))"
  by (induction xs) auto

lemma inversion_count_exchange:
  assumes "P x y" "\<not> P y x"
  shows "inversion_count P (us @ x # y # vs) = Suc (inversion_count P (us @ y # x # vs))"
proof -
  have "(\<Sum>u \<leftarrow> us. length (filter (P u) (x # y # vs))) = (\<Sum>u \<leftarrow> us. length (filter (P u) (y # x # vs)))"
    by (rule arg_cong [where f = sum_list], rule map_cong) auto
  then show ?thesis using assms by (simp add: inversion_count_append)
qed

lemma find_switch_decreases:
  assumes "find_switch ord c rows = Inr (Some i)"
  shows "inversion_count (wrong_pair ord c) rows =
    Suc (inversion_count (wrong_pair ord c) (swap_at i rows))"
  using assms
  by (elim find_switch_SomeE) (simp add: inversion_count_exchange wrong_pair_asym)

text \<open>
  The \<^verbatim>\<open>while (switching)\<close> loop: the rows as they are left, the exchanges made, and the order
  in force at the end, or the error that stopped it (the exchanges made so far stay).
\<close>

function sort_loop :: "nat \<Rightarrow> sort_order \<Rightarrow> nat \<Rightarrow> string list list \<Rightarrow>
    string list list \<times> nat \<times> (js_error + sort_order)" where
  "sort_loop c order cnt rows =
     (case find_switch order c rows of
        Inl e \<Rightarrow> (rows, cnt, Inl e)
      | Inr (Some i) \<Rightarrow> sort_loop c order (cnt + 1) (swap_at i rows)
      | Inr None \<Rightarrow> (if cnt = 0 \<and> order = ASC then sort_loop c DES cnt rows
                     else (rows, cnt, Inr order)))"
  by pat_completeness auto
termination
  by (relation "measures [\<lambda>(c, order, n, rows). if order = ASC then 1 else 0,
        \<lambda>(c, order, n, rows). inversion_count (wrong_pair order c) rows]")
    (auto simp: find_switch_decreases)

declare sort_loop.simps [simp del]

subsection \<open>What the loop computes\<close>

definition all_cells :: "nat \<Rightarrow> string list list \<Rightarrow> bool" where
  "all_cells c rows \<longleftrightarrow> (\<forall>r \<in> set rows. c < length r)"

definition sort_text :: "nat \<Rightarrow> string list \<Rightarrow> string" where
  "sort_text c r = to_lower (r ! c)"

definition stable_des :: "nat \<Rightarrow> string list list \<Rightarrow> string list list" where
  "stable_des c rows = rev (sort_key (sort_text c) (rev rows))"

lemma cell_key_all: "all_cells c rows \<Longrightarrow> r \<in> set rows \<Longrightarrow> cell_key c r = Some (sort_text c r)"
  by (simp add: all_cells_def cell_key_def sort_text_def)

lemma all_cells_simps [simp]:
  "all_cells c []"
  "all_cells c (r # rows) \<longleftrightarrow> c < length r \<and> all_cells c rows"
  "all_cells c (xs @ ys) \<longleftrightarrow> all_cells c xs \<and> all_cells c ys"
  by (auto simp: all_cells_def)

lemma find_switch_no_error: "all_cells c rows \<Longrightarrow> find_switch ord c rows \<noteq> Inl e"
  by (induction ord c rows rule: find_switch.induct)
    (auto simp: cell_key_def js_bind_def split: sum.splits)

lemma find_switch_None:
  "all_cells c rows \<Longrightarrow> find_switch ASC c rows = Inr None \<longleftrightarrow> sorted (map (sort_text c) rows)"
  by (induction ASC c rows rule: find_switch.induct)
    (auto simp: cell_key_def sort_text_def sorted2 sorted0 sorted1 js_bind_eq_Inr
      simp del: sorted_wrt.simps)

lemma find_switch_None_DES:
  "all_cells c rows \<Longrightarrow>
     find_switch DES c rows = Inr None \<longleftrightarrow> sorted_wrt (\<ge>) (map (sort_text c) rows)"
  by (induction DES c rows rule: find_switch.induct)
    (auto simp: cell_key_def sort_text_def sorted_wrt2 [OF transp_on_ge] sorted_wrt1 js_bind_eq_Inr
      simp del: sorted_wrt.simps(2))

lemma sort_key_exchange:
  assumes "f x \<noteq> f y"
  shows "sort_key f (us @ x # y # vs) = sort_key f (us @ y # x # vs)"
proof -
  have *: "sort_key f xs = foldr (insort_key f) xs []" for xs
    by (simp add: sort_key_def)
  have "insort_key f x (insort_key f y zs) = insort_key f y (insort_key f x zs)" for zs
    using insort_key_left_comm [where f = f and x = y and y = x] assms by metis
  then show ?thesis by (simp add: *)
qed

lemma stable_des_sorted: "sorted_wrt (\<ge>) (map (sort_text c) rows) \<Longrightarrow> stable_des c rows = rows"
proof -
  assume "sorted_wrt (\<ge>) (map (sort_text c) rows)"
  then have "sorted (map (sort_text c) (rev rows))"
    by (simp add: rev_map [symmetric] sorted_wrt_rev)
  then show ?thesis by (simp add: stable_des_def sort_key_id_if_sorted)
qed

lemma wrong_pair_keys:
  "c < length x \<Longrightarrow> c < length y \<Longrightarrow>
     wrong_pair ord c x y \<longleftrightarrow> out_of_order ord (sort_text c x) (sort_text c y)"
  by (simp add: wrong_pair_def cell_key_def sort_text_def)

lemma exchange_step:
  assumes "all_cells c rows" "find_switch ord c rows = Inr (Some i)"
  shows "all_cells c (swap_at i rows)"
    "sort_key (sort_text c) (swap_at i rows) = sort_key (sort_text c) rows"
    "stable_des c (swap_at i rows) = stable_des c rows"
proof -
  from assms(2) obtain us x y vs where d: "rows = us @ x # y # vs" "wrong_pair ord c x y"
    "swap_at i rows = us @ y # x # vs" by (rule find_switch_SomeE)
  have ne: "sort_text c x \<noteq> sort_text c y"
    using d assms(1) by (cases ord) (auto simp: wrong_pair_keys)
  show "all_cells c (swap_at i rows)" using assms(1) d by auto
  show "sort_key (sort_text c) (swap_at i rows) = sort_key (sort_text c) rows"
    unfolding d(1) d(3) [unfolded d(1)] using ne sort_key_exchange by metis
  show "stable_des c (swap_at i rows) = stable_des c rows"
    unfolding stable_des_def d(1) d(3) [unfolded d(1)]
    using sort_key_exchange [where f = "sort_text c" and x = x and y = y and us = "rev vs" and vs = "rev us"] ne
    by simp
qed

lemma sort_loop_DES:
  "all_cells c rows \<Longrightarrow> sort_loop c DES cnt rows =
     (stable_des c rows, cnt + inversion_count (wrong_pair DES c) rows, Inr DES)"
proof (induction c DES cnt rows rule: sort_loop.induct)
  case (1 c cnt rows)
  show ?case
  proof (cases "find_switch DES c rows")
    case (Inl e)
    with find_switch_no_error [OF "1.prems"] show ?thesis by blast
  next
    case (Inr r)
    show ?thesis
    proof (cases r)
      case None
      with Inr have srt: "sorted_wrt (\<ge>) (map (sort_text c) rows)"
        using find_switch_None_DES [OF "1.prems"] by simp
      moreover have "inversion_count (wrong_pair DES c) rows = 0"
        using srt "1.prems"
        by (induction rows) (auto simp: wrong_pair_keys all_cells_def filter_empty_conv not_less)
      ultimately show ?thesis
        using Inr None by (subst sort_loop.simps) (simp add: stable_des_sorted)
    next
      case (Some i)
      with Inr have fs: "find_switch DES c rows = Inr (Some i)" by simp
      show ?thesis
        using "1.hyps"(2) [OF Inr Some] exchange_step [OF "1.prems" fs] find_switch_decreases [OF fs]
        by (subst sort_loop.simps) (simp add: fs)
    qed
  qed
qed

lemma inversions_sorted:
  "all_cells c rows \<Longrightarrow> sorted (map (sort_text c) rows) \<Longrightarrow>
     inversion_count (wrong_pair ASC c) rows = 0"
  by (induction rows) (auto simp: wrong_pair_keys all_cells_def filter_empty_conv not_less)

lemma sort_loop_ASC:
  "all_cells c rows \<Longrightarrow> \<not> (cnt = 0 \<and> sorted (map (sort_text c) rows)) \<Longrightarrow>
     sort_loop c ASC cnt rows =
     (sort_key (sort_text c) rows, cnt + inversion_count (wrong_pair ASC c) rows, Inr ASC)"
proof (induction c ASC cnt rows rule: sort_loop.induct)
  case (1 c cnt rows)
  show ?case
  proof (cases "find_switch ASC c rows")
    case (Inl e)
    with find_switch_no_error [OF "1.prems"(1)] show ?thesis by blast
  next
    case (Inr r)
    show ?thesis
    proof (cases r)
      case None
      with Inr have srt: "sorted (map (sort_text c) rows)"
        using find_switch_None [OF "1.prems"(1)] by simp
      then have "cnt \<noteq> 0" using "1.prems"(2) by simp
      then show ?thesis
        using Inr None srt inversions_sorted [OF "1.prems"(1) srt]
        by (subst sort_loop.simps) (simp add: sort_key_id_if_sorted)
    next
      case (Some i)
      with Inr have fs: "find_switch ASC c rows = Inr (Some i)" by simp
      show ?thesis
        using "1.hyps"(1) [OF Inr Some] exchange_step [OF "1.prems"(1) fs] find_switch_decreases [OF fs]
        by (subst sort_loop.simps) (simp add: fs)
    qed
  qed
qed

lemma sort_loop_first:
  assumes "all_cells c rows"
  shows "sort_loop c ASC 0 rows =
    (if sorted (map (sort_text c) rows)
     then (stable_des c rows, inversion_count (wrong_pair DES c) rows, Inr DES)
     else (sort_key (sort_text c) rows, inversion_count (wrong_pair ASC c) rows, Inr ASC))"
proof (cases "sorted (map (sort_text c) rows)")
  case True
  then have "find_switch ASC c rows = Inr None"
    using find_switch_None [OF assms] by simp
  then have "sort_loop c ASC 0 rows = sort_loop c DES 0 rows"
    by (subst sort_loop.simps) simp
  then show ?thesis using True sort_loop_DES [OF assms, of 0] by simp
next
  case False
  then show ?thesis using sort_loop_ASC [OF assms, of 0] by simp
qed

subsection \<open>A click on a header cell\<close>

definition indicator_html :: "sort_order \<Rightarrow> string" where
  "indicator_html ord =
     (if ord = ASC then ''<i id=\"col_0_sort_up\" class=\"fa fa-sort-up\"></i>''
      else ''<i id=\"col_0_sort_up\" class=\"fa fa-sort-down\"></i>'')"

text \<open>Setting the \<open>innerHTML\<close> of an indicator that does not exist throws.\<close>

definition set_indicator :: "nat \<Rightarrow> string \<Rightarrow> sort_page \<Rightarrow> js_error + sort_page" where
  "set_indicator k h p = (case indicator p k of
     None \<Rightarrow> Inl TypeError
   | Some _ \<Rightarrow> Inr (p\<lparr>indicator := (indicator p)(k \<mapsto> h)\<rparr>))"

definition sortTable :: "nat \<Rightarrow> sort_page \<Rightarrow> sort_page \<times> js_error option" where
  "sortTable sortCol p =
     (case sort_loop sortCol ASC 0 (data_rows p) of
        (rows, cnt, Inl e) \<Rightarrow> (p\<lparr>data_rows := rows\<rparr>, Some e)
      | (rows, cnt, Inr order) \<Rightarrow>
         (let p1 = p\<lparr>data_rows := rows\<rparr> in
          case set_indicator (prevSortCol p1) nbsp p1 of
            Inl e \<Rightarrow> (p1, Some e)
          | Inr p2 \<Rightarrow>
             (case set_indicator sortCol (indicator_html order) p2 of
                Inl e \<Rightarrow> (p2, Some e)
              | Inr p3 \<Rightarrow> (p3\<lparr>prevSortCol := sortCol\<rparr>, None))))"

text \<open>The closures bound by \<open>initTableSort\<close>: a sequence of clicks on columns.\<close>

definition bindSortTableCall :: "nat \<Rightarrow> sort_page \<Rightarrow> sort_page \<times> js_error option" where
  "bindSortTableCall i = sortTable i"

fun clicks :: "nat list \<Rightarrow> sort_page \<Rightarrow> sort_page" where
  "clicks [] p = p"
| "clicks (c # cs) p = clicks cs (fst (bindSortTableCall c p))"

text \<open>
  A page ready for sorting: every data row has a TD for every header column, every column
  has its indicator, and the previous sort column is a column.
\<close>

definition sortable :: "sort_page \<Rightarrow> bool" where
  "sortable p \<longleftrightarrow> (\<forall>r \<in> set (data_rows p). length r = length (header_cells p)) \<and>
     (\<forall>k < length (header_cells p). indicator p k \<noteq> None) \<and>
     prevSortCol p < length (header_cells p)"

lemma sortable_all_cells: "sortable p \<Longrightarrow> c < length (header_cells p) \<Longrightarrow> all_cells c (data_rows p)"
  by (simp add: sortable_def all_cells_def)

definition sorted_rows :: "nat \<Rightarrow> string list list \<Rightarrow> string list list" where
  "sorted_rows c rows = (if sorted (map (sort_text c) rows) then stable_des c rows
     else sort_key (sort_text c) rows)"

definition sort_direction :: "nat \<Rightarrow> string list list \<Rightarrow> sort_order" where
  "sort_direction c rows = (if sorted (map (sort_text c) rows) then DES else ASC)"

lemma sortTable_eq:
  assumes "sortable p" "c < length (header_cells p)"
  shows "sortTable c p = (p\<lparr>data_rows := sorted_rows c (data_rows p),
      indicator := (indicator p)(prevSortCol p \<mapsto> nbsp,
        c \<mapsto> indicator_html (sort_direction c (data_rows p))),
      prevSortCol := c\<rparr>, None)"
proof -
  have "indicator p (prevSortCol p) \<noteq> None" "indicator p c \<noteq> None"
    using assms by (auto simp: sortable_def)
  then show ?thesis
    using sort_loop_first [OF sortable_all_cells [OF assms]]
    by (auto simp: sortTable_def Let_def set_indicator_def sorted_rows_def sort_direction_def)
qed

lemma set_stable_des [simp]: "set (stable_des c rows) = set rows"
  by (simp add: stable_des_def)

lemma set_sorted_rows [simp]: "set (sorted_rows c rows) = set rows"
  by (simp add: sorted_rows_def)

lemma sortable_step:
  assumes "sortable p" "c < length (header_cells p)"
  shows "sortable (fst (sortTable c p))"
  using assms by (simp add: sortTable_eq) (simp add: sortable_def)

lemma sortable_init:
  "(\<forall>r \<in> set (data_rows p). length r = length (header_cells p)) \<Longrightarrow>
     prevSortCol p < length (header_cells p) \<Longrightarrow> sortable (initTableSort p)"
proof -
  have "length (init_header i hs) = length hs" for i hs
    by (induction hs arbitrary: i) auto
  then show "\<forall>r \<in> set (data_rows p). length r = length (header_cells p) \<Longrightarrow>
     prevSortCol p < length (header_cells p) \<Longrightarrow> sortable (initTableSort p)"
    by (simp add: sortable_def initTableSort_def)
qed

subsection \<open>Properties\<close>

lemma stable_filter: "filter (\<lambda>r. sort_text c r = k) (stable_des c rows) =
    filter (\<lambda>r. sort_text c r = k) rows"
  by (simp add: stable_des_def rev_filter [symmetric] sort_key_stable)

lemma stable_des_descending: "sorted_wrt (\<ge>) (map (sort_text c) (stable_des c rows))"
  by (simp add: stable_des_def rev_map [symmetric] sorted_wrt_rev)

lemma sort_key_stable_sym:
  "filter (\<lambda>r. f k = f r) (sort_key f rows) = filter (\<lambda>r. f k = f r) rows"
  using sort_key_stable [of f "f k" rows] by (simp add: eq_commute)

lemma stable_des_sort_key: "stable_des c (sort_key (sort_text c) rows) = stable_des c rows"
proof -
  have "sort_key (sort_text c) (rev (sort_key (sort_text c) rows)) = sort_key (sort_text c) (rev rows)"
    by (rule properties_for_sort_key) (simp_all add: rev_filter [symmetric] sort_key_stable_sym)
  then show ?thesis by (simp add: stable_des_def)
qed

lemma sort_key_stable_des: "sort_key (sort_text c) (stable_des c rows) = sort_key (sort_text c) rows"
proof (rule properties_for_sort_key)
  show "mset (sort_key (sort_text c) rows) = mset (stable_des c rows)"
    by (simp add: stable_des_def)
  show "sorted (map (sort_text c) (sort_key (sort_text c) rows))" by simp
  show "filter (\<lambda>r. sort_text c k = sort_text c r) (sort_key (sort_text c) rows) =
      filter (\<lambda>r. sort_text c k = sort_text c r) (stable_des c rows)" for k
    using stable_filter [of c "sort_text c k" rows] sort_key_stable [of "sort_text c" "sort_text c k" rows]
    by (simp add: eq_commute)
qed

lemma descending_not_sorted:
  assumes "\<not> sorted (map (sort_text c) rows)"
  shows "\<not> sorted (map (sort_text c) (stable_des c rows))"
proof
  assume up: "sorted (map (sort_text c) (stable_des c rows))"
  note down = stable_des_descending [of c rows]
  have eq: "sort_text c x = sort_text c y" if "x \<in> set rows" "y \<in> set rows" for x y
  proof -
    let ?xs = "map (sort_text c) (stable_des c rows)"
    have le: "?xs ! i = ?xs ! j" if "i < j" "j < length ?xs" for i j
    proof (rule antisym)
      show "?xs ! i \<le> ?xs ! j" using up that by (simp only: sorted_iff_nth_mono_less)
      show "?xs ! j \<le> ?xs ! i" using down that by (simp only: sorted_wrt_iff_nth_less)
    qed
    have "\<forall>i < length ?xs. \<forall>j < length ?xs. ?xs ! i = ?xs ! j"
      using le by (metis linorder_neqE_nat)
    moreover have "sort_text c x \<in> set ?xs" "sort_text c y \<in> set ?xs" using that by auto
    ultimately show ?thesis by (metis in_set_conv_nth)
  qed
  have "sorted (map (sort_text c) rows)"
    unfolding sorted_iff_nth_mono
  proof (intro allI impI)
    fix i j
    assume "i \<le> j" and j: "j < length (map (sort_text c) rows)"
    then have "rows ! i \<in> set rows" "rows ! j \<in> set rows" by simp_all
    from eq [OF this] \<open>i \<le> j\<close> j
    show "map (sort_text c) rows ! i \<le> map (sort_text c) rows ! j" by simp
  qed
  with assms show False ..
qed

text \<open>
  C9: A click on a column of a well-formed table sorts without error: the rows become the
  stable sort by the lower-cased cell text, ascending (the library's \<open>sort_key\<close>), or, where
  they were ascending already, the stable descending sort.
\<close>

theorem sortTable_stable_sort:
  assumes "sortable p" "c < length (header_cells p)"
  shows "snd (sortTable c p) = None \<and>
    data_rows (fst (sortTable c p)) =
      (if sorted (map (sort_text c) (data_rows p))
       then rev (sort_key (sort_text c) (rev (data_rows p)))
       else sort_key (sort_text c) (data_rows p))"
  using sortTable_eq [OF assms] by (simp_all add: sorted_rows_def stable_des_def)

definition demo_page :: sort_page where
  "demo_page = initTableSort \<lparr>header_cells = replicate 2 \<lparr>cell_classes = [], cell_html = ''h'', cell_clicks = []\<rparr>,
     data_rows = [[''b'', ''1''], [''A'', ''2''], [''B'', ''0'']], indicator = (\<lambda>_. None), prevSortCol = 0\<rparr>"

lemma demo_page_sortable: "sortable demo_page" "length (header_cells demo_page) = 2"
  unfolding demo_page_def
  by (rule sortable_init) (simp_all add: initTableSort_def eval_nat_numeral)

theorem sortTable_stable_sort_witness:
  "snd (sortTable 0 demo_page) = None \<and>
   data_rows (fst (sortTable 0 demo_page)) = [[''A'', ''2''], [''b'', ''1''], [''B'', ''0'']]"
proof -
  have "0 < length (header_cells demo_page)" by (simp add: demo_page_sortable)
  note r = sortTable_stable_sort [OF demo_page_sortable(1) this]
  have "(if sorted (map (sort_text 0) (data_rows demo_page))
       then rev (sort_key (sort_text 0) (rev (data_rows demo_page)))
       else sort_key (sort_text 0) (data_rows demo_page)) = [[''A'', ''2''], [''b'', ''1''], [''B'', ''0'']]"
    unfolding demo_page_def by code_simp
  then show ?thesis using r by simp
qed

lemma clicks_append: "clicks (cs @ ds) p = clicks ds (clicks cs p)"
  by (induction cs arbitrary: p) auto

lemma clicks_frame:
  "sortable p \<Longrightarrow> \<forall>c \<in> set cs. c < length (header_cells p) \<Longrightarrow>
     sortable (clicks cs p) \<and> header_cells (clicks cs p) = header_cells p"
proof (induction cs arbitrary: p)
  case (Cons c cs)
  then have c: "c < length (header_cells p)" by simp
  have "header_cells (fst (sortTable c p)) = header_cells p"
    by (simp add: sortTable_eq [OF Cons.prems(1) c])
  with Cons sortable_step [OF Cons.prems(1) c] show ?case
    by (simp add: bindSortTableCall_def)
qed simp

text \<open>
  Clicking the same column again and again on rows that were not ascending alternates:
  after an odd number of clicks the rows are the ascending stable sort of the original
  rows, after an even number the descending one; rows with equal keys keep their original
  order throughout.
\<close>

theorem repeated_clicks_toggle:
  assumes "sortable p" "c < length (header_cells p)" "\<not> sorted (map (sort_text c) (data_rows p))"
  shows "data_rows (clicks (replicate (Suc n) c) p) =
    (if even n then sort_key (sort_text c) (data_rows p)
     else rev (sort_key (sort_text c) (rev (data_rows p))))"
proof (induction n)
  case 0
  show ?case using assms by (simp add: bindSortTableCall_def sortTable_eq sorted_rows_def)
next
  case (Suc n)
  define q where "q = clicks (replicate (Suc n) c) p"
  have q: "sortable q" "c < length (header_cells q)"
    unfolding q_def using clicks_frame [OF assms(1), of "replicate (Suc n) c"] assms(2) by auto
  have "replicate (Suc (Suc n)) c = replicate (Suc n) c @ [c]"
    by (simp add: replicate_append_same)
  then have "clicks (replicate (Suc (Suc n)) c) p = fst (sortTable c q)"
    by (simp only: clicks_append clicks.simps bindSortTableCall_def q_def)
  then have "data_rows (clicks (replicate (Suc (Suc n)) c) p) = sorted_rows c (data_rows q)"
    by (simp add: sortTable_eq [OF q] del: replicate_Suc)
  then show ?case
    using Suc descending_not_sorted [OF assms(3)] unfolding q_def [symmetric]
    by (simp add: sorted_rows_def stable_des_sort_key stable_des_def [symmetric]
        sort_key_stable_des del: replicate_Suc)
qed

theorem repeated_clicks_toggle_witness:
  "data_rows (clicks (replicate (Suc 1) 0) demo_page) = [[''b'', ''1''], [''B'', ''0''], [''A'', ''2'']]"
proof -
  have ns: "\<not> sorted (map (sort_text 0) (data_rows demo_page))"
    unfolding demo_page_def by code_simp
  have "0 < length (header_cells demo_page)" by (simp add: demo_page_sortable)
  note r = repeated_clicks_toggle [OF demo_page_sortable(1) this ns, of 1]
  have "rev (sort_key (sort_text 0) (rev (data_rows demo_page))) = [[''b'', ''1''], [''B'', ''0''], [''A'', ''2'']]"
    unfolding demo_page_def by code_simp
  then show ?thesis using r by simp
qed

text \<open>
  After any non-empty sequence of clicks on columns of a freshly initialised table, the
  column clicked last shows the direction icon of its sort, every other column shows the
  blank indicator, and \<open>prevSortCol\<close> names that column.
\<close>

theorem clicks_indicators:
  assumes "sortable p" "\<forall>k < length (header_cells p). indicator p k = Some nbsp"
    and "\<forall>c \<in> set (cs @ [c]). c < length (header_cells p)" "k < length (header_cells p)"
  shows "indicator (clicks (cs @ [c]) p) k =
      Some (if k = c then indicator_html (sort_direction c (data_rows (clicks cs p))) else nbsp)
    \<and> prevSortCol (clicks (cs @ [c]) p) = c"
proof -
  have keep: "sortable (clicks cs p) \<and> header_cells (clicks cs p) = header_cells p"
    using assms by (intro clicks_frame) auto
  have blank: "\<forall>k < length (header_cells p). k \<noteq> prevSortCol (clicks cs p) \<longrightarrow>
      indicator (clicks cs p) k = Some nbsp"
    using assms(3)
  proof (induction cs rule: rev_induct)
    case Nil
    then show ?case using assms(2) by simp
  next
    case (snoc d ds)
    have "sortable (clicks ds p)" "header_cells (clicks ds p) = header_cells p"
      using clicks_frame [OF assms(1), of ds] snoc.prems by auto
    then show ?case
      using snoc by (auto simp: clicks_append bindSortTableCall_def sortTable_eq)
  qed
  show ?thesis
    using keep blank assms(3,4) by (auto simp: clicks_append bindSortTableCall_def sortTable_eq)
qed

theorem clicks_indicators_witness:
  "indicator (clicks ([0] @ [1]) demo_page) 0 =
      Some (if 0 = (1::nat) then indicator_html (sort_direction 1 (data_rows (clicks [0] demo_page))) else nbsp)
    \<and> prevSortCol (clicks ([0] @ [1]) demo_page) = 1"
proof (rule clicks_indicators)
  show "\<forall>k < length (header_cells demo_page). indicator demo_page k = Some nbsp"
    by (simp add: demo_page_def initTableSort_def demo_page_sortable) (simp add: eval_nat_numeral)
qed (simp_all add: demo_page_sortable)

lemma mset_swap_at: "mset (swap_at i xs) = mset xs"
  by (induction i xs rule: swap_at.induct) auto

lemma sort_loop_mset: "mset (fst (sort_loop c ord cnt rows)) = mset rows"
proof (induction c ord cnt rows rule: sort_loop.induct)
  case (1 c order cnt rows)
  show ?case
    using "1.IH" by (subst sort_loop.simps) (auto simp: mset_swap_at split: sum.splits option.splits)
qed

text \<open>
  A sort never loses or invents a row, on any table whatever: also when a missing cell
  or a missing indicator element throws half way, the rows are a permutation of the
  original rows; and a sort that throws leaves \<open>prevSortCol\<close> alone.
\<close>

theorem sortTable_keeps_rows:
  "mset (data_rows (fst (sortTable c p))) = mset (data_rows p) \<and>
   (snd (sortTable c p) = None \<or> prevSortCol (fst (sortTable c p)) = prevSortCol p)"
proof -
  obtain rows n res where l: "sort_loop c ASC 0 (data_rows p) = (rows, n, res)"
    by (cases "sort_loop c ASC 0 (data_rows p)")
  have m: "mset rows = mset (data_rows p)"
    using sort_loop_mset [of c ASC 0 "data_rows p"] l by simp
  show ?thesis
    by (cases res) (auto simp: sortTable_def l m Let_def set_indicator_def split: option.splits)
qed

lemma inversion_count_bound: "2 * inversion_count P xs \<le> length xs * (length xs - 1)"
proof (induction xs)
  case (Cons x xs)
  have "2 * length (filter (P x) xs) \<le> 2 * length xs"
    by simp
  with Cons show ?case by (cases xs) (auto simp: algebra_simps)
qed simp

text \<open>
  The loop makes exactly one exchange for every inversion of the rows in the direction
  it ends in (pairs of rows, not only neighbours, that stand in the wrong order), so at
  most n(n-1)/2 of them.
\<close>

theorem sort_loop_exchanges:
  assumes "all_cells c rows"
  shows "sort_loop c ASC 0 rows = (rows', n, Inr ord) \<Longrightarrow>
    n = inversion_count (wrong_pair ord c) rows \<and> 2 * n \<le> length rows * (length rows - 1)"
  using sort_loop_first [OF assms] inversion_count_bound [of "wrong_pair ord c" rows]
  by (auto split: if_splits)

theorem sort_loop_exchanges_witness:
  "(2::nat) = inversion_count (wrong_pair ASC 0) [[''c''], [''a''], [''b'']] \<and>
   2 * (2::nat) \<le> length [[''c''], [''a''], [''b'']] * (length [[''c''], [''a''], [''b'']] - 1)"
proof (rule sort_loop_exchanges)
  show "all_cells 0 [[''c''], [''a''], [''b'']]" by simp
  have "\<not> sorted (map (sort_text 0) [[''c''], [''a''], [''b'']])" by code_simp
  moreover have "inversion_count (wrong_pair ASC 0) [[''c''], [''a''], [''b'']] = 2" by code_simp
  moreover have "sort_key (sort_text 0) [[''c''], [''a''], [''b'']] = [[''a''], [''b''], [''c'']]" by code_simp
  ultimately show "sort_loop 0 ASC 0 [[''c''], [''a''], [''b'']] = ([[''a''], [''b''], [''c'']], 2, Inr ASC)"
    by (subst sort_loop_first) simp_all
qed

end
