(* ===== verification/Js_Number.thy ===== *)
theory Js_Number
  imports Complex_Main Js_Prelude
begin

text \<open>
  The numbers of the language: IEEE 754 doubles, as exact rationals with round to nearest,
  ties to even, after every operation, plus the two infinities and NaN.  The sign of zero is
  not represented: the modelled sources print and compare numbers, and neither tells the two
  zeros apart; no modelled division has a divisor computed as a negative zero.
\<close>

datatype jsnum = Fin rat | PosInf | NegInf | NaN

subsection \<open>Rounding\<close>

function ilog2 :: "int \<Rightarrow> int" where
  "ilog2 n = (if n < 2 then 0 else ilog2 (n div 2) + 1)"
  by pat_completeness auto
termination
  by (relation "measure nat") auto

declare ilog2.simps [simp del]

function ipow :: "rat \<Rightarrow> int \<Rightarrow> rat" where
  "ipow b k = (if k \<le> 0 then 1 else b * ipow b (k - 1))"
  by pat_completeness auto
termination
  by (relation "measure (\<lambda>(b, k). nat k)") auto

declare ipow.simps [simp del]

lemma ipow_power: "ipow b k = b ^ nat k"
proof (induction b k rule: ipow.induct)
  case (1 b k)
  show ?case
  proof (cases "k \<le> 0")
    case False
    then have "nat k = Suc (nat (k - 1))" by simp
    with False 1 show ?thesis by (simp add: ipow.simps [of b k])
  qed (simp add: ipow.simps)
qed

definition pow2 :: "int \<Rightarrow> rat" where
  "pow2 k = (if 0 \<le> k then ipow 2 k else 1 / ipow 2 (- k))"

definition pow10 :: "int \<Rightarrow> rat" where
  "pow10 k = (if 0 \<le> k then ipow 10 k else 1 / ipow 10 (- k))"

text \<open>The binary exponent of a positive rational: the largest \<open>e\<close> with \<open>2^e \<le> q\<close>.\<close>

definition bin_exp :: "rat \<Rightarrow> int" where
  "bin_exp q = (case quotient_of q of (n, d) \<Rightarrow>
     let e = ilog2 n - ilog2 d in if pow2 e \<le> q then e else e - 1)"

definition round_even :: "rat \<Rightarrow> int" where
  "round_even m = (let f = \<lfloor>m\<rfloor>; r = m - of_int f in
     if r < 1 / 2 then f else if 1 / 2 < r then f + 1 else if even f then f else f + 1)"

definition dbl_pos :: "rat \<Rightarrow> jsnum" where
  "dbl_pos q = (let u = max (bin_exp q - 52) (- 1074); v = of_int (round_even (q / pow2 u)) * pow2 u
     in if bin_exp v < 1024 then Fin v else PosInf)"

fun num_neg :: "jsnum \<Rightarrow> jsnum" where
  "num_neg (Fin q) = Fin (- q)"
| "num_neg PosInf = NegInf"
| "num_neg NegInf = PosInf"
| "num_neg NaN = NaN"

definition dbl :: "rat \<Rightarrow> jsnum" where
  "dbl q = (if q = 0 then Fin 0 else if 0 < q then dbl_pos q else num_neg (dbl_pos (- q)))"

subsection \<open>Arithmetic and comparison\<close>

fun num_add :: "jsnum \<Rightarrow> jsnum \<Rightarrow> jsnum" where
  "num_add (Fin a) (Fin b) = dbl (a + b)"
| "num_add NaN y = NaN"
| "num_add x NaN = NaN"
| "num_add PosInf NegInf = NaN"
| "num_add NegInf PosInf = NaN"
| "num_add PosInf y = PosInf"
| "num_add NegInf y = NegInf"
| "num_add x y = y"

definition num_sub :: "jsnum \<Rightarrow> jsnum \<Rightarrow> jsnum" where
  "num_sub x y = num_add x (num_neg y)"

definition inf_signed :: "bool \<Rightarrow> jsnum" where
  "inf_signed pos = (if pos then PosInf else NegInf)"

fun num_mul :: "jsnum \<Rightarrow> jsnum \<Rightarrow> jsnum" where
  "num_mul (Fin a) (Fin b) = dbl (a * b)"
| "num_mul NaN y = NaN"
| "num_mul x NaN = NaN"
| "num_mul (Fin a) PosInf = (if a = 0 then NaN else inf_signed (0 < a))"
| "num_mul (Fin a) NegInf = (if a = 0 then NaN else inf_signed (a < 0))"
| "num_mul PosInf (Fin b) = (if b = 0 then NaN else inf_signed (0 < b))"
| "num_mul NegInf (Fin b) = (if b = 0 then NaN else inf_signed (b < 0))"
| "num_mul PosInf PosInf = PosInf"
| "num_mul PosInf NegInf = NegInf"
| "num_mul NegInf PosInf = NegInf"
| "num_mul NegInf NegInf = PosInf"

fun num_div :: "jsnum \<Rightarrow> jsnum \<Rightarrow> jsnum" where
  "num_div (Fin a) (Fin b) =
     (if b = 0 then (if a = 0 then NaN else inf_signed (0 < a)) else dbl (a / b))"
| "num_div NaN y = NaN"
| "num_div x NaN = NaN"
| "num_div (Fin a) y = Fin 0"
| "num_div PosInf (Fin b) = inf_signed (0 \<le> b)"
| "num_div NegInf (Fin b) = inf_signed (b < 0)"
| "num_div x y = NaN"

fun num_ceil :: "jsnum \<Rightarrow> jsnum" where
  "num_ceil (Fin q) = Fin (of_int \<lceil>q\<rceil>)"
| "num_ceil x = x"

text \<open>\<open>===\<close> on numbers: NaN is equal to nothing.\<close>

definition num_eq :: "jsnum \<Rightarrow> jsnum \<Rightarrow> bool" where
  "num_eq x y \<longleftrightarrow> x \<noteq> NaN \<and> x = y"

fun num_less :: "jsnum \<Rightarrow> jsnum \<Rightarrow> bool" where
  "num_less (Fin a) (Fin b) = (a < b)"
| "num_less NaN y = False"
| "num_less x NaN = False"
| "num_less PosInf y = False"
| "num_less x NegInf = False"
| "num_less NegInf y = True"
| "num_less x PosInf = True"

subsection \<open>Printing\<close>

text \<open>
  \<open>Number::toString\<close> for a positive finite double \<open>v\<close>: the shortest digit string \<open>s\<close> of \<open>k\<close>
  digits and the exponent \<open>n\<close> such that \<open>s * 10^(n-k)\<close> rounds to \<open>v\<close>.  Seventeen digits
  always suffice for a double, so the search tries \<open>k = 1, ..., 17\<close>.
\<close>

fun scale_down :: "nat \<Rightarrow> rat \<Rightarrow> int \<Rightarrow> int" where
  "scale_down 0 q n = n"
| "scale_down (Suc f) q n = (if q < pow10 (n - 1) then scale_down f q (n - 1) else n)"

definition dec_exp :: "rat \<Rightarrow> int" where
  "dec_exp q = (if 1 \<le> q then int (length (pos_str \<lfloor>q\<rfloor>)) else scale_down 330 q 0)"

definition digits_at :: "rat \<Rightarrow> int \<Rightarrow> int \<Rightarrow> (int \<times> int) option" where
  "digits_at v n k =
     (let x = v / pow10 (n - k); lo = \<lfloor>x\<rfloor>;
          ok = (\<lambda>s. dbl (of_int s * pow10 (n - k)) = Fin v);
          cands = (if x - of_int lo < 1 / 2 \<or> x - of_int lo = 1 / 2 \<and> even lo
                   then [lo, lo + 1] else [lo + 1, lo])
      in case filter ok cands of
           [] \<Rightarrow> None
         | s # _ \<Rightarrow> Some (if of_int s = pow10 k then (s div 10, n + 1) else (s, n)))"

fun shortest :: "nat \<Rightarrow> int \<Rightarrow> rat \<Rightarrow> int \<Rightarrow> int \<times> int \<times> int" where
  "shortest 0 k v n = (\<lfloor>v / pow10 (n - k)\<rfloor>, k, n)"
| "shortest (Suc f) k v n = (case digits_at v n k of
     Some (s, n') \<Rightarrow> (s, k, n') | None \<Rightarrow> shortest f (k + 1) v n)"

definition print_digits :: "int \<Rightarrow> int \<Rightarrow> int \<Rightarrow> string" where
  "print_digits s k n =
     (let ds = int_str s; e = n - 1;
          ex = ''e'' @ (if 0 \<le> e then ''+'' else ''-'') @ int_str \<bar>e\<bar> in
      if k \<le> n \<and> n \<le> 21 then ds @ replicate (nat (n - k)) CHR ''0''
      else if 0 < n \<and> n \<le> 21 then take (nat n) ds @ ''.'' @ drop (nat n) ds
      else if - 6 < n \<and> n \<le> 0 then ''0.'' @ replicate (nat (- n)) CHR ''0'' @ ds
      else if k = 1 then ds @ ex
      else take 1 ds @ ''.'' @ drop 1 ds @ ex)"

definition num_str_pos :: "rat \<Rightarrow> string" where
  "num_str_pos v = (case shortest 17 1 v (dec_exp v) of (s, k, n) \<Rightarrow> print_digits s k n)"

fun num_str :: "jsnum \<Rightarrow> string" where
  "num_str (Fin q) = (if q = 0 then ''0'' else if 0 < q then num_str_pos q
     else CHR ''-'' # num_str_pos (- q))"
| "num_str PosInf = ''Infinity''"
| "num_str NegInf = ''-Infinity''"
| "num_str NaN = ''NaN''"

subsection \<open>Parsing\<close>

text \<open>
  \<open>parseFloat\<close>: skip leading white space, take the longest prefix that is a decimal literal
  (sign, digits with an optional point, optional exponent, or Infinity), NaN if there is
  none; what follows the prefix is ignored.
\<close>

definition is_digit :: "char \<Rightarrow> bool" where
  "is_digit c = (let n = (of_char c :: nat) in 48 \<le> n \<and> n \<le> 57)"

definition digits_int :: "string \<Rightarrow> int" where
  "digits_int s = foldl (\<lambda>a c. a * 10 + (of_char c - 48)) 0 s"

definition exponent_part :: "string \<Rightarrow> int" where
  "exponent_part s = (case s of
       [] \<Rightarrow> 0
     | c # r \<Rightarrow> if c \<noteq> CHR ''e'' \<and> c \<noteq> CHR ''E'' then 0
         else (case r of
              [] \<Rightarrow> 0
            | x # t \<Rightarrow> let ds = takeWhile is_digit (if x = CHR ''+'' \<or> x = CHR ''-'' then t else r)
                in if x = CHR ''-'' then - digits_int ds else digits_int ds))"

definition parse_unsigned :: "string \<Rightarrow> jsnum" where
  "parse_unsigned s =
     (if starts_with ''Infinity'' s then PosInf
      else let ip = takeWhile is_digit s; r1 = dropWhile is_digit s;
               (fp, r2) = (case r1 of
                   c # t \<Rightarrow> if c = CHR ''.'' \<and> (ip \<noteq> [] \<or> takeWhile is_digit t \<noteq> [])
                             then (takeWhile is_digit t, dropWhile is_digit t) else ([], r1)
                 | [] \<Rightarrow> ([], []))
           in if ip = [] \<and> fp = [] then NaN
              else dbl (of_int (digits_int (ip @ fp)) *
                     pow10 (exponent_part r2 - int (length fp))))"

definition parseFloat :: "string \<Rightarrow> jsnum" where
  "parseFloat s = (case trim_left s of
       [] \<Rightarrow> NaN
     | c # r \<Rightarrow> if c = CHR ''-'' then num_neg (parse_unsigned r)
                else if c = CHR ''+'' then parse_unsigned r
                else parse_unsigned (c # r))"

text \<open>
  \<open>Number(s)\<close> on a string: white space around is ignored, the empty string is 0, decimal literals
  (with a sign) and literals of base 16, 8 and 2 (without) have their value, anything else is
  NaN.
\<close>

definition exponent_ok :: "string \<Rightarrow> bool" where
  "exponent_ok s = (case s of
       [] \<Rightarrow> True
     | c # r \<Rightarrow> (c = CHR ''e'' \<or> c = CHR ''E'') \<and> (case r of
           [] \<Rightarrow> False
         | x # t \<Rightarrow> let ds = (if x = CHR ''+'' \<or> x = CHR ''-'' then t else r)
             in ds \<noteq> [] \<and> list_all is_digit ds))"

definition unsigned_literal :: "string \<Rightarrow> bool" where
  "unsigned_literal s \<longleftrightarrow> s = ''Infinity'' \<or>
     (let ip = takeWhile is_digit s; r1 = dropWhile is_digit s;
          (fp, r2) = (case r1 of
              c # t \<Rightarrow> if c = CHR ''.'' then (takeWhile is_digit t, dropWhile is_digit t) else ([], r1)
            | [] \<Rightarrow> ([], []))
      in (ip \<noteq> [] \<or> fp \<noteq> []) \<and> exponent_ok r2)"

definition radix_digit :: "char \<Rightarrow> nat option" where
  "radix_digit c = (let n = (of_char c :: nat) in
     if 48 \<le> n \<and> n \<le> 57 then Some (n - 48)
     else if 97 \<le> n \<and> n \<le> 102 then Some (n - 87)
     else if 65 \<le> n \<and> n \<le> 70 then Some (n - 55) else None)"

definition radix_literal :: "nat \<Rightarrow> string \<Rightarrow> jsnum" where
  "radix_literal b ds = (if ds \<noteq> [] \<and> list_all (\<lambda>c. case radix_digit c of None \<Rightarrow> False | Some d \<Rightarrow> d < b) ds
     then dbl (of_nat (foldl (\<lambda>a c. a * b + the (radix_digit c)) 0 ds)) else NaN)"

definition to_number :: "string \<Rightarrow> jsnum" where
  "to_number s = (case trim s of
     [] \<Rightarrow> Fin 0
   | c # r \<Rightarrow>
      if c = CHR ''-'' \<or> c = CHR ''+'' then
        (if unsigned_literal r then (if c = CHR ''-'' then num_neg (parse_unsigned r) else parse_unsigned r) else NaN)
      else if unsigned_literal (c # r) then parse_unsigned (c # r)
      else if c = CHR ''0'' \<and> r \<noteq> [] \<and> hd r \<in> {CHR ''x'', CHR ''X''} then radix_literal 16 (tl r)
      else if c = CHR ''0'' \<and> r \<noteq> [] \<and> hd r \<in> {CHR ''o'', CHR ''O''} then radix_literal 8 (tl r)
      else if c = CHR ''0'' \<and> r \<noteq> [] \<and> hd r \<in> {CHR ''b'', CHR ''B''} then radix_literal 2 (tl r)
      else NaN)"

subsection \<open>Small integers are exact\<close>

lemma ilog2_less: "0 < k \<Longrightarrow> n < 2 ^ k \<Longrightarrow> ilog2 n < int k"
proof (induction n arbitrary: k rule: ilog2.induct)
  case (1 n)
  show ?case
  proof (cases "n < 2")
    case True
    then show ?thesis using 1 by (simp add: ilog2.simps)
  next
    case False
    have "k \<noteq> 1" using 1 False by auto
    then obtain j where j: "k = Suc j" "0 < j" using 1 by (cases k) auto
    have "n div 2 < 2 ^ j" using 1 j by simp
    with 1 False j have "ilog2 (n div 2) < int j" by simp
    with False j show ?thesis by (simp add: ilog2.simps [of n])
  qed
qed

lemma quotient_of_of_int: "quotient_of (of_int n) = (n, 1)"
  by simp

lemma bin_exp_int: "0 < k \<Longrightarrow> n < 2 ^ k \<Longrightarrow> bin_exp (of_int n) < int k"
proof -
  assume a: "0 < k" "n < 2 ^ k"
  have "ilog2 1 = 0" by (simp add: ilog2.simps)
  then show ?thesis
    using ilog2_less [OF a] by (simp add: bin_exp_def quotient_of_of_int Let_def)
qed

lemma round_even_int [simp]: "round_even (of_int m) = m"
  by (simp add: round_even_def)

lemma pow2_le_0: "u \<le> 0 \<Longrightarrow> pow2 u = 1 / 2 ^ nat (- u)"
  by (cases "u = 0") (simp_all add: pow2_def ipow_power)

lemma dbl_pos_int:
  assumes "0 < n" "n < 2 ^ 53"
  shows "dbl_pos (of_int n) = Fin (of_int n)"
proof -
  let ?u = "max (bin_exp (of_int n) - 52) (- 1074)"
  have b: "bin_exp (of_int n) < 53" using bin_exp_int [of 53 n] assms by simp
  then have u: "?u \<le> 0" by simp
  have q: "(of_int n :: rat) / pow2 ?u = of_int (n * 2 ^ nat (- ?u))"
    using pow2_le_0 [OF u] by simp
  have v: "of_int (round_even ((of_int n :: rat) / pow2 ?u)) * pow2 ?u = of_int n"
    unfolding q round_even_int using pow2_le_0 [OF u] by simp
  show ?thesis
    unfolding dbl_pos_def Let_def v using b by simp
qed

lemma dbl_int: "\<bar>n\<bar> < 2 ^ 53 \<Longrightarrow> dbl (of_int n) = Fin (of_int n)"
  using dbl_pos_int [of n] dbl_pos_int [of "- n"] by (auto simp: dbl_def)

lemma num_add_int: "\<bar>a + b\<bar> < 2 ^ 53 \<Longrightarrow> num_add (Fin (of_int a)) (Fin (of_int b)) = Fin (of_int (a + b))"
  using dbl_int [of "a + b"] by simp

lemma num_sub_int: "\<bar>a - b\<bar> < 2 ^ 53 \<Longrightarrow> num_sub (Fin (of_int a)) (Fin (of_int b)) = Fin (of_int (a - b))"
  using dbl_int [of "a - b"] by (simp add: num_sub_def)

subsection \<open>Reading printed integers\<close>

lemma is_digit_char: "d < 10 \<Longrightarrow> is_digit (digit_char d)"
  by (simp add: is_digit_def Let_def)

lemma nat_str_all_digits: "c \<in> set (nat_str n) \<Longrightarrow> is_digit c"
  using nat_str_digits is_digit_char by blast

lemma digits_int_val: "\<forall>c \<in> set s. is_digit c \<Longrightarrow> digits_int s = int (digits_val s)"
proof (induction s rule: rev_induct)
  case (snoc c s)
  then have "48 \<le> (of_char c :: nat)" by (simp add: is_digit_def Let_def)
  moreover have "(of_char c :: int) = int (of_char c)" by (simp add: of_char_def)
  ultimately show ?case using snoc by (simp add: digits_int_def of_nat_diff)
qed (simp add: digits_int_def)

lemma parse_unsigned_nat:
  assumes "n < 2 ^ 53"
  shows "parse_unsigned (nat_str n) = Fin (of_nat n)"
proof -
  have d: "\<forall>c \<in> set (nat_str n). is_digit c" using nat_str_all_digits by blast
 have tw: "takeWhile is_digit (nat_str n) = nat_str n" "dropWhile is_digit (nat_str n) = []"
    using d by (simp_all add: takeWhile_eq_all_conv dropWhile_eq_Nil_conv)
  obtain c r where c: "nat_str n = c # r" by (cases "nat_str n") auto
  have "is_digit c" using d by (simp add: c)
  moreover have "\<not> is_digit (CHR ''I'')" by (simp add: is_digit_def)
  ultimately have "\<not> starts_with ''Infinity'' (nat_str n)" by (auto simp: c)
  moreover have "digits_int (nat_str n) = int n" using digits_int_val [OF d] by simp
  moreover have "pow10 0 = 1" by (simp add: pow10_def ipow_power)
  moreover have "dbl (of_nat n) = Fin (of_nat n)"
  proof -
    have "\<bar>int n\<bar> < 2 ^ 53" using assms by (metis abs_of_nat of_nat_less_iff of_nat_numeral of_nat_power)
    from dbl_int [OF this] show ?thesis by simp
  qed
  ultimately show ?thesis 
    unfolding parse_unsigned_def Let_def tw by (simp add: exponent_part_def)
qed

lemma parseFloat_int_str:
  assumes "\<bar>i\<bar> < 2 ^ 53"
  shows "parseFloat (int_str i) = Fin (of_int i)"
proof -
  have first: "\<exists>c r. nat_str n = c # r \<and> \<not> is_space c \<and> c \<noteq> CHR ''-'' \<and> c \<noteq> CHR ''+''" for n
  proof -
    obtain c r where c: "nat_str n = c # r" by (cases "nat_str n") auto
    then obtain d where "d < 10" "c = digit_char d" using nat_str_digits [of c n] by auto
    then have "48 \<le> (of_char c :: nat) \<and> (of_char c :: nat) \<le> 57" by simp
    then have "\<not> is_space c \<and> c \<noteq> CHR ''-'' \<and> c \<noteq> CHR ''+''" by (auto simp: is_space_def)
    with c show ?thesis by blast
  qed
  have n: "nat \<bar>i\<bar> < 2 ^ 53"
  proof -
    have "int (nat \<bar>i\<bar>) < int (2 ^ 53)" using assms by simp
    then show ?thesis by (simp only: of_nat_less_iff)
  qed
  show ?thesis
  proof (cases "i < 0")
    case True
    have "parseFloat (int_str i) = num_neg (parse_unsigned (nat_str (nat (- i))))"
      using True by (simp add: parseFloat_def int_str_def pos_str_nat_str trim_left_def is_space_def)
    then show ?thesis using True parse_unsigned_nat n by simp
  next
    case False
    obtain c r where c: "nat_str (nat i) = c # r" "\<not> is_space c" "c \<noteq> CHR ''-''" "c \<noteq> CHR ''+''"
      using first by blast
    have "parseFloat (int_str i) = parse_unsigned (nat_str (nat i))"
      using False c by (simp add: parseFloat_def int_str_def pos_str_nat_str trim_left_def)
    then show ?thesis using False parse_unsigned_nat n by simp
  qed
qed


subsection \<open>Dyadic fractions are exact\<close>

lemma pow2_powi: "pow2 k = 2 powi k"
  by (simp add: pow2_def ipow_power power_int_def power_one_over)

lemma ilog2_nonneg: "0 \<le> ilog2 n"
proof (induction n rule: ilog2.induct)
  case (1 n)
  then show ?case by (cases "n < 2") (simp_all add: ilog2.simps [of n])
qed

lemma ilog2_bounds: "0 < n \<Longrightarrow> 2 ^ nat (ilog2 n) \<le> n \<and> n < 2 ^ nat (ilog2 n + 1)"
proof (induction n rule: ilog2.induct)
  case (1 n)
  show ?case
  proof (cases "n < 2")
    case True
    with 1 show ?thesis by (simp add: ilog2.simps)
  next
    case False
    let ?m = "n div 2"
    have IH: "2 ^ nat (ilog2 ?m) \<le> ?m" "?m < 2 ^ nat (ilog2 ?m + 1)"
      using 1 False by auto
    have e: "ilog2 n = ilog2 ?m + 1" using False by (simp add: ilog2.simps [of n])
    have s: "nat (ilog2 ?m + 1) = Suc (nat (ilog2 ?m))" "nat (ilog2 ?m + 1 + 1) = Suc (nat (ilog2 ?m + 1))"
      using ilog2_nonneg [of ?m] by simp_all
    show ?thesis unfolding e s power_Suc using IH False unfolding s power_Suc by linarith
  qed
qed

lemma ilog2_powi: "0 < n \<Longrightarrow> 2 powi ilog2 n \<le> (of_int n :: rat) \<and> (of_int n :: rat) < 2 powi (ilog2 n + 1)"
proof -
  assume n: "0 < n"
  have "(2::rat) powi ilog2 n = of_int (2 ^ nat (ilog2 n))"
    "(2::rat) powi (ilog2 n + 1) = of_int (2 ^ nat (ilog2 n + 1))"
    using ilog2_nonneg [of n] by (simp_all add: power_int_def)
  then show ?thesis using ilog2_bounds [OF n] by (simp only: of_int_le_iff of_int_less_iff)
qed

lemma bin_exp_le: "0 < q \<Longrightarrow> 2 powi bin_exp q \<le> q"
proof -
  assume q: "0 < q"
  obtain n d where nd: "quotient_of q = (n, d)" by (cases "quotient_of q")
  have d: "0 < d" using nd by (rule quotient_of_denom_pos)
  have qnd: "q = of_int n / of_int d" using nd by (rule quotient_of_div)
  then have n: "0 < n" using q d by (simp add: zero_less_divide_iff)
  let ?e = "ilog2 n - ilog2 d"
  have "2 powi (?e - 1) \<le> q"
  proof -
    have "(2::rat) powi (?e - 1) = 2 powi ilog2 n / 2 powi (ilog2 d + 1)"
      by (simp flip: power_int_diff add: algebra_simps)
    also have "\<dots> \<le> of_int n / of_int d"
      using ilog2_powi [OF n] ilog2_powi [OF d] d n by (intro frac_le) auto
    finally show ?thesis by (simp add: qnd)
  qed
  then show ?thesis
    by (simp add: bin_exp_def nd Let_def pow2_powi)
qed

lemma bin_exp_less: "0 < q \<Longrightarrow> q < 2 powi k \<Longrightarrow> bin_exp q < k"
  using bin_exp_le [of q] power_int_increasing [of k "bin_exp q" "2::rat"] by linarith

lemma dbl_pos_dyadic:
  assumes "0 < n" "n < 2 ^ 53" "k \<le> 1000"
  shows "dbl_pos (of_int n / 2 ^ k) = Fin (of_int n / 2 ^ k)"
proof -
  let ?q = "(of_int n :: rat) / 2 ^ k"
  let ?u = "max (bin_exp ?q - 52) (- 1074)"
  have "(of_int n :: rat) < of_int (2 ^ 53)" using assms(2) by (simp only: of_int_less_iff)
  then have "?q < 2 powi (53 - int k)"
    by (simp add: power_int_diff divide_strict_right_mono)
  then have b: "bin_exp ?q < 53 - int k"
    using assms(1) by (intro bin_exp_less) simp_all
  then have u: "?u \<le> - int k" using assms(3) by simp
  then obtain m where m: "?u = - int k - int m"
    using zle_iff_zadd [of ?u "- int k"] by (metis add_diff_cancel_right')
  have p: "pow2 ?u = 1 / 2 ^ k / 2 ^ m"
    unfolding pow2_powi m by (simp add: power_int_diff power_int_minus field_simps)
  have q: "?q / pow2 ?u = of_int (n * 2 ^ m)"
    unfolding p by simp
  have v: "of_int (round_even (?q / pow2 ?u)) * pow2 ?u = ?q"
    unfolding q round_even_int unfolding p by simp
  show ?thesis
    unfolding dbl_pos_def Let_def v using b by simp
qed

lemma dbl_dyadic:
  assumes "\<bar>n\<bar> < 2 ^ 53" "k \<le> 1000"
  shows "dbl (of_int n / 2 ^ k) = Fin (of_int n / 2 ^ k)"
proof -
  consider "n = 0" | "0 < n" | "n < 0" by linarith
  then show ?thesis
  proof cases
    case 2
    then have "(0::rat) < of_int n / 2 ^ k" by simp
    then show ?thesis using dbl_pos_dyadic [OF 2 _ assms(2)] assms(1) 2 by (simp add: dbl_def)
  next
    case 3
    then have "(of_int n :: rat) / 2 ^ k < 0" by (simp add: divide_neg_pos)
    moreover have "dbl_pos (- (of_int n / 2 ^ k)) = Fin (- (of_int n / 2 ^ k))"
      using dbl_pos_dyadic [of "- n" k] assms 3 by simp
    ultimately show ?thesis by (simp add: dbl_def)
  qed (simp add: dbl_def)
qed

end
