(* ===== verification/Js_Json.thy ===== *)
theory Js_Json
  imports Js_Number
begin

text \<open>
  The values that \<open>JSON.parse\<close> produces, with the operations the sources apply to them:
  property reads, \<open>typeof\<close>, truthiness and conversion to a property key.
\<close>

datatype json =
    JNull
  | JBool bool
  | JNum jsnum
  | JStr string
  | JArr "json list"
  | JObj "(string \<times> json) list"

text \<open>
  Reading a property: of an object, its own property or \<open>undefined\<close> (\<^term>\<open>None\<close>); of null,
  a TypeError; of any other value, \<open>undefined\<close> (the modelled property names are no members
  of the wrapper prototypes or of arrays).
\<close>

fun json_prop :: "string \<Rightarrow> json \<Rightarrow> js_error + json option" where
  "json_prop k JNull = Inl TypeError"
| "json_prop k (JObj ps) = Inr (obj_get ps k)"
| "json_prop k v = Inr None"

fun json_typeof :: "json option \<Rightarrow> string" where
  "json_typeof None = ''undefined''"
| "json_typeof (Some (JBool b)) = ''boolean''"
| "json_typeof (Some (JNum x)) = ''number''"
| "json_typeof (Some (JStr s)) = ''string''"
| "json_typeof (Some v) = ''object''"

text \<open>\<open>ToPropertyKey\<close>: the string a value becomes between the brackets of a property access.\<close>

fun prop_key :: "json \<Rightarrow> string" where
  "prop_key JNull = ''null''"
| "prop_key (JBool b) = (if b then ''true'' else ''false'')"
| "prop_key (JNum x) = num_str x"
| "prop_key (JStr s) = s"
| "prop_key (JArr vs) = js_join '','' (map (\<lambda>v. if v = JNull then [] else prop_key v) vs)"
| "prop_key (JObj ps) = ''[object Object]''"

text \<open>\<open>===\<close> on such values and \<open>undefined\<close>: two arrays or objects that were parsed apart are different.\<close>

fun strict_eq :: "json option \<Rightarrow> json option \<Rightarrow> bool" where
  "strict_eq (Some (JNum x)) (Some (JNum y)) = num_eq x y"
| "strict_eq (Some (JArr xs)) v = False"
| "strict_eq (Some (JObj ps)) v = False"
| "strict_eq v w = (v = w)"

text \<open>\<open>ToNumber\<close> of such a value (of an array or object, through its string).\<close>

definition json_number :: "json option \<Rightarrow> jsnum" where
  "json_number v = (case v of
     None \<Rightarrow> NaN
   | Some JNull \<Rightarrow> Fin 0
   | Some (JBool b) \<Rightarrow> Fin (if b then 1 else 0)
   | Some (JNum x) \<Rightarrow> x
   | Some j \<Rightarrow> to_number (prop_key j))"

text \<open>\<open>JSON.stringify(v, null, gap)\<close> for a gap that is not empty; \<open>ind\<close> is the indentation reached.\<close>

definition hex_digit :: "nat \<Rightarrow> char" where
  "hex_digit n = ''0123456789abcdef'' ! n"

definition json_quote_char :: "char \<Rightarrow> string" where
  "json_quote_char c = (let n = (of_char c :: nat) in
     if n = 34 then [CHR 0x5C, CHR 0x22] else if n = 92 then [CHR 0x5C, CHR 0x5C]
     else if n = 8 then [CHR 0x5C, CHR ''b''] else if n = 9 then [CHR 0x5C, CHR ''t'']
     else if n = 10 then [CHR 0x5C, CHR ''n''] else if n = 12 then [CHR 0x5C, CHR ''f'']
     else if n = 13 then [CHR 0x5C, CHR ''r'']
     else if n < 32 then [CHR 0x5C, CHR ''u'', CHR ''0'', CHR ''0'', hex_digit (n div 16), hex_digit (n mod 16)]
     else [c])"

definition json_quote :: "string \<Rightarrow> string" where
  "json_quote s = [CHR 0x22] @ concat (map json_quote_char s) @ [CHR 0x22]"

fun json_text :: "string \<Rightarrow> string \<Rightarrow> json \<Rightarrow> string" where
  "json_text gap ind JNull = ''null''"
| "json_text gap ind (JBool b) = (if b then ''true'' else ''false'')"
| "json_text gap ind (JNum (Fin x)) = num_str (Fin x)"
| "json_text gap ind (JNum x) = ''null''"
| "json_text gap ind (JStr s) = json_quote s"
| "json_text gap ind (JArr vs) = (if vs = [] then ''[]'' else
     ''['' @ [CHR 0x0A] @ ind @ gap
     @ js_join ('','' @ [CHR 0x0A] @ ind @ gap) (map (json_text gap (ind @ gap)) vs)
     @ [CHR 0x0A] @ ind @ '']'')"
| "json_text gap ind (JObj ps) = (if ps = [] then ''{}'' else
     ''{'' @ [CHR 0x0A] @ ind @ gap
     @ js_join ('','' @ [CHR 0x0A] @ ind @ gap)
         (map (\<lambda>(k, v). json_quote k @ '': '' @ json_text gap (ind @ gap) v) ps)
     @ [CHR 0x0A] @ ind @ ''}'')"

definition stringify :: "json \<Rightarrow> string" where
  "stringify v = json_text '' '' [] v"

lemma json_typeof_undefined [simp]: "json_typeof v = ''undefined'' \<longleftrightarrow> v = None"
  by (cases v rule: json_typeof.cases) auto

end
