(* ===== verification/Web_Socket.thy ===== *)
theory Web_Socket
  imports Js_Json
begin

text \<open>
  \<^verbatim>\<open>web-admin/socket-support.js\<close>: the WebSocket client of the administration pages.  The object
  \<open>ControllerWebSocket\<close> keeps one socket, reopens it from an interval timer, tells listeners
  about its state, and matches JSON-RPC responses to the requests it sent.

  The browser is modelled by its documented interface: a WebSocket object is CONNECTING,
  OPEN or CLOSED; \<open>send\<close> throws while CONNECTING, queues a frame while OPEN and drops it
  when CLOSED; interval timers stay active until cleared.  The page's callbacks are
  parameters that receive and return the whole state and may throw.
\<close>

subsection \<open>The URL of the socket\<close>

definition wsGetUrl :: "string \<Rightarrow> string" where
  "wsGetUrl url =
     (let (p, u) =
        (if substring 0 5 url = ''https'' then (''wss://'', substr_from url 8)
         else (''ws://'', if substring 0 4 url = ''http'' then substr_from url 7 else url))
      in p @ hd (split_on CHR ''/'' u) @ ''/web-admin-socket'')"

text \<open>
  For a page loaded from a host over http or https the socket URL is ws respectively
  wss at that same host and port, whatever the path, with the fixed endpoint.
\<close>

theorem wsGetUrl_same_host:
  assumes "CHR ''/'' \<notin> set host"
  shows "wsGetUrl (''https://'' @ host @ ''/'' @ path) = ''wss://'' @ host @ ''/web-admin-socket'' \<and>
    wsGetUrl (''http://'' @ host @ ''/'' @ path) = ''ws://'' @ host @ ''/web-admin-socket''"
  using assms by (simp add: wsGetUrl_def substring_def substr_from_def js_simps)

theorem wsGetUrl_same_host_witness:
  "wsGetUrl (''https://'' @ ''gw:8443'' @ ''/'' @ ''web-admin/dashboard.html'') =
     ''wss://'' @ ''gw:8443'' @ ''/web-admin-socket'' \<and>
   wsGetUrl (''http://'' @ ''gw:8443'' @ ''/'' @ ''web-admin/dashboard.html'') =
     ''ws://'' @ ''gw:8443'' @ ''/web-admin-socket''"
  by (rule wsGetUrl_same_host) simp

subsection \<open>State\<close>

datatype conn_state = Closed_State | Open_State

datatype ready_state = CONNECTING | OPEN | CLOSED

record request =
  req_jsonrpc :: string
  req_id :: nat
  req_method :: string
  req_params :: "json option"

text \<open>What reaches the wire: a serialised request, or plain text.\<close>

datatype frame = RequestFrame request | TextFrame string

text \<open>
  The fields of the object first, then the browser's part: the state of every WebSocket
  created so far, the frames sent, the active interval timers, the console; last the state
  of the page.
\<close>

record 'pg cws =
  socket :: "nat option"
  conn_state :: conn_state
  interval :: "nat option"
  stateListeners :: "nat list"
  dataListeners :: "nat list"
  outputBinary :: bool
  topics :: json
  reqId :: nat
  pendingRequests :: "(string \<times> request) list"
  sockets :: "(ready_state \<times> bool) list"
  sent :: "(nat \<times> frame) list"
  timers :: "nat list"
  next_timer :: nat
  console :: "string list"
  page :: 'pg

definition ControllerWebSocket :: "'pg \<Rightarrow> 'pg cws" where
  "ControllerWebSocket pg = \<lparr>socket = None, conn_state = Closed_State, interval = None,
     stateListeners = [], dataListeners = [], outputBinary = False, topics = JArr [],
     reqId = 0, pendingRequests = [], sockets = [], sent = [], timers = [], next_timer = 0,
     console = [], page = pg\<rparr>"

text \<open>A callback returns the state it leaves and the error it throws, if any.\<close>

record 'pg handlers =
  state_cb :: "nat \<Rightarrow> conn_state \<Rightarrow> 'pg cws \<Rightarrow> 'pg cws \<times> js_error option"
  data_cb :: "nat \<Rightarrow> json \<Rightarrow> 'pg cws \<Rightarrow> 'pg cws \<times> js_error option"
  inboundRequest :: "json \<Rightarrow> 'pg cws \<Rightarrow> 'pg cws \<times> js_error option"
  inboundResponse :: "json \<Rightarrow> request \<Rightarrow> 'pg cws \<Rightarrow> 'pg cws \<times> js_error option"
  inboundNotification :: "json \<Rightarrow> 'pg cws \<Rightarrow> 'pg cws \<times> js_error option"

subsection \<open>Operations\<close>

definition log_line :: "string \<Rightarrow> 'pg cws \<Rightarrow> 'pg cws" where
  "log_line m s = s\<lparr>console := console s @ [m]\<rparr>"

definition log_error :: "'pg cws \<times> js_error option \<Rightarrow> 'pg cws" where
  "log_error r = (case snd r of None \<Rightarrow> fst r | Some e \<Rightarrow> log_line ''error'' (fst r))"

definition addStateListener :: "nat \<Rightarrow> 'pg cws \<Rightarrow> 'pg cws" where
  "addStateListener cb s = s\<lparr>stateListeners := stateListeners s @ [cb]\<rparr>"

definition addDataListener :: "nat \<Rightarrow> 'pg cws \<Rightarrow> 'pg cws" where
  "addDataListener cb s = s\<lparr>dataListeners := dataListeners s @ [cb]\<rparr>"

text \<open>
  The notification loops read the listener list anew in every iteration, so a listener that
  adds listeners prolongs them: \<^term>\<open>None\<close> is a loop that does not end.
\<close>

partial_function (option) notify_state_from ::
    "'pg handlers \<Rightarrow> nat \<Rightarrow> 'pg cws \<Rightarrow> 'pg cws option" where
  "notify_state_from H i s =
     (if i < length (stateListeners s)
      then notify_state_from H (i + 1) (log_error (state_cb H (stateListeners s ! i) (conn_state s) s))
      else Some s)"

definition notifyStateListeners :: "'pg handlers \<Rightarrow> 'pg cws \<Rightarrow> 'pg cws option" where
  "notifyStateListeners H s = notify_state_from H 0 s"

partial_function (option) notify_data_from ::
    "'pg handlers \<Rightarrow> json \<Rightarrow> nat \<Rightarrow> 'pg cws \<Rightarrow> 'pg cws option" where
  "notify_data_from H data i s =
     (if i < length (dataListeners s)
      then notify_data_from H data (i + 1) (log_error (data_cb H (dataListeners s ! i) data s))
      else Some s)"

definition notifyDataListeners :: "'pg handlers \<Rightarrow> json \<Rightarrow> 'pg cws \<Rightarrow> 'pg cws option" where
  "notifyDataListeners H data s = notify_data_from H data 0 s"

definition setOutputToBinaryArray :: "'pg cws \<Rightarrow> 'pg cws" where
  "setOutputToBinaryArray s = s\<lparr>outputBinary := True\<rparr>"

definition startInterval :: "'pg cws \<Rightarrow> 'pg cws" where
  "startInterval s = (if interval s = None
     then s\<lparr>interval := Some (next_timer s), timers := timers s @ [next_timer s],
            next_timer := next_timer s + 1\<rparr>
     else s)"

definition stopInterval :: "'pg cws \<Rightarrow> 'pg cws" where
  "stopInterval s = (case interval s of
     None \<Rightarrow> s
   | Some t \<Rightarrow> s\<lparr>timers := removeAll t (timers s), interval := None\<rparr>)"

text \<open>\<open>return self.state = "open"\<close>, with a single equals sign.\<close>

definition isOpen :: "'pg cws \<Rightarrow> 'pg cws \<times> bool" where
  "isOpen s = (s\<lparr>conn_state := Open_State\<rparr>, True)"

definition send :: "frame \<Rightarrow> 'pg cws \<Rightarrow> 'pg cws \<times> (js_error + bool)" where
  "send message s = (case socket s of
     None \<Rightarrow> (s, Inr False)
   | Some w \<Rightarrow> (case fst (sockets s ! w) of
         CONNECTING \<Rightarrow> (s, Inl InvalidStateError)
       | OPEN \<Rightarrow> (s\<lparr>sent := sent s @ [(w, message)]\<rparr>, Inr True)
       | CLOSED \<Rightarrow> (s, Inr True)))"

definition sendJsonRequest :: "string \<Rightarrow> json option \<Rightarrow> 'pg cws \<Rightarrow> 'pg cws \<times> (js_error + nat)" where
  "sendJsonRequest method params s =
     (let req = \<lparr>req_jsonrpc = ''2.0'', req_id = reqId s, req_method = method, req_params = params\<rparr>;
          s1 = s\<lparr>reqId := reqId s + 1\<rparr>;
          s2 = s1\<lparr>pendingRequests := obj_set (nat_str (req_id req)) req (pendingRequests s1)\<rparr>
      in case send (RequestFrame req) s2 of
           (s3, Inl e) \<Rightarrow> (s3, Inl e)
         | (s3, Inr _) \<Rightarrow> (s3, Inr (req_id req)))"

definition sendPassword :: "string \<Rightarrow> 'pg cws \<Rightarrow> 'pg cws \<times> (js_error + unit)" where
  "sendPassword password s =
     (case send (TextFrame (''password '' @ password @ [CHR 0x0A])) s of
        (s', Inl e) \<Rightarrow> (s', Inl e)
      | (s', Inr _) \<Rightarrow> (s', Inr ()))"

text \<open>
  \<open>checkOpen\<close>: the constructor of WebSocket may throw (\<open>ok\<close> is false), which is logged.
\<close>

definition checkOpen :: "bool \<Rightarrow> 'pg cws \<Rightarrow> 'pg cws" where
  "checkOpen ok s =
     (if socket s \<noteq> None then s
      else if \<not> ok then log_line ''exception'' s
      else s\<lparr>socket := Some (length (sockets s)),
             sockets := sockets s @ [(CONNECTING, outputBinary s)]\<rparr>)"

definition init :: "'pg handlers \<Rightarrow> bool \<Rightarrow> 'pg cws \<Rightarrow> 'pg cws option" where
  "init H ok s = map_option (checkOpen ok) (notifyStateListeners H s)"

definition onopen :: "'pg handlers \<Rightarrow> 'pg cws \<Rightarrow> 'pg cws option" where
  "onopen H s =
     map_option (\<lambda>s.
         let s1 = log_line ''ws opened: '' s;
             s2 = (if outputBinary s1 then log_line ''ws binary output: '' s1 else s1)
         in if topics s2 \<noteq> JNull then fst (sendJsonRequest ''subscribe'' (Some (topics s2)) s2) else s2)
       (notifyStateListeners H ((stopInterval s)\<lparr>conn_state := Open_State\<rparr>))"

text \<open>
  The test \<open>self.pendingRequests[rpc.id] !== 'undefined'\<close> compares an entry or \<open>undefined\<close>
  with a string, so it always holds: a missing entry goes on to the read of \<open>.request\<close>, which
  throws.  (The response's id is taken to be no name of an \<open>Object.prototype\<close> member.)
\<close>

definition onmessage :: "'pg handlers \<Rightarrow> json option \<Rightarrow> 'pg cws \<Rightarrow> 'pg cws \<times> js_error option" where
  "onmessage H parsed s =
     (case parsed of
        None \<Rightarrow> (s, Some SyntaxError)
      | Some rpc \<Rightarrow>
         (case json_prop ''id'' rpc of
            Inl e \<Rightarrow> (s, Some e)
          | Inr None \<Rightarrow> inboundNotification H rpc s
          | Inr (Some i) \<Rightarrow>
             (case json_prop ''method'' rpc of
                Inl e \<Rightarrow> (s, Some e)
              | Inr (Some m) \<Rightarrow> inboundRequest H rpc s
              | Inr None \<Rightarrow>
                 (case obj_get (pendingRequests s) (prop_key i) of
                    None \<Rightarrow> (s, Some TypeError)
                  | Some req \<Rightarrow>
                     (case inboundResponse H rpc req s of
                        (s', Some e) \<Rightarrow> (s', Some e)
                      | (s', None) \<Rightarrow>
                          (s'\<lparr>pendingRequests := obj_del (prop_key i) (pendingRequests s')\<rparr>, None))))))"

definition onclose :: "'pg handlers \<Rightarrow> 'pg cws \<Rightarrow> 'pg cws option" where
  "onclose H s =
     map_option (\<lambda>s. startInterval (s\<lparr>socket := None\<rparr>))
       (if conn_state s = Open_State
        then notifyStateListeners H ((log_line ''ws closed: '' s)\<lparr>conn_state := Closed_State\<rparr>)
        else Some s)"

text \<open>The default callbacks, which pages override.\<close>

definition unhandled_handlers :: "'pg handlers" where
  "unhandled_handlers = \<lparr>
     state_cb = (\<lambda>cb st s. (s, None)), data_cb = (\<lambda>cb d s. (s, None)),
     inboundRequest = (\<lambda>r s. (log_line ''unhandled inboundRequest'' s, None)),
     inboundResponse = (\<lambda>r q s. (log_line ''unhandled inboundResponse '' s, None)),
     inboundNotification = (\<lambda>r s. (log_line ''unhandled inboundNotification'' s, None))\<rparr>"

subsection \<open>Runs\<close>

text \<open>
  What a page may do to the object while one of its callbacks or event handlers runs: send
  requests, write to the console, change its own part of the state and the topics it
  subscribes to.
\<close>

inductive page_api :: "'pg cws \<Rightarrow> 'pg cws \<Rightarrow> bool" where
  api_nothing: "page_api s s"
| api_request: "page_api s t \<Longrightarrow> page_api s (fst (sendJsonRequest m p t))"
| api_log: "page_api s t \<Longrightarrow> page_api s (log_line m t)"
| api_page: "page_api s t \<Longrightarrow> page_api s (t\<lparr>page := pg\<rparr>)"
| api_topics: "page_api s t \<Longrightarrow> page_api s (t\<lparr>topics := tp\<rparr>)"

lemma page_api_trans: "page_api s t \<Longrightarrow> page_api r s \<Longrightarrow> page_api r t"
  by (induction rule: page_api.induct) (auto intro: page_api.intros)

text \<open>
  The events of the browser and the page.  A WebSocket object opens at most once, receives
  messages while open, and closes at most once (also without having opened); a timer ticks
  while it is active.
\<close>

datatype event = EvInit bool | EvTick nat bool | EvOpened nat | EvMessage nat "json option"
  | EvClosed nat | EvPage | EvListener nat

definition set_ready :: "nat \<Rightarrow> ready_state \<Rightarrow> 'pg cws \<Rightarrow> 'pg cws" where
  "set_ready w r s = s\<lparr>sockets := (sockets s)[w := (r, snd (sockets s ! w))]\<rparr>"

inductive ws_step :: "'pg handlers \<Rightarrow> 'pg cws \<Rightarrow> event \<Rightarrow> 'pg cws \<Rightarrow> bool" for H where
  step_init: "init H ok s = Some s' \<Longrightarrow> ws_step H s (EvInit ok) s'"
| step_tick: "t \<in> set (timers s) \<Longrightarrow> ws_step H s (EvTick t ok) (checkOpen ok s)"
| step_opened: "w < length (sockets s) \<Longrightarrow> fst (sockets s ! w) = CONNECTING \<Longrightarrow>
     onopen H (set_ready w OPEN s) = Some s' \<Longrightarrow> ws_step H s (EvOpened w) s'"
| step_message: "w < length (sockets s) \<Longrightarrow> fst (sockets s ! w) = OPEN \<Longrightarrow>
     onmessage H parsed s = (s', e) \<Longrightarrow> ws_step H s (EvMessage w parsed) s'"
| step_closed: "w < length (sockets s) \<Longrightarrow> fst (sockets s ! w) \<noteq> CLOSED \<Longrightarrow>
     onclose H (set_ready w CLOSED s) = Some s' \<Longrightarrow> ws_step H s (EvClosed w) s'"
| step_page: "page_api s s' \<Longrightarrow> ws_step H s EvPage s'"
| step_listener: "ws_step H s (EvListener cb) (addStateListener cb s)"

inductive_cases ws_step_initE: "ws_step H s (EvInit ok) s'"
inductive_cases ws_step_tickE: "ws_step H s (EvTick t ok) s'"
inductive_cases ws_step_messageE: "ws_step H s (EvMessage w parsed) s'"

inductive ws_reach :: "'pg handlers \<Rightarrow> 'pg cws \<Rightarrow> bool" for H where
  reach_start: "ws_reach H (ControllerWebSocket pg)"
| reach_step: "ws_reach H s \<Longrightarrow> ws_step H s e s' \<Longrightarrow> ws_reach H s'"

inductive ws_run :: "'pg handlers \<Rightarrow> 'pg cws \<Rightarrow> event list \<Rightarrow> 'pg cws \<Rightarrow> bool" for H where
  run_nil: "ws_run H s [] s"
| run_cons: "ws_step H s e t \<Longrightarrow> ws_run H t es u \<Longrightarrow> ws_run H s (e # es) u"

subsection \<open>Invariants\<close>

definition live :: "'pg cws \<Rightarrow> nat \<Rightarrow> bool" where
  "live s w \<longleftrightarrow> w < length (sockets s) \<and> fst (sockets s ! w) \<noteq> CLOSED"

definition conn_inv :: "'pg cws \<Rightarrow> bool" where
  "conn_inv s \<longleftrightarrow>
     (\<forall>w. live s w \<longleftrightarrow> socket s = Some w) \<and>
     (conn_state s = Open_State \<longleftrightarrow> (\<exists>w. socket s = Some w \<and> fst (sockets s ! w) = OPEN)) \<and>
     timers s = (case interval s of None \<Rightarrow> [] | Some t \<Rightarrow> [t]) \<and>
     (sockets s \<noteq> [] \<and> socket s = None \<longrightarrow> interval s \<noteq> None)"

definition sent_ids :: "(nat \<times> frame) list \<Rightarrow> nat list" where
  "sent_ids fs = concat (map (\<lambda>(w, f). case f of RequestFrame r \<Rightarrow> [req_id r] | TextFrame m \<Rightarrow> []) fs)"

definition request_inv :: "'pg cws \<Rightarrow> bool" where
  "request_inv s \<longleftrightarrow>
     distinct (map fst (pendingRequests s)) \<and>
     (\<forall>(k, r) \<in> set (pendingRequests s). k = nat_str (req_id r) \<and> req_id r < reqId s) \<and>
     sorted_wrt (<) (sent_ids (sent s)) \<and> (\<forall>i \<in> set (sent_ids (sent s)). i < reqId s)"

text \<open>The part of the state that sending a request does not touch.\<close>

definition conn_view :: "'pg cws \<Rightarrow> nat option \<times> conn_state \<times> nat option \<times> (ready_state \<times> bool) list
    \<times> nat list \<times> nat list \<times> bool" where
  "conn_view s = (socket s, conn_state s, interval s, sockets s, timers s, stateListeners s, outputBinary s)"

lemma conn_inv_view: "conn_view s = conn_view t \<Longrightarrow> conn_inv s = conn_inv t"
  by (simp add: conn_view_def conn_inv_def live_def)

lemma send_view [simp]: "conn_view (fst (send m s)) = conn_view s"
  by (auto simp: send_def conn_view_def split: option.splits ready_state.splits)

lemma sendJsonRequest_view [simp]: "conn_view (fst (sendJsonRequest m p s)) = conn_view s"
  using send_view by (auto simp: sendJsonRequest_def Let_def conn_view_def send_def
      split: option.splits ready_state.splits)

lemma log_line_view [simp]: "conn_view (log_line m s) = conn_view s"
  by (simp add: log_line_def conn_view_def)

lemma page_api_view: "page_api s t \<Longrightarrow> conn_view t = conn_view s"
  by (induction rule: page_api.induct) (auto simp: conn_view_def [of "_ \<lparr>page := _\<rparr>"] conn_view_def [of "_ \<lparr>topics := _\<rparr>"],
      simp_all add: conn_view_def)

lemma sent_ids_append [simp]: "sent_ids (xs @ [(w, RequestFrame r)]) = sent_ids xs @ [req_id r]"
  by (simp add: sent_ids_def)

lemma request_inv_send:
  assumes "request_inv s"
  shows "request_inv (fst (sendJsonRequest m p s))"
proof -
  let ?r = "\<lparr>req_jsonrpc = ''2.0'', req_id = reqId s, req_method = m, req_params = p\<rparr>"
  have d: "distinct (map fst (obj_set (nat_str (reqId s)) ?r (pendingRequests s)))"
    using assms by (simp add: request_inv_def distinct_update)
  have sub: "set (obj_set (nat_str (reqId s)) ?r (pendingRequests s)) \<subseteq>
      insert (nat_str (reqId s), ?r) (set (pendingRequests s))"
    by (rule set_obj_set)
  show ?thesis
    using assms d sub
    by (auto simp: request_inv_def sendJsonRequest_def send_def Let_def sorted_wrt_append less_Suc_eq
        split: option.splits ready_state.splits)
qed

lemma request_inv_frame:
  "pendingRequests t = pendingRequests s \<Longrightarrow> reqId t = reqId s \<Longrightarrow> sent t = sent s \<Longrightarrow>
     request_inv t = request_inv s"
  by (simp add: request_inv_def)

lemma page_api_request_inv: "page_api s t \<Longrightarrow> request_inv s \<Longrightarrow> request_inv t"
proof (induction rule: page_api.induct)
  case (api_log s t m)
  then show ?case by (simp add: request_inv_def log_line_def)
next
  case (api_page s t pg)
  then show ?case by (simp add: request_inv_def)
next
  case (api_topics s t tp)
  then show ?case by (simp add: request_inv_def)
qed (auto simp: request_inv_send)

lemma page_api_log_error: "page_api s (fst r) \<Longrightarrow> page_api s (log_error r)"
  by (auto simp: log_error_def split: option.splits intro: api_log)

text \<open>Requests are never withdrawn by the page.\<close>

lemma page_api_pending:
  "page_api s t \<Longrightarrow> request_inv s \<Longrightarrow> set (pendingRequests s) \<subseteq> set (pendingRequests t)"
proof (induction rule: page_api.induct)
  case (api_request s t m p)
  have inv: "request_inv t" using api_request page_api_request_inv by blast
  have fresh: "nat_str (reqId t) \<notin> set (obj_keys (pendingRequests t))"
    using inv by (fastforce simp: request_inv_def)
  have "obj_set k v ps = ps @ [(k, v)]" if "k \<notin> set (obj_keys ps)" for k and v :: request and ps
    using that by (induction ps) auto
  with fresh have "set (pendingRequests t) \<subseteq> set (pendingRequests (fst (sendJsonRequest m p t)))"
    by (auto simp: sendJsonRequest_def send_def Let_def split: option.splits ready_state.splits)
  with api_request show ?case by blast
qed (auto simp: log_line_def)

text \<open>The contract between the object and a page: its callbacks only use the page's operations.\<close>

locale page_callbacks =
  fixes H :: "'pg handlers"
  assumes state_cb_api: "page_api s (fst (state_cb H cb st s))"
    and inboundRequest_api: "page_api s (fst (inboundRequest H rpc s))"
    and inboundResponse_api: "page_api s (fst (inboundResponse H rpc req s))"
    and inboundNotification_api: "page_api s (fst (inboundNotification H rpc s))"
begin

lemma notify_state_returns:
  "\<exists>t. notify_state_from H i s = Some t \<and> page_api s t"
proof (induction "length (stateListeners s) - i" arbitrary: i s)
  case 0
  then show ?case by (subst notify_state_from.simps) (auto intro: api_nothing)
next
  case (Suc n)
  let ?u = "log_error (state_cb H (stateListeners s ! i) (conn_state s) s)"
  have u: "page_api s ?u" by (intro page_api_log_error state_cb_api)
  then have "stateListeners ?u = stateListeners s"
    using page_api_view by (fastforce simp: conn_view_def)
  with Suc have "n = length (stateListeners ?u) - (i + 1)" by simp
  from Suc.hyps(1) [OF this] obtain t where
    t: "notify_state_from H (i + 1) ?u = Some t" "page_api ?u t" by blast
  have "i < length (stateListeners s)" using Suc.hyps(2) by simp
  then have "notify_state_from H i s = Some t"
    using t by (subst notify_state_from.simps) simp
  then show ?case using page_api_trans [OF t(2) u] by blast
qed

lemma notify_returns: "\<exists>t. notifyStateListeners H s = Some t \<and> page_api s t"
  by (simp add: notifyStateListeners_def notify_state_returns)

lemma notifyE:
  assumes "notifyStateListeners H s = Some t"
  shows "conn_view t = conn_view s" "request_inv s \<Longrightarrow> request_inv t"
    "request_inv s \<Longrightarrow> set (pendingRequests s) \<subseteq> set (pendingRequests t)"
proof -
  have "page_api s t" using notify_returns [of s] assms by auto
  then show "conn_view t = conn_view s" "request_inv s \<Longrightarrow> request_inv t"
    "request_inv s \<Longrightarrow> set (pendingRequests s) \<subseteq> set (pendingRequests t)"
    by (simp_all add: page_api_view page_api_request_inv page_api_pending)
qed

lemma events_return:
  "\<exists>t. init H ok s = Some t" "\<exists>t. onopen H s = Some t" "\<exists>t. onclose H s = Some t"
  using notify_returns by (auto simp: init_def onopen_def onclose_def)

end

subsection \<open>Every event keeps the invariants\<close>

lemma conn_inv_start: "conn_inv (ControllerWebSocket pg)" "request_inv (ControllerWebSocket pg)"
  by (simp_all add: conn_inv_def request_inv_def ControllerWebSocket_def live_def sent_ids_def)

lemma conn_inv_checkOpen: "conn_inv s \<Longrightarrow> conn_inv (checkOpen ok s)"
proof (cases "socket s = None \<and> ok")
  case True
  assume inv: "conn_inv s"
  have dead: "\<not> live s w" for w using inv True by (simp add: conn_inv_def)
  have "live (checkOpen ok s) w \<longleftrightarrow> w = length (sockets s)" for w
    using dead [of w] True by (auto simp: checkOpen_def live_def nth_append)
  then show ?thesis
    using inv True by (auto simp: conn_inv_def checkOpen_def nth_append)
qed (auto simp: checkOpen_def conn_inv_view [of "log_line _ s" s])

lemma request_inv_checkOpen: "request_inv s \<Longrightarrow> request_inv (checkOpen ok s)"
  by (simp add: checkOpen_def log_line_def request_inv_def)

lemma live_set_ready:
  "live (set_ready w r s) v \<longleftrightarrow> (if v = w then w < length (sockets s) \<and> r \<noteq> CLOSED else live s v)"
  by (auto simp: live_def set_ready_def)

lemma conn_inv_opened:
  assumes "conn_inv s" "w < length (sockets s)" "fst (sockets s ! w) = CONNECTING"
  shows "conn_inv ((stopInterval (set_ready w OPEN s))\<lparr>conn_state := Open_State\<rparr>)"
proof -
  define u where "u = (stopInterval (set_ready w OPEN s))\<lparr>conn_state := Open_State\<rparr>"
  have lw: "live s v \<longleftrightarrow> socket s = Some v" for v using assms(1) by (simp add: conn_inv_def)
  have w: "socket s = Some w" using lw [of w] assms(2,3) by (simp add: live_def)
  have u: "sockets u = sockets (set_ready w OPEN s)" "socket u = Some w" "conn_state u = Open_State"
    "interval u = None" "timers u = []"
    using assms(1) w
    by (auto simp: u_def stopInterval_def set_ready_def conn_inv_def split: option.splits)
  have "live u v = live (set_ready w OPEN s) v" for v by (simp add: live_def u(1))
  then have "live u v \<longleftrightarrow> v = w" for v using lw [of v] w assms(2) by (auto simp: live_set_ready)
  moreover have "fst (sockets u ! w) = OPEN" using assms(2) by (simp add: u(1) set_ready_def)
  ultimately have "conn_inv u" by (auto simp: conn_inv_def u)
  then show ?thesis by (simp add: u_def)
qed

lemma onopen_view:
  assumes "onopen H s = Some t"
  obtains r where "notifyStateListeners H ((stopInterval s)\<lparr>conn_state := Open_State\<rparr>) = Some r"
    "conn_view t = conn_view r"
proof -
  obtain r where r: "notifyStateListeners H ((stopInterval s)\<lparr>conn_state := Open_State\<rparr>) = Some r"
    using assms by (auto simp: onopen_def)
  have "conn_view t = conn_view r"
    using assms unfolding onopen_def r by (auto simp: Let_def)
  with r that show ?thesis by blast
qed

lemma onclose_view:
  assumes "onclose H s = Some t"
  obtains r where "t = startInterval (r\<lparr>socket := None\<rparr>)"
    "if conn_state s = Open_State
     then notifyStateListeners H ((log_line ''ws closed: '' s)\<lparr>conn_state := Closed_State\<rparr>) = Some r
     else r = s"
  using assms that by (auto simp: onclose_def split: if_splits)

lemma conn_inv_closed:
  assumes "conn_inv s" "w < length (sockets s)" "fst (sockets s ! w) \<noteq> CLOSED"
    and t: "conn_view t = conn_view ((set_ready w CLOSED s)\<lparr>conn_state := Closed_State\<rparr>)"
  shows "conn_inv (startInterval (t\<lparr>socket := None\<rparr>))"
proof -
  have w: "socket s = Some w" using assms by (auto simp: conn_inv_def live_def)
  have tv: "sockets t = sockets (set_ready w CLOSED s)" "conn_state t = Closed_State"
    "interval t = interval s" "timers t = timers s"
    using t by (simp_all add: conn_view_def) (simp_all add: set_ready_def)
  have "\<not> live (set_ready w CLOSED s) v" for v
    using assms(1) w by (auto simp: live_set_ready conn_inv_def)
  then have dead: "\<not> live (startInterval (t\<lparr>socket := None\<rparr>)) v" for v
    using tv(1) by (simp add: live_def startInterval_def)
  show ?thesis
    using assms(1) tv dead
    by (auto simp: conn_inv_def startInterval_def split: option.splits)
qed

context page_callbacks
begin

lemma onmessage_cases:
  assumes "onmessage H parsed s = (s', e)"
  shows "page_api s s' \<or> (\<exists>t k. page_api s t \<and> s' = t\<lparr>pendingRequests := obj_del k (pendingRequests t)\<rparr>)"
proof -
  have cb: "inboundRequest H rpc s = (t, x) \<Longrightarrow> page_api s t"
    "inboundNotification H rpc s = (t, x) \<Longrightarrow> page_api s t"
    "inboundResponse H rpc req s = (t, x) \<Longrightarrow> page_api s t" for rpc req t x
    using inboundRequest_api [of s rpc] inboundNotification_api [of s rpc]
      inboundResponse_api [of s rpc req] by simp_all
  show ?thesis
    using assms unfolding onmessage_def
    by (auto split: option.splits sum.splits prod.splits intro: api_nothing dest: cb)
qed

lemma onmessage_view: "onmessage H parsed s = (s', e) \<Longrightarrow> conn_view s' = conn_view s"
  by (drule onmessage_cases) (auto dest!: page_api_view simp: conn_view_def)

lemma step_conn_inv:
  assumes "ws_step H s e s'" "conn_inv s"
  shows "conn_inv s'"
  using assms
proof cases
  case (step_init ok)
  then obtain t where t: "notifyStateListeners H s = Some t" "s' = checkOpen ok t"
    by (auto simp: init_def)
  then show ?thesis
    using notifyE(1) [OF t(1)] assms(2) conn_inv_view conn_inv_checkOpen by metis
next
  case (step_tick t ok)
  then show ?thesis using assms(2) conn_inv_checkOpen by simp
next
  case (step_opened w)
  obtain t where n: "notifyStateListeners H
        ((stopInterval (set_ready w OPEN s))\<lparr>conn_state := Open_State\<rparr>) = Some t"
    and "conn_view s' = conn_view t"
    by (rule onopen_view [OF step_opened(4)])
  then show ?thesis
    using notifyE(1) [OF n] conn_inv_opened [OF assms(2) step_opened(2,3)] conn_inv_view by metis
next
  case (step_message w parsed e')
  show ?thesis
    using onmessage_view [OF step_message(4)] assms(2) conn_inv_view by metis
next
  case (step_closed w)
  let ?s = "set_ready w CLOSED s"
  obtain t where t: "s' = startInterval (t\<lparr>socket := None\<rparr>)" and
    n: "if conn_state ?s = Open_State
      then notifyStateListeners H ((log_line ''ws closed: '' ?s)\<lparr>conn_state := Closed_State\<rparr>) = Some t
      else t = ?s"
    by (rule onclose_view [OF step_closed(4)])
  have "conn_view t = conn_view (?s\<lparr>conn_state := Closed_State\<rparr>)"
  proof (cases "conn_state ?s")
    case Open_State
    then show ?thesis using n notifyE(1) by (fastforce simp: conn_view_def log_line_def)
  next
    case Closed_State
    then show ?thesis using n by (simp add: conn_view_def)
  qed
  then show ?thesis
    unfolding t by (rule conn_inv_closed [OF assms(2) step_closed(2,3)])
next
  case step_page
  then show ?thesis using assms(2) page_api_view conn_inv_view by metis
next
  case (step_listener cb)
  then show ?thesis using assms(2) by (simp add: addStateListener_def conn_inv_def live_def)
qed

end

lemma request_inv_del: "request_inv s \<Longrightarrow> request_inv (s\<lparr>pendingRequests := obj_del k (pendingRequests s)\<rparr>)"
  using set_obj_del [of k "pendingRequests s"]
  by (auto simp: request_inv_def distinct_delete)

lemma request_inv_simple [simp]:
  "request_inv (set_ready w r s) = request_inv s"
  "request_inv (s\<lparr>conn_state := c\<rparr>) = request_inv s"
  "request_inv (stopInterval s) = request_inv s"
  "request_inv (startInterval s) = request_inv s"
  "request_inv (s\<lparr>socket := v\<rparr>) = request_inv s"
  "request_inv (log_line m s) = request_inv s"
  "request_inv (addStateListener cb s) = request_inv s"
  by (auto simp: request_inv_def set_ready_def stopInterval_def startInterval_def log_line_def
      addStateListener_def split: option.splits)

lemma pending_simple [simp]:
  "pendingRequests (set_ready w r s) = pendingRequests s"
  "pendingRequests (stopInterval s) = pendingRequests s"
  "pendingRequests (startInterval s) = pendingRequests s"
  "pendingRequests (log_line m s) = pendingRequests s"
  "pendingRequests (addStateListener cb s) = pendingRequests s"
  "pendingRequests (checkOpen ok s) = pendingRequests s"
  by (auto simp: set_ready_def stopInterval_def startInterval_def log_line_def addStateListener_def
      checkOpen_def split: option.splits)

lemma sendJsonRequest_pending:
  "request_inv s \<Longrightarrow> set (pendingRequests s) \<subseteq> set (pendingRequests (fst (sendJsonRequest m p s)))"
  by (rule page_api_pending [OF api_request [OF api_nothing]])

context page_callbacks
begin

lemma onopen_requests:
  assumes "onopen H s = Some t" "request_inv s"
  shows "request_inv t \<and> set (pendingRequests s) \<subseteq> set (pendingRequests t)"
proof -
  obtain r where r: "notifyStateListeners H ((stopInterval s)\<lparr>conn_state := Open_State\<rparr>) = Some r"
    using assms by (auto simp: onopen_def)
  have inv: "request_inv r" "set (pendingRequests s) \<subseteq> set (pendingRequests r)"
    using notifyE(2,3) [OF r] assms(2) by simp_all
  define u where "u = (let s1 = log_line ''ws opened: '' r
       in if outputBinary s1 then log_line ''ws binary output: '' s1 else s1)"
  have t: "t = u \<or> t = fst (sendJsonRequest ''subscribe'' (Some (topics u)) u)"
    using assms(1) unfolding onopen_def r u_def Let_def by (simp split: if_splits)
  have u: "request_inv u" "pendingRequests u = pendingRequests r"
    using inv by (auto simp: u_def Let_def)
  show ?thesis
    using t inv u request_inv_send [OF u(1)] sendJsonRequest_pending [OF u(1)] by fastforce
qed

lemma onclose_requests:
  assumes "onclose H s = Some t" "request_inv s"
  shows "request_inv t \<and> set (pendingRequests s) \<subseteq> set (pendingRequests t)"
proof -
  obtain r where t: "t = startInterval (r\<lparr>socket := None\<rparr>)" and
    n: "if conn_state s = Open_State
     then notifyStateListeners H ((log_line ''ws closed: '' s)\<lparr>conn_state := Closed_State\<rparr>) = Some r
     else r = s"
    by (rule onclose_view [OF assms(1)])
  have "request_inv r \<and> set (pendingRequests s) \<subseteq> set (pendingRequests r)"
  proof (cases "conn_state s = Open_State")
    case True
    then have "notifyStateListeners H ((log_line ''ws closed: '' s)\<lparr>conn_state := Closed_State\<rparr>) = Some r"
      using n by simp
    from notifyE(2,3) [OF this] assms(2) show ?thesis by simp
  qed (use n assms(2) in simp)
  then show ?thesis by (simp add: t)
qed

lemma init_requests:
  assumes "init H ok s = Some t" "request_inv s"
  shows "request_inv t \<and> set (pendingRequests s) \<subseteq> set (pendingRequests t)"
proof -
  obtain r where r: "notifyStateListeners H s = Some r" "t = checkOpen ok r"
    using assms(1) by (auto simp: init_def)
  then show ?thesis
    using notifyE(2,3) [OF r(1)] assms(2) request_inv_checkOpen by auto
qed

lemma step_request_inv:
  assumes "ws_step H s e s'" "request_inv s"
  shows "request_inv s'"
  using assms
proof cases
  case (step_message w parsed e')
  from onmessage_cases [OF this(4)] assms(2) show ?thesis
    using page_api_request_inv request_inv_del by blast
qed (use init_requests onopen_requests onclose_requests request_inv_checkOpen page_api_request_inv
    in \<open>auto\<close>)

lemma step_pending:
  assumes "ws_step H s e s'" "request_inv s" "\<And>w m. e \<noteq> EvMessage w m"
  shows "set (pendingRequests s) \<subseteq> set (pendingRequests s')"
  using assms
proof cases
  case (step_opened w)
  with onopen_requests [of "set_ready w OPEN s"] assms(2) show ?thesis by simp
next
  case (step_closed w)
  with onclose_requests [of "set_ready w CLOSED s"] assms(2) show ?thesis by simp
next
  case step_page
  with page_api_pending assms(2) show ?thesis by blast
qed (use init_requests in auto)

lemma reach_inv: "ws_reach H s \<Longrightarrow> conn_inv s \<and> request_inv s"
  by (induction rule: ws_reach.induct) (auto simp: conn_inv_start intro: step_conn_inv step_request_inv)

end

text \<open>Requests only ever enter the table under a fresh id.\<close>

definition fresh_only :: "'pg cws \<Rightarrow> 'pg cws \<Rightarrow> bool" where
  "fresh_only s t \<longleftrightarrow> reqId s \<le> reqId t \<and>
     (\<forall>k \<in> set (obj_keys (pendingRequests t)).
        k \<in> set (obj_keys (pendingRequests s)) \<or> (\<exists>n \<ge> reqId s. k = nat_str n))"

lemma fresh_only_refl: "fresh_only s s"
  by (simp add: fresh_only_def)

lemma fresh_only_trans: "fresh_only r s \<Longrightarrow> fresh_only s t \<Longrightarrow> fresh_only r t"
  unfolding fresh_only_def by (meson order_trans)

lemma keys_obj_set: "(a, b) \<in> set (obj_set k v ps) \<Longrightarrow> a = k \<or> a \<in> fst ` set ps"
  using set_obj_set [of k v ps] by force

lemma fresh_only_send: "fresh_only s (fst (sendJsonRequest m p s))"
proof -
  have r: "reqId (fst (sendJsonRequest m p s)) = reqId s + 1" and
    k: "fst ` set (pendingRequests (fst (sendJsonRequest m p s))) \<subseteq>
      insert (nat_str (reqId s)) (fst ` set (pendingRequests s))"
    by (auto simp: sendJsonRequest_def send_def Let_def dest: keys_obj_set
      split: option.splits ready_state.splits)
  show ?thesis using k by (auto simp: fresh_only_def r)
qed

lemma fresh_only_frame:
  "reqId t = reqId s \<Longrightarrow> set (obj_keys (pendingRequests t)) \<subseteq> set (obj_keys (pendingRequests s)) \<Longrightarrow>
     fresh_only s t"
  by (auto simp: fresh_only_def)

lemma page_api_fresh: "page_api s t \<Longrightarrow> fresh_only s t"
proof (induction rule: page_api.induct)
  case (api_request s t m p)
  with fresh_only_send [of t m p] fresh_only_trans show ?case by blast
qed (auto intro: fresh_only_refl intro: fresh_only_trans [OF _ fresh_only_frame] simp: log_line_def)

lemma fresh_only_simple:
  "fresh_only s (set_ready w r s)" "fresh_only s (s\<lparr>conn_state := c\<rparr>)"
  "fresh_only s (stopInterval s)" "fresh_only s (startInterval s)"
  "fresh_only s (s\<lparr>socket := v\<rparr>)" "fresh_only s (log_line m s)"
  "fresh_only s (addStateListener cb s)" "fresh_only s (checkOpen ok s)"
  by (auto intro!: fresh_only_frame simp: set_ready_def stopInterval_def startInterval_def log_line_def
      addStateListener_def checkOpen_def split: option.splits)

lemma fresh_only_del: "fresh_only s (s\<lparr>pendingRequests := obj_del k (pendingRequests s)\<rparr>)"
  by (rule fresh_only_frame) (simp_all add: dom_delete_subset)


context page_callbacks
begin

lemma notify_fresh: "notifyStateListeners H s = Some t \<Longrightarrow> fresh_only s t"
  using notify_returns [of s] page_api_fresh by auto

lemma onopen_fresh:
  assumes "onopen H s = Some t"
  shows "fresh_only s t"
proof -
  obtain r where r: "notifyStateListeners H ((stopInterval s)\<lparr>conn_state := Open_State\<rparr>) = Some r"
    using assms by (auto simp: onopen_def)
  define u where "u = (let s1 = log_line ''ws opened: '' r
       in if outputBinary s1 then log_line ''ws binary output: '' s1 else s1)"
  have "fresh_only r u" unfolding u_def Let_def
    by (simp add: fresh_only_simple(6) fresh_only_trans [OF fresh_only_simple(6) fresh_only_simple(6)])
  then have "fresh_only s u"
    using notify_fresh [OF r] fresh_only_simple(2,3) fresh_only_trans by metis
  moreover have "t = u \<or> t = fst (sendJsonRequest ''subscribe'' (Some (topics u)) u)"
    using assms unfolding onopen_def r u_def Let_def by (simp split: if_splits)
  ultimately show ?thesis using fresh_only_send fresh_only_trans by blast
qed

lemma onclose_fresh:
  assumes "onclose H s = Some t"
  shows "fresh_only s t"
proof -
  obtain r where t: "t = startInterval (r\<lparr>socket := None\<rparr>)" and
    n: "if conn_state s = Open_State
     then notifyStateListeners H ((log_line ''ws closed: '' s)\<lparr>conn_state := Closed_State\<rparr>) = Some r
     else r = s"
    by (rule onclose_view [OF assms(1)])
  have "fresh_only s r"
  proof (cases "conn_state s = Open_State")
    case True
    then have "fresh_only ((log_line ''ws closed: '' s)\<lparr>conn_state := Closed_State\<rparr>) r"
      using n notify_fresh by simp
    then show ?thesis
      by (rule fresh_only_trans [OF fresh_only_trans [OF fresh_only_simple(6) fresh_only_simple(2)]])
  qed (use n fresh_only_refl in simp)
  then show ?thesis unfolding t using fresh_only_simple(4,5) fresh_only_trans by blast
qed

lemma step_fresh:
  assumes "ws_step H s e s'"
  shows "fresh_only s s'"
  using assms
proof cases
  case (step_init ok)
  then obtain r where "notifyStateListeners H s = Some r" "s' = checkOpen ok r"
    by (auto simp: init_def)
  then show ?thesis
    using fresh_only_trans [OF notify_fresh fresh_only_simple(8)] by blast
next
  case (step_tick t ok)
  then show ?thesis using fresh_only_simple(8) by simp
next
  case (step_opened w)
  then show ?thesis using onopen_fresh fresh_only_simple(1) fresh_only_trans by blast
next
  case (step_message w parsed e')
  from onmessage_cases [OF this(4)] show ?thesis
    using page_api_fresh fresh_only_del fresh_only_trans by blast
next
  case (step_closed w)
  then show ?thesis using onclose_fresh fresh_only_simple(1) fresh_only_trans by blast
next
  case step_page
  with page_api_fresh [of s s'] show ?thesis by blast
next
  case (step_listener cb)
  then show ?thesis using fresh_only_simple(7) by simp
qed

lemma run_fresh: "ws_run H s es t \<Longrightarrow> fresh_only s t"
  by (induction rule: ws_run.induct) (auto intro: fresh_only_refl fresh_only_trans step_fresh)

end

interpretation unhandled: page_callbacks unhandled_handlers
  by unfold_locales (simp_all add: unhandled_handlers_def api_nothing api_log)

subsection \<open>Properties\<close>

text \<open>
  C1: In every reachable state, for any page that only uses the object's operations: the
  WebSocket objects that are not closed are exactly the one in \<open>socket\<close> (so there is at most
  one); the state is "open" exactly while that one is open; at most one interval timer is
  active, the one in \<open>interval\<close>.
\<close>

theorem reachable_single_socket:
  assumes "page_callbacks H" "ws_reach H s"
  shows "(\<forall>w. live s w \<longleftrightarrow> socket s = Some w) \<and>
    (conn_state s = Open_State \<longleftrightarrow> (\<exists>w. socket s = Some w \<and> fst (sockets s ! w) = OPEN)) \<and>
    timers s = (case interval s of None \<Rightarrow> [] | Some t \<Rightarrow> [t])"
  using page_callbacks.reach_inv [OF assms] by (simp add: conn_inv_def)

definition demo_cws :: "unit cws" where
  "demo_cws = checkOpen True (ControllerWebSocket ())"

lemma demo_reach: "ws_reach unhandled_handlers demo_cws"
proof -
  have "init unhandled_handlers True (ControllerWebSocket ()) = Some demo_cws"
    by (simp add: init_def notifyStateListeners_def notify_state_from.simps ControllerWebSocket_def
        demo_cws_def)
  then show ?thesis by (rule reach_step [OF reach_start step_init])
qed

theorem reachable_single_socket_witness:
  "(\<forall>w. live demo_cws w \<longleftrightarrow> socket demo_cws = Some w) \<and>
    (conn_state demo_cws = Open_State \<longleftrightarrow>
      (\<exists>w. socket demo_cws = Some w \<and> fst (sockets demo_cws ! w) = OPEN)) \<and>
    timers demo_cws = (case interval demo_cws of None \<Rightarrow> [] | Some t \<Rightarrow> [t])"
  by (rule reachable_single_socket [OF unhandled.page_callbacks_axioms demo_reach])

text \<open>
  C3: In every reachable state each pending request is filed under its own id, ids never
  repeat: the ids of the requests put on the wire are strictly increasing and below the
  counter, so a response can only be matched with the request it answers.
\<close>

theorem reachable_request_ids:
  assumes "page_callbacks H" "ws_reach H s"
  shows "sorted_wrt (<) (sent_ids (sent s)) \<and> (\<forall>i \<in> set (sent_ids (sent s)). i < reqId s) \<and>
    (\<forall>k r. obj_get (pendingRequests s) k = Some r \<longrightarrow> k = nat_str (req_id r) \<and> req_id r < reqId s)"
  using page_callbacks.reach_inv [OF assms]
  by (auto simp: request_inv_def dest!: map_of_SomeD)

text \<open>
  C4: Reconnection never stops: in every reachable state in which a socket was created
  before and none is held now, an interval timer is active, and its next tick (with a
  constructor that does not throw) puts a fresh connecting socket in place.
\<close>

theorem reconnect_scheduled:
  assumes "page_callbacks H" "ws_reach H s" "sockets s \<noteq> []" "socket s = None"
  shows "\<exists>t s'. t \<in> set (timers s) \<and> ws_step H s (EvTick t True) s' \<and>
    socket s' = Some (length (sockets s)) \<and> sockets s' = sockets s @ [(CONNECTING, outputBinary s)]"
proof -
  obtain t where "t \<in> set (timers s)"
    using page_callbacks.reach_inv [OF assms(1,2)] assms(3,4) by (auto simp: conn_inv_def)
  then show ?thesis
    using step_tick [of t s H True] assms(4) by (fastforce simp: checkOpen_def)
qed

definition demo_lost :: "unit cws" where
  "demo_lost = startInterval ((set_ready 0 CLOSED demo_cws)\<lparr>socket := None\<rparr>)"

lemma demo_lost_reach: "ws_reach unhandled_handlers demo_lost"
proof -
  have "onclose unhandled_handlers (set_ready 0 CLOSED demo_cws) = Some demo_lost"
    by (simp add: onclose_def demo_lost_def demo_cws_def checkOpen_def ControllerWebSocket_def
        set_ready_def)
  then have "ws_step unhandled_handlers demo_cws (EvClosed 0) demo_lost"
    by (intro step_closed) (simp_all add: demo_cws_def checkOpen_def ControllerWebSocket_def)
  then show ?thesis by (rule reach_step [OF demo_reach])
qed

theorem reconnect_scheduled_witness:
  "\<exists>t s'. t \<in> set (timers demo_lost) \<and> ws_step unhandled_handlers demo_lost (EvTick t True) s' \<and>
    socket s' = Some (length (sockets demo_lost)) \<and>
    sockets s' = sockets demo_lost @ [(CONNECTING, outputBinary demo_lost)]"
  by (rule reconnect_scheduled [OF unhandled.page_callbacks_axioms demo_lost_reach])
    (simp_all add: demo_lost_def demo_cws_def checkOpen_def ControllerWebSocket_def set_ready_def
      startInterval_def)






definition demo_sent :: "unit cws" where
  "demo_sent = the (onopen unhandled_handlers (set_ready 0 OPEN demo_cws))"


lemma demo_sent_eq:
  "onopen unhandled_handlers (set_ready 0 OPEN demo_cws) = Some demo_sent"
  "demo_sent = fst (sendJsonRequest ''subscribe'' (Some (JArr []))
     (log_line ''ws opened: '' ((set_ready 0 OPEN demo_cws)\<lparr>conn_state := Open_State\<rparr>)))"
  by (simp_all add: demo_sent_def onopen_def stopInterval_def set_ready_def demo_cws_def checkOpen_def
      ControllerWebSocket_def notifyStateListeners_def notify_state_from.simps log_line_def)

lemma demo_sent_state:
  "sockets demo_sent = [(OPEN, False)]" "pendingRequests demo_sent = [(''0'',
     \<lparr>req_jsonrpc = ''2.0'', req_id = 0, req_method = ''subscribe'', req_params = Some (JArr [])\<rparr>)]"
  "reqId demo_sent = 1" "sent_ids (sent demo_sent) = [0]"
proof -
  have "nat_str 0 = ''0''" by code_simp
  then show "sockets demo_sent = [(OPEN, False)]" "pendingRequests demo_sent = [(''0'',
     \<lparr>req_jsonrpc = ''2.0'', req_id = 0, req_method = ''subscribe'', req_params = Some (JArr [])\<rparr>)]"
  "reqId demo_sent = 1" "sent_ids (sent demo_sent) = [0]"
    by (simp_all add: demo_sent_eq(2) sendJsonRequest_def send_def set_ready_def demo_cws_def checkOpen_def
      ControllerWebSocket_def log_line_def sent_ids_def Let_def)
qed

lemma demo_sent_reach: "ws_reach unhandled_handlers demo_sent"
proof -
  have "ws_step unhandled_handlers demo_cws (EvOpened 0) demo_sent"
    by (rule step_opened) (simp_all add: demo_sent_eq(1), simp_all add: demo_cws_def checkOpen_def
        ControllerWebSocket_def)
  then show ?thesis by (rule reach_step [OF demo_reach])
qed

theorem reachable_request_ids_witness:
  "\<exists>r. obj_get (pendingRequests demo_sent) ''0'' = Some r \<and> ''0'' = nat_str (req_id r) \<and>
     req_id r < reqId demo_sent \<and> sent_ids (sent demo_sent) = [0] \<and>
     sorted_wrt (<) (sent_ids (sent demo_sent))"
proof -
  obtain r where r: "obj_get (pendingRequests demo_sent) ''0'' = Some r"
    by (simp add: demo_sent_state)
  then show ?thesis
    using reachable_request_ids [OF unhandled.page_callbacks_axioms demo_sent_reach]
    by (auto simp: demo_sent_state(4))
qed



text \<open>
  Only a response removes a pending request: every other event (a close and reopen of
  the connection included) keeps all of them, and a request made while no socket is held
  becomes pending although no frame is sent for it, so its entry is never answered.
\<close>

theorem pending_only_removed_by_message:
  assumes "page_callbacks H" "ws_reach H s" "ws_step H s e s'" "\<forall>w m. e \<noteq> EvMessage w m"
  shows "set (pendingRequests s) \<subseteq> set (pendingRequests s') \<and>
    (socket s = None \<longrightarrow> sent (fst (sendJsonRequest m p s)) = sent s \<and>
       obj_get (pendingRequests (fst (sendJsonRequest m p s))) (nat_str (reqId s)) \<noteq> None)"
  using page_callbacks.step_pending [OF assms(1,3)] page_callbacks.reach_inv [OF assms(1,2)] assms(4)
  by (simp add: sendJsonRequest_def send_def Let_def update_conv')

theorem pending_only_removed_by_message_witness:
  "set (pendingRequests demo_lost) \<subseteq> set (pendingRequests demo_lost) \<and>
    sent (fst (sendJsonRequest ''m'' None demo_lost)) = sent demo_lost \<and>
    obj_get (pendingRequests (fst (sendJsonRequest ''m'' None demo_lost))) (nat_str (reqId demo_lost)) \<noteq> None"
proof -
  have "socket demo_lost = None"
    by (simp add: demo_lost_def startInterval_def)
  then show ?thesis
    using pending_only_removed_by_message [OF unhandled.page_callbacks_axioms demo_lost_reach
        step_page [OF api_nothing], of "''m''" None] by simp
qed

lemma notify_fold:
  assumes "page_callbacks H"
  shows "notify_state_from H i s = Some (fold
    (\<lambda>cb s. log_error (state_cb H cb (conn_state s) s)) (drop i (stateListeners s)) s)"
proof (induction "length (stateListeners s) - i" arbitrary: i s)
  case 0
  then show ?case by (subst notify_state_from.simps) simp
next
  case (Suc n)
  let ?u = "log_error (state_cb H (stateListeners s ! i) (conn_state s) s)"
  have "page_api s ?u"
    by (intro page_api_log_error page_callbacks.state_cb_api [OF assms])
  then have l: "stateListeners ?u = stateListeners s"
    using page_api_view by (fastforce simp: conn_view_def)
  have i: "i < length (stateListeners s)" using Suc.hyps(2) by simp
  have "n = length (stateListeners ?u) - (i + 1)" using Suc.hyps(2) l by simp
  from Suc.hyps(1) [OF this] show ?case
    using i l by (subst notify_state_from.simps) (simp add: Cons_nth_drop_Suc [OF i, symmetric])
qed

text \<open>
  Every listener registered when a notification starts is called exactly once, in
  order of registration, each on the state its predecessors left: a listener that throws
  costs one console line and silences no other listener.
\<close>

theorem notify_calls_every_listener:
  assumes "page_callbacks H"
  shows "notifyStateListeners H s = Some (fold
    (\<lambda>cb s. log_error (state_cb H cb (conn_state s) s)) (stateListeners s) s)"
  using notify_fold [OF assms, of 0 s] by (simp add: notifyStateListeners_def)

theorem notify_calls_every_listener_witness:
  "notifyStateListeners unhandled_handlers demo_cws = Some (fold
    (\<lambda>cb s. log_error (state_cb unhandled_handlers cb (conn_state s) s)) (stateListeners demo_cws) demo_cws)"
  by (rule notify_calls_every_listener [OF unhandled.page_callbacks_axioms])

text \<open>
  \<open>isOpen\<close> assigns instead of comparing: it answers true in every state, also with no
  socket at all, and the state it leaves is then no longer one in which "open" means an open
  socket.
\<close>

theorem isOpen_always_true:
  "snd (isOpen s) \<and> conn_state (fst (isOpen s)) = Open_State \<and>
   (socket s = None \<longrightarrow> \<not> conn_inv (fst (isOpen s)))"
  by (auto simp: isOpen_def conn_inv_def)

theorem isOpen_always_true_witness:
  "snd (isOpen demo_lost) \<and> conn_state (fst (isOpen demo_lost)) = Open_State \<and>
   \<not> conn_inv (fst (isOpen demo_lost))"
proof -
  have "socket demo_lost = None"
    by (simp add: demo_lost_def startInterval_def)
  then show ?thesis using isOpen_always_true [of demo_lost] by simp
qed

end
