(* ===== verification/Web_Header.thy ===== *)
theory Web_Header
  imports Web_Common
begin

text \<open>
  \<^verbatim>\<open>web-admin/header.js\<close>: the page table and the menu bar that the script writes into every
  page of the administration console.  \<open>document.write\<close> appends text to the document, so the
  whole script is a function from the global \<open>currentPage\<close> to the text it writes, or the
  error that stops it half way with the text written so far.
\<close>

record page_entry =
  page_label :: string
  page_ref :: string
  page_icon :: string

definition icon_of :: "string \<Rightarrow> string" where
  "icon_of k = (case obj_get icons k of None \<Rightarrow> ''undefined'' | Some c \<Rightarrow> c)"

definition pages :: "page_entry obj" where
  "pages = [
    (''dashboard'', \<lparr>page_label = ''Dashboard'', page_ref = ''dashboard.html'', page_icon = icon_of ''dashboard''\<rparr>),
    (''sensors'', \<lparr>page_label = ''Sensors'', page_ref = ''sensors-main.html'', page_icon = icon_of ''sensors''\<rparr>),
    (''inventory'', \<lparr>page_label = ''Inventory'', page_ref = ''inventory-main.html'', page_icon = icon_of ''inventory''\<rparr>),
    (''tag_stats'', \<lparr>page_label = ''Tag Statistics'', page_ref = ''tag-stats.html'', page_icon = icon_of ''tag_stats''\<rparr>),
    (''scheduler'', \<lparr>page_label = ''Scheduler'', page_ref = ''scheduler.html'', page_icon = icon_of ''scheduler''\<rparr>),
    (''disti_cfg'', \<lparr>page_label = ''Distributor Config'', page_ref = ''sensors-disti.html'', page_icon = icon_of ''configuration''\<rparr>),
    (''cluster_cfg'', \<lparr>page_label = ''Cluster Config'', page_ref = ''cluster-config.html'', page_icon = icon_of ''clusters''\<rparr>),
    (''behaviors'', \<lparr>page_label = ''Behaviors'', page_ref = ''behaviors.html'', page_icon = icon_of ''configuration''\<rparr>),
    (''mobility_profile'', \<lparr>page_label = ''Mobility Profile'', page_ref = ''mobility-profile.html'', page_icon = icon_of ''mobility''\<rparr>),
    (''about'', \<lparr>page_label = ''About'', page_ref = ''about.html'', page_icon = icon_of ''about''\<rparr>)]"

definition bar_open :: string where
  "bar_open = ''<div class=\"w3-bar\">''
     @ ''  <div class=\"w3-bar-item\">''
     @ ''    <div class=\"w3-bar-block w3-black w3-dropdown-hover\">''
     @ ''      <button class=\"w3-button\"><i class=\"fa fa-bars w3-xlarge\"></i></button>''
     @ ''      <div class=\"w3-dropdown-content style\">''"

text \<open>The body of the \<^verbatim>\<open>forEach\<close>: the distributor page has no menu item.\<close>

definition menu_item :: "string \<times> page_entry \<Rightarrow> string" where
  "menu_item kp = (if fst kp = ''disti_cfg'' then []
     else ''    '' @ ''<a class=\"w3-bar-item w3-button\" '' @
       ''href=\"'' @ page_ref (snd kp) @ ''\">'' @ page_label (snd kp) @ ''</a>'')"

definition bar_middle :: string where
  "bar_middle = ''      </div>'' @ ''    </div>'' @ ''  </div>''
     @ ''  <div class=\"w3-bar-item w3-xlarge\">''"

definition bar_title :: "page_entry \<Rightarrow> string" where
  "bar_title p = ''    '' @ page_label p @ '' <i class=\" '' @ page_icon p @ ''\"></i> ''"

definition bar_close :: string where
  "bar_close = ''  </div>'' @ ''</div>''"

definition write_header :: "string \<Rightarrow> string \<times> js_error option" where
  "write_header currentPage =
     (let before = bar_open @ concat (map menu_item pages) @ bar_middle in
      case obj_get pages currentPage of
        None \<Rightarrow> (before, Some TypeError)
      | Some p \<Rightarrow> (before @ bar_title p @ bar_close, None))"

subsection \<open>Properties\<close>

text \<open>The page scripts set \<open>currentPage\<close> to one of these.\<close>

lemma page_keys: "obj_keys pages = [''dashboard'', ''sensors'', ''inventory'', ''tag_stats'',
    ''scheduler'', ''disti_cfg'', ''cluster_cfg'', ''behaviors'', ''mobility_profile'', ''about'']"
  by (simp add: pages_def)

definition menu_links :: "string list" where
  "menu_links = map (\<lambda>kp. page_ref (snd kp)) (filter (\<lambda>kp. fst kp \<noteq> ''disti_cfg'') pages)"

text \<open>
  The icon named by every entry of the page table is defined in the shared icon
  table, and for every page of the table the header is written completely, with a menu link
  to each page except the distributor configuration, in the order of the table.
\<close>

theorem header_complete:
  assumes "obj_get pages currentPage = Some p"
  shows "write_header currentPage =
      (bar_open @ concat (map menu_item (filter (\<lambda>kp. fst kp \<noteq> ''disti_cfg'') pages)) @ bar_middle @
        bar_title p @ bar_close, None) \<and>
    page_icon p \<in> snd ` set icons \<and>
    menu_links = [''dashboard.html'', ''sensors-main.html'', ''inventory-main.html'', ''tag-stats.html'',
      ''scheduler.html'', ''cluster-config.html'', ''behaviors.html'', ''mobility-profile.html'', ''about.html'']"
proof -
  have "concat (map menu_item (filter (\<lambda>kp. fst kp \<noteq> ''disti_cfg'') ps)) = concat (map menu_item ps)" for ps
    by (induction ps) (auto simp: menu_item_def)
  moreover have "page_icon p \<in> snd ` set icons"
  proof -
    have "\<forall>kp \<in> set pages. page_icon (snd kp) \<in> snd ` set icons"
      by (simp add: pages_def icon_of_def icons_def)
    then show ?thesis using map_of_SomeD [OF assms] by force
  qed
  moreover have "menu_links = [''dashboard.html'', ''sensors-main.html'', ''inventory-main.html'', ''tag-stats.html'',
      ''scheduler.html'', ''cluster-config.html'', ''behaviors.html'', ''mobility-profile.html'', ''about.html'']"
    by (simp add: menu_links_def pages_def)
  ultimately show ?thesis using assms by (simp add: write_header_def Let_def)
qed

theorem header_complete_witness:
  "snd (write_header ''about'') = None"
proof -
  have "obj_get pages ''about'' =
      Some \<lparr>page_label = ''About'', page_ref = ''about.html'', page_icon = icon_of ''about''\<rparr>"
    by (simp add: pages_def)
  from header_complete [OF this] show ?thesis by simp
qed

end
