(* ===== verification/Fa_Config.thy ===== *)
theory Fa_Config
  imports Js_Prelude
begin

text \<open>
  \<^verbatim>\<open>web-admin/fontawesome/js/fontawesome.js\<close>, lines 40-263: object spreading, the constants
  and the configuration object, which is built from the defaults, the page's
  \<open>FontAwesomeConfig\<close> object and the \<open>data-\<close> attributes of the script elements.
\<close>

subsection \<open>Spreading objects\<close>

text \<open>
  \<open>_objectSpread(target, source)\<close> for one source: its own keys in order, each assigned to
  the target.  A call with several sources is a sequence of these.
\<close>

definition object_spread :: "'v obj \<Rightarrow> 'v obj \<Rightarrow> 'v obj" where
  "object_spread target source = fold (\<lambda>(k, v). obj_set k v) source target"

lemma object_spread_simps [simp]:
  "object_spread t [] = t"
  "object_spread t ((k, v) # s) = object_spread (obj_set k v t) s"
  by (simp_all add: object_spread_def)

lemma obj_get_spread [js_simps]:
  "distinct (obj_keys s) \<Longrightarrow>
     obj_get (object_spread t s) k = (case obj_get s k of Some v \<Rightarrow> Some v | None \<Rightarrow> obj_get t k)"
proof (induction s arbitrary: t)
  case (Cons kv s)
  obtain a b where kv: "kv = (a, b)" by (cases kv)
  have "obj_get s a = None" using Cons.prems by (simp add: kv map_of_eq_None_iff)
  then show ?case using Cons by (auto simp: kv js_simps split: option.splits)
qed simp

lemma set_keys_spread: "set (obj_keys (object_spread t s)) = set (obj_keys t) \<union> set (obj_keys s)"
proof (induction s arbitrary: t)
  case (Cons kv s)
  have "set (obj_keys (obj_set (fst kv) (snd kv) t)) = insert (fst kv) (set (obj_keys t))"
    by (auto simp only: obj_keys_set set_append split: if_splits) simp_all
  then show ?case using Cons by (cases kv) simp
qed simp

lemma distinct_spread: "distinct (obj_keys t) \<Longrightarrow> distinct (obj_keys (object_spread t s))"
  by (induction s arbitrary: t) (auto simp: distinct_update)

lemma spread_fresh:
  "distinct (obj_keys s) \<Longrightarrow> set (obj_keys t) \<inter> set (obj_keys s) = {} \<Longrightarrow> object_spread t s = t @ s"
proof (induction s arbitrary: t)
  case (Cons kv s)
  obtain a b where kv: "kv = (a, b)" by (cases kv)
  have "obj_set a b t = t @ [(a, b)]"
    using Cons.prems(2) by (induction t) (auto simp: kv)
  then show ?case using Cons by (auto simp: kv)
qed simp

lemma spread_empty: "distinct (obj_keys s) \<Longrightarrow> object_spread [] s = s"
  by (simp add: spread_fresh)

subsection \<open>Constants\<close>

definition DEFAULT_FAMILY_PREFIX :: string where "DEFAULT_FAMILY_PREFIX = ''fa''"
definition DEFAULT_REPLACEMENT_CLASS :: string where "DEFAULT_REPLACEMENT_CLASS = ''svg-inline--fa''"
definition DATA_FA_I2SVG :: string where "DATA_FA_I2SVG = ''data-fa-i2svg''"
definition DATA_FA_PSEUDO_ELEMENT :: string where "DATA_FA_PSEUDO_ELEMENT = ''data-fa-pseudo-element''"
definition DATA_FA_PSEUDO_ELEMENT_PENDING :: string where
  "DATA_FA_PSEUDO_ELEMENT_PENDING = ''data-fa-pseudo-element-pending''"
definition HTML_CLASS_I2SVG_BASE_CLASS :: string where "HTML_CLASS_I2SVG_BASE_CLASS = ''fontawesome-i2svg''"
definition TAGNAMES_TO_SKIP_FOR_PSEUDOELEMENTS :: "string list" where
  "TAGNAMES_TO_SKIP_FOR_PSEUDOELEMENTS = [''HTML'', ''HEAD'', ''STYLE'', ''SCRIPT'']"
definition LAYERS_TEXT_CLASSNAME :: string where "LAYERS_TEXT_CLASSNAME = ''fa-layers-text''"

definition PREFIX_TO_STYLE :: "string obj" where
  "PREFIX_TO_STYLE = [(''fas'', ''solid''), (''far'', ''regular''), (''fal'', ''light''),
     (''fab'', ''brands''), (''fa'', ''solid'')]"

definition STYLE_TO_PREFIX :: "string obj" where
  "STYLE_TO_PREFIX = [(''solid'', ''fas''), (''regular'', ''far''), (''light'', ''fal''), (''brands'', ''fab'')]"

definition FONT_WEIGHT_TO_PREFIX :: "string obj" where
  "FONT_WEIGHT_TO_PREFIX = [(''900'', ''fas''), (''400'', ''far''), (''normal'', ''far''), (''300'', ''fal'')]"

definition ATTRIBUTES_WATCHED_FOR_MUTATION :: "string list" where
  "ATTRIBUTES_WATCHED_FOR_MUTATION =
     [''class'', ''data-prefix'', ''data-icon'', ''data-fa-transform'', ''data-fa-mask'']"

definition oneToTen :: "nat list" where "oneToTen = [1, 2, 3, 4, 5, 6, 7, 8, 9, 10]"

definition oneToTwenty :: "nat list" where
  "oneToTwenty = oneToTen @ [11, 12, 13, 14, 15, 16, 17, 18, 19, 20]"

definition RESERVED_CLASSES :: "string list" where
  "RESERVED_CLASSES = [''xs'', ''sm'', ''lg'', ''fw'', ''ul'', ''li'', ''border'', ''pull-left'',
     ''pull-right'', ''spin'', ''pulse'', ''rotate-90'', ''rotate-180'', ''rotate-270'',
     ''flip-horizontal'', ''flip-vertical'', ''stack'', ''stack-1x'', ''stack-2x'', ''inverse'',
     ''layers'', ''layers-text'', ''layers-counter'']
     @ map (\<lambda>n. nat_str n @ ''x'') oneToTen @ map (\<lambda>n. ''w-'' @ nat_str n) oneToTwenty"

subsection \<open>The configuration\<close>

text \<open>
  A configuration value is a boolean or a string.  (The page's own object could hold other
  values; the code itself and the attributes only produce these.)
\<close>

datatype cval = CBool bool | CStr string

fun truthy :: "cval option \<Rightarrow> bool" where
  "truthy None = False"
| "truthy (Some (CBool b)) = b"
| "truthy (Some (CStr s)) = (s \<noteq> [])"

text \<open>How a value reads in a template string.\<close>

fun cval_text :: "cval option \<Rightarrow> string" where
  "cval_text None = ''undefined''"
| "cval_text (Some (CBool b)) = (if b then ''true'' else ''false'')"
| "cval_text (Some (CStr s)) = s"

text \<open>
  \<open>querySelector('script[' + attr + ']')\<close>: the first script element of the document, each
  given by its attributes, that has the attribute.
\<close>

fun getAttrConfig :: "string obj list \<Rightarrow> string \<Rightarrow> string option" where
  "getAttrConfig [] attr = None"
| "getAttrConfig (el # els) attr =
     (case obj_get el attr of Some v \<Rightarrow> Some v | None \<Rightarrow> getAttrConfig els attr)"

definition coerce :: "string \<Rightarrow> cval" where
  "coerce val = (if val = [] then CBool True else if val = ''false'' then CBool False
     else if val = ''true'' then CBool True else CStr val)"

definition attrs :: "(string \<times> string) list" where
  "attrs = [(''data-family-prefix'', ''familyPrefix''), (''data-replacement-class'', ''replacementClass''),
     (''data-auto-replace-svg'', ''autoReplaceSvg''), (''data-auto-add-css'', ''autoAddCss''),
     (''data-auto-a11y'', ''autoA11y''), (''data-search-pseudo-elements'', ''searchPseudoElements''),
     (''data-observe-mutations'', ''observeMutations''), (''data-keep-original-source'', ''keepOriginalSource''),
     (''data-measure-performance'', ''measurePerformance''), (''data-show-missing-icons'', ''showMissingIcons'')]"

definition read_attr :: "string obj list \<Rightarrow> string \<times> string \<Rightarrow> cval obj \<Rightarrow> cval obj" where
  "read_attr scripts = (\<lambda>(attr, key) ini.
     case getAttrConfig scripts attr of None \<Rightarrow> ini | Some v \<Rightarrow> obj_set key (coerce v) ini)"

definition initial_config :: "string obj list \<Rightarrow> cval obj option \<Rightarrow> cval obj" where
  "initial_config scripts page =
     fold (read_attr scripts) attrs (case page of None \<Rightarrow> [] | Some o1 \<Rightarrow> o1)"

definition default_config :: "cval obj" where
  "default_config = [(''familyPrefix'', CStr DEFAULT_FAMILY_PREFIX),
     (''replacementClass'', CStr DEFAULT_REPLACEMENT_CLASS), (''autoReplaceSvg'', CBool True),
     (''autoAddCss'', CBool True), (''autoA11y'', CBool True), (''searchPseudoElements'', CBool False),
     (''observeMutations'', CBool True), (''keepOriginalSource'', CBool True),
     (''measurePerformance'', CBool False), (''showMissingIcons'', CBool True)]"

definition make_config :: "cval obj \<Rightarrow> cval obj" where
  "make_config ini =
     (let c = object_spread (object_spread [] default_config) ini;
          c = (if truthy (obj_get c ''autoReplaceSvg'') then c
               else obj_set ''observeMutations'' (CBool False) c)
      in object_spread [] c)"

subsection \<open>Precedence of the sources\<close>

lemma distinct_default: "distinct (obj_keys default_config)"
  by (simp add: default_config_def)

lemma distinct_attrs: "distinct (map snd attrs)"
  by (simp add: attrs_def)

lemma read_attrs_get:
  assumes "distinct (map snd as)"
  shows "obj_get (fold (read_attr scripts) as ini) k =
    (case map_of (map (\<lambda>(a, b). (b, a)) as) k of
       None \<Rightarrow> obj_get ini k
     | Some a \<Rightarrow> (case getAttrConfig scripts a of None \<Rightarrow> obj_get ini k | Some v \<Rightarrow> Some (coerce v)))"
  using assms
proof (induction as arbitrary: ini)
  case (Cons ab as)
  obtain a b where ab: "ab = (a, b)" by (cases ab)
  have "map_of (map (\<lambda>(a, b). (b, a)) as) b = None"
    using Cons.prems by (force simp: ab map_of_eq_None_iff)
  then show ?case
    using Cons by (auto simp: ab read_attr_def js_simps split: option.splits)
qed simp

lemma read_attrs_distinct:
  "distinct (obj_keys ini) \<Longrightarrow> distinct (obj_keys (fold (read_attr scripts) as ini))"
  by (induction as arbitrary: ini)
    (auto simp: read_attr_def distinct_update split: option.splits prod.splits)

definition config_value :: "string obj list \<Rightarrow> cval obj option \<Rightarrow> string \<Rightarrow> cval option" where
  "config_value scripts page k =
     (let from_page = (case page of None \<Rightarrow> None | Some o1 \<Rightarrow> obj_get o1 k);
          from_script = (case map_of (map (\<lambda>(a, b). (b, a)) attrs) k of
             None \<Rightarrow> None | Some a \<Rightarrow> map_option coerce (getAttrConfig scripts a))
      in if from_script \<noteq> None then from_script
         else if from_page \<noteq> None then from_page else obj_get default_config k)"

text \<open>
  Every configuration value comes from the first of these that defines it: the data
  attribute of a script element (an empty attribute means true), the page's
  \<open>FontAwesomeConfig\<close> object, the defaults; except that mutations are never observed when
  automatic replacement is off.
\<close>

theorem config_precedence:
  assumes "case page of None \<Rightarrow> True | Some o1 \<Rightarrow> distinct (obj_keys o1)"
  shows "obj_get (make_config (initial_config scripts page)) k =
    (if k = ''observeMutations'' \<and> \<not> truthy (config_value scripts page ''autoReplaceSvg'')
     then Some (CBool False) else config_value scripts page k)"
proof -
  let ?ini = "initial_config scripts page"
  have di: "distinct (obj_keys ?ini)"
    unfolding initial_config_def using assms
    by (cases page) (auto intro!: read_attrs_distinct)
  have ini: "obj_get ?ini k = (case map_of (map (\<lambda>(a, b). (b, a)) attrs) k of
       None \<Rightarrow> obj_get (case page of None \<Rightarrow> [] | Some o1 \<Rightarrow> o1) k
     | Some a \<Rightarrow> (case getAttrConfig scripts a of
          None \<Rightarrow> obj_get (case page of None \<Rightarrow> [] | Some o1 \<Rightarrow> o1) k | Some v \<Rightarrow> Some (coerce v)))" for k
    unfolding initial_config_def by (rule read_attrs_get [OF distinct_attrs])
  define c where "c = object_spread (object_spread [] default_config) ?ini"
  have c: "obj_get c k = config_value scripts page k" for k
    using di ini [of k] unfolding c_def config_value_def
    by (auto simp: js_simps distinct_default split: option.splits)
  have dc: "distinct (obj_keys c)"
    unfolding c_def by (intro distinct_spread) simp
  have "make_config ?ini = (if truthy (obj_get c ''autoReplaceSvg'') then c
      else obj_set ''observeMutations'' (CBool False) c)"
    unfolding make_config_def Let_def c_def [symmetric]
    using dc by (auto simp: spread_empty distinct_update)
  then show ?thesis by (auto simp: js_simps c)
qed

theorem config_precedence_witness:
  "obj_get (make_config (initial_config [[(''src'', ''all.js''), (''data-auto-replace-svg'', ''false'')]]
       (Some [(''autoReplaceSvg'', CStr ''nest''), (''observeMutations'', CBool True)]))) ''observeMutations'' =
   Some (CBool False)"
proof -
  have "\<not> truthy (config_value [[(''src'', ''all.js''), (''data-auto-replace-svg'', ''false'')]]
       (Some [(''autoReplaceSvg'', CStr ''nest''), (''observeMutations'', CBool True)]) ''autoReplaceSvg'')"
    by (simp add: config_value_def attrs_def coerce_def)
  then show ?thesis
    by (subst config_precedence) simp_all
qed

end
