(* ===== verification/Fa_Util.thy ===== *)
theory Fa_Util
  imports Fa_Config Js_Number
begin

text \<open>
  \<^verbatim>\<open>web-admin/fontawesome/js/fontawesome.js\<close>, lines 583-728: class names, escaping, the
  serialisation of attributes and styles, the transform of an icon, the place of the style
  sheet in the document head.
\<close>

subsection \<open>Class names\<close>

definition isReserved :: "string \<Rightarrow> bool" where
  "isReserved name \<longleftrightarrow> name \<in> set RESERVED_CLASSES"

definition getIconName :: "cval option \<Rightarrow> string \<Rightarrow> string option" where
  "getIconName familyPrefix cls =
     (let parts = split_on CHR ''-'' cls; prefix = hd parts; iconName = js_join ''-'' (tl parts)
      in if Some (CStr prefix) = familyPrefix \<and> iconName \<noteq> [] \<and> \<not> isReserved iconName
         then Some iconName else None)"

lemma icon_parts:
  assumes "CHR ''-'' \<notin> set p"
  shows "hd (split_on CHR ''-'' (p @ ''-'' @ name)) = p"
    "js_join ''-'' (tl (split_on CHR ''-'' (p @ ''-'' @ name))) = name"
  using assms by (simp_all add: js_simps join_split_on)

lemma getIconName_icon:
  "CHR ''-'' \<notin> set p \<Longrightarrow> getIconName (Some (CStr p)) (p @ ''-'' @ name) =
     (if name \<noteq> [] \<and> \<not> isReserved name then Some name else None)"
  using icon_parts [of p name] by (simp add: getIconName_def Let_def)

lemma getIconName_SomeD:
  assumes "getIconName fp cls = Some name"
  shows "\<exists>p. fp = Some (CStr p) \<and> cls = p @ ''-'' @ name \<and> CHR ''-'' \<notin> set p \<and> name \<noteq> [] \<and>
    \<not> isReserved name"
proof -
  obtain p ps where s: "split_on CHR ''-'' cls = p # ps"
    by (cases "split_on CHR ''-'' cls") auto
  have n: "fp = Some (CStr p)" "name = js_join ''-'' ps" "name \<noteq> []" "\<not> isReserved name"
    using assms by (auto simp: getIconName_def s Let_def split: if_splits)
  then have "ps \<noteq> []" by auto
  then have "cls = p @ ''-'' @ name"
    using join_split_on [of "CHR ''-''" cls] n by (simp add: s js_join_Cons)
  moreover have "CHR ''-'' \<notin> set p"
    using split_on_no_sep [of p "CHR ''-''" cls] by (simp add: s)
  ultimately show ?thesis using n by blast
qed

text \<open>\<open>classArray\<close>: the tokens of \<open>classList\<close>, or of the attribute where there is none.\<close>

fun space_tokens :: "string \<Rightarrow> string \<Rightarrow> string list" where
  "space_tokens w [] = (if w = [] then [] else [rev w])"
| "space_tokens w (c # s) = (if is_space c then (if w = [] then [] else [rev w]) @ space_tokens [] s
     else space_tokens (c # w) s)"

fun distinct_tokens :: "string list \<Rightarrow> string list" where
  "distinct_tokens [] = []"
| "distinct_tokens (t # ts) = t # distinct_tokens (filter (\<lambda>u. u \<noteq> t) ts)"

definition classArray :: "bool \<Rightarrow> string option \<Rightarrow> string list" where
  "classArray has_classList cls =
     (let c = (case cls of None \<Rightarrow> [] | Some c \<Rightarrow> c) in
      if has_classList then distinct_tokens (space_tokens [] c)
      else filter (\<lambda>i. i \<noteq> []) (split_on CHR '' '' c))"

subsection \<open>Escaping and serialisation\<close>

definition replace_all :: "char \<Rightarrow> string \<Rightarrow> string \<Rightarrow> string" where
  "replace_all c r s = concat (map (\<lambda>x. if x = c then r else [x]) s)"

definition htmlEscape :: "string \<Rightarrow> string" where
  "htmlEscape str =
     replace_all CHR ''>'' ''&gt;'' (replace_all CHR ''<'' ''&lt;''
       (replace_all (CHR 0x27) ''&#39;'' (replace_all CHR 0x22 ''&quot;''
         (replace_all CHR ''&'' ''&amp;'' str))))"

text \<open>The five passes amount to one: the escapes they insert are not escaped again.\<close>

definition escape_char :: "char \<Rightarrow> string" where
  "escape_char c = (if c = CHR ''&'' then ''&amp;'' else if c = CHR 0x22 then ''&quot;''
     else if c = CHR 0x27 then ''&#39;'' else if c = CHR ''<'' then ''&lt;''
     else if c = CHR ''>'' then ''&gt;'' else [c])"

lemma replace_all_simps [simp]:
  "replace_all c r [] = []"
  "replace_all c r (x # s) = (if x = c then r else [x]) @ replace_all c r s"
  by (simp_all add: replace_all_def)

lemma replace_all_append [simp]: "replace_all c r (s @ t) = replace_all c r s @ replace_all c r t"
  by (simp add: replace_all_def)

lemma htmlEscape_Nil [simp]: "htmlEscape [] = []"
  by (simp add: htmlEscape_def)

lemma htmlEscape_Cons [simp]: "htmlEscape (c # s) = escape_char c @ htmlEscape s"
  by (simp add: htmlEscape_def escape_char_def)

lemma escape_clean:
  "x \<in> set (escape_char c) \<Longrightarrow> x \<noteq> CHR 0x22 \<and> x \<noteq> CHR ''<'' \<and> x \<noteq> CHR ''>''"
  by (auto simp: escape_char_def split: if_splits)

lemma htmlEscape_clean:
  "x \<in> set (htmlEscape s) \<Longrightarrow> x \<noteq> CHR 0x22 \<and> x \<noteq> CHR ''<'' \<and> x \<noteq> CHR ''>''"
  by (induction s) (auto dest: escape_clean)

text \<open>The values an attribute holds and how they read in a template string.\<close>

datatype aval = AStr string | ANum jsnum | ANull

fun aval_text :: "aval \<Rightarrow> string" where
  "aval_text (AStr s) = s"
| "aval_text (ANum n) = num_str n"
| "aval_text ANull = ''null''"

definition joinAttributes :: "aval obj \<Rightarrow> string" where
  "joinAttributes attributes =
     trim (fold (\<lambda>(name, v) acc. acc @ name @ ''=\"'' @ htmlEscape (aval_text v) @ ''\" '') attributes [])"

definition joinStyles :: "string obj \<Rightarrow> string" where
  "joinStyles styles = fold (\<lambda>(name, v) acc. acc @ name @ '': '' @ v @ '';'') styles []"

lemma joinStyles_concat: "joinStyles styles = concat (map (\<lambda>(name, v). name @ '': '' @ v @ '';'') styles)"
proof -
  have "fold (\<lambda>(name, v) acc. acc @ name @ '': '' @ v @ '';'') styles acc =
      acc @ concat (map (\<lambda>(name, v). name @ '': '' @ v @ '';'') styles)" for acc
    by (induction styles arbitrary: acc) auto
  then show ?thesis by (simp add: joinStyles_def)
qed

subsection \<open>Transforms\<close>

record transform =
  tsize :: jsnum
  tx :: jsnum
  ty :: jsnum
  trotate :: jsnum
  flipX :: bool
  flipY :: bool

definition meaninglessTransform :: transform where
  "meaninglessTransform = \<lparr>tsize = Fin 16, tx = Fin 0, ty = Fin 0, trotate = Fin 0,
     flipX = False, flipY = False\<rparr>"

definition transformIsMeaningful :: "transform \<Rightarrow> bool" where
  "transformIsMeaningful t \<longleftrightarrow>
     \<not> num_eq (tsize t) (tsize meaninglessTransform) \<or> \<not> num_eq (tx t) (tx meaninglessTransform) \<or>
     \<not> num_eq (ty t) (ty meaninglessTransform) \<or> \<not> num_eq (trotate t) (trotate meaninglessTransform) \<or>
     flipX t \<or> flipY t"

lemma transformIsMeaningful_iff: "transformIsMeaningful t \<longleftrightarrow> t \<noteq> meaninglessTransform"
  by (cases t) (auto simp: transformIsMeaningful_def meaninglessTransform_def num_eq_def)

definition flip_sign :: "bool \<Rightarrow> jsnum" where
  "flip_sign b = (if b then Fin (- 1) else Fin 1)"

record svg_transform =
  outer_tr :: string
  inner_tr :: string
  path_tr :: string

definition transformForSvg :: "transform \<Rightarrow> jsnum \<Rightarrow> jsnum \<Rightarrow> svg_transform" where
  "transformForSvg t containerWidth iconWidth =
     (let innerTranslate = ''translate('' @ num_str (num_mul (tx t) (Fin 32)) @ '', ''
            @ num_str (num_mul (ty t) (Fin 32)) @ '') '';
          scale = num_div (tsize t) (Fin 16);
          innerScale = ''scale('' @ num_str (num_mul scale (flip_sign (flipX t))) @ '', ''
            @ num_str (num_mul scale (flip_sign (flipY t))) @ '') '';
          innerRotate = ''rotate('' @ num_str (trotate t) @ '' 0 0)''
      in \<lparr>outer_tr = ''translate('' @ num_str (num_div containerWidth (Fin 2)) @ '' 256)'',
          inner_tr = innerTranslate @ '' '' @ innerScale @ '' '' @ innerRotate,
          path_tr = ''translate('' @ num_str (num_mul (num_div iconWidth (Fin 2)) (Fin (- 1)))
            @ '' -256)''\<rparr>)"

text \<open>A width or height passed to \<open>transformForCss\<close>: left out, null (counting as 0) or a number.\<close>

datatype dim = DimUndefined | DimNull | DimNum jsnum

fun dim_value :: "dim \<Rightarrow> jsnum" where
  "dim_value DimUndefined = Fin 16"
| "dim_value DimNull = Fin 0"
| "dim_value (DimNum n) = n"

definition transformForCss :: "bool \<Rightarrow> transform \<Rightarrow> dim \<Rightarrow> dim \<Rightarrow> bool \<Rightarrow> string" where
  "transformForCss is_ie t width height startCentered =
     (let x = num_div (tx t) (Fin 16); y = num_div (ty t) (Fin 16);
          scale = num_div (tsize t) (Fin 16);
          translate =
            (if startCentered \<and> is_ie then
               ''translate('' @ num_str (num_sub x (num_div (dim_value width) (Fin 2))) @ ''em, ''
               @ num_str (num_sub y (num_div (dim_value height) (Fin 2))) @ ''em) ''
             else if startCentered then
               ''translate(calc(-50% + '' @ num_str x @ ''em), calc(-50% + '' @ num_str y @ ''em)) ''
             else ''translate('' @ num_str x @ ''em, '' @ num_str y @ ''em) '')
      in translate @ ''scale('' @ num_str (num_mul scale (flip_sign (flipX t))) @ '', ''
         @ num_str (num_mul scale (flip_sign (flipY t))) @ '') ''
         @ ''rotate('' @ num_str (trotate t) @ ''deg) '')"

subsection \<open>Identifiers\<close>

definition idPool :: string where
  "idPool = ''0123456789abcdefghijklmnopqrstuvwxyzABCDEFGHIJKLMNOPQRSTUVWXYZ''"

text \<open>
  \<open>nextUniqueId\<close> draws twelve characters; \<open>draw i\<close> is the \<open>i\<close>-th value of
  \<open>Math.random() * 62 | 0\<close>, which is below 62.  The count of draws so far is the state.
\<close>

definition nextUniqueId :: "(nat \<Rightarrow> nat) \<Rightarrow> nat \<Rightarrow> string \<times> nat" where
  "nextUniqueId draw k = (map (\<lambda>i. idPool ! (draw (k + i) mod 62)) [0..<12], k + 12)"

lemma length_idPool: "length idPool = 62"
  by (simp add: idPool_def)

lemma nextUniqueId_id: "length (fst (nextUniqueId draw k)) = 12" "set (fst (nextUniqueId draw k)) \<subseteq> set idPool"
  by (auto simp: nextUniqueId_def length_idPool intro!: nth_mem)

subsection \<open>The style sheet\<close>

definition upper_char :: "char \<Rightarrow> char" where
  "upper_char c = (let n = (of_char c :: nat) in if 97 \<le> n \<and> n \<le> 122 then char_of (n - 32) else c)"

definition to_upper :: "string \<Rightarrow> string" where
  "to_upper s = map upper_char s"

text \<open>A child of the head: its tag name, unless it is not an element, and its contents.\<close>

type_synonym head_child = "string option \<times> string"

definition is_sheet :: "head_child \<Rightarrow> bool" where
  "is_sheet child \<longleftrightarrow>
     to_upper (case fst child of None \<Rightarrow> [] | Some t \<Rightarrow> t) \<in> {''STYLE'', ''LINK''}"

text \<open>The loop runs from the last child to the first and keeps the latest hit.\<close>

fun before_child :: "nat \<Rightarrow> head_child list \<Rightarrow> nat option \<Rightarrow> nat option" where
  "before_child 0 head beforeChild = beforeChild"
| "before_child (Suc i) head beforeChild =
     before_child i head (if is_sheet (head ! i) then Some i else beforeChild)"

definition insertCss :: "bool \<Rightarrow> string \<Rightarrow> head_child list \<Rightarrow> head_child list" where
  "insertCss is_dom css head =
     (if css = [] \<or> \<not> is_dom then head
      else (case before_child (length head) head None of
              None \<Rightarrow> head @ [(Some ''STYLE'', css)]
            | Some i \<Rightarrow> take i head @ [(Some ''STYLE'', css)] @ drop i head))"

lemma before_child_first:
  "n \<le> length head \<Longrightarrow> before_child n head b =
     (if \<exists>i < n. is_sheet (head ! i) then Some (LEAST i. is_sheet (head ! i) \<and> i < n) else b)"
proof (induction n arbitrary: b)
  case (Suc n)
  show ?case
  proof (cases "\<exists>i < n. is_sheet (head ! i)")
    case True
    then obtain i where i: "i < n" "is_sheet (head ! i)" by blast
    let ?P = "\<lambda>m i. is_sheet (head ! i) \<and> i < m"
    have l: "?P n (LEAST i. ?P n i)" by (rule LeastI [of "?P n"]) (use i in simp)
    have "(LEAST i. ?P (Suc n) i) = (LEAST i. ?P n i)"
    proof (rule Least_equality)
      show "?P (Suc n) (LEAST i. ?P n i)" using l by simp
      fix y assume y: "?P (Suc n) y"
      show "(LEAST i. ?P n i) \<le> y"
      proof (cases "y < n")
        case True
        with y show ?thesis by (intro Least_le) simp
      next
        case False
        with l y show ?thesis by simp
      qed
    qed
    with Suc True show ?thesis by (auto intro: less_SucI)
  next
    case False
    have "(LEAST i. is_sheet (head ! i) \<and> i < Suc n) = n" if "is_sheet (head ! n)"
      using that False by (intro Least_equality) (auto simp: not_less less_Suc_eq)
    with Suc False show ?thesis by (auto simp: less_Suc_eq)
  qed
qed simp

text \<open>
  The style sheet is inserted once, in front of every style sheet the document head
  already has, so that the page's own rules win the cascade; all other children of the head
  keep their order.
\<close>

theorem insertCss_before_sheets:
  assumes "css \<noteq> []"
  shows "\<exists>us vs. head = us @ vs \<and> insertCss True css head = us @ (Some ''STYLE'', css) # vs \<and>
    (\<forall>c \<in> set us. \<not> is_sheet c) \<and> (vs = [] \<or> is_sheet (hd vs))"
proof (cases "\<exists>i < length head. is_sheet (head ! i)")
  case True
  let ?P = "\<lambda>i. is_sheet (head ! i) \<and> i < length head"
  define i where "i = (LEAST i. ?P i)"
  have P: "?P i" unfolding i_def using True by (metis (mono_tags, lifting) LeastI)
  have "\<not> is_sheet (head ! j)" if "j < i" for j
    using not_less_Least [of j ?P] that P unfolding i_def by auto
  then have "\<forall>c \<in> set (take i head). \<not> is_sheet c"
    using P by (metis in_set_conv_nth length_take min.absorb4 nth_take)
  moreover have "insertCss True css head = take i head @ (Some ''STYLE'', css) # drop i head"
    using assms True by (simp add: insertCss_def before_child_first i_def)
  moreover have "is_sheet (hd (drop i head))" using P by (simp add: hd_drop_conv_nth)
  moreover have "head = take i head @ drop i head" by simp
  ultimately show ?thesis by blast
next
  case False
  then have "before_child (length head) head None = None"
    by (simp add: before_child_first del: not_ex)
  then have "insertCss True css head = head @ [(Some ''STYLE'', css)]"
    using assms by (simp add: insertCss_def)
  moreover have "\<forall>c \<in> set head. \<not> is_sheet c" using False by (metis in_set_conv_nth)
  ultimately show ?thesis by (intro exI [of _ head] exI [of _ "[]"]) simp
qed

theorem insertCss_before_sheets_witness:
  "\<exists>us vs. [(Some ''META'', []), (Some ''LINK'', [])] = us @ vs \<and>
    insertCss True ''x'' [(Some ''META'', []), (Some ''LINK'', [])] = us @ (Some ''STYLE'', ''x'') # vs \<and>
    us = [(Some ''META'', [])]"
proof -
  have "''x'' \<noteq> []" by simp
  from insertCss_before_sheets [OF this, of "[(Some ''META'', []), (Some ''LINK'', [])]"]
  obtain us vs where h: "[(Some ''META'', []), (Some ''LINK'', [])] = us @ vs"
    "insertCss True ''x'' [(Some ''META'', []), (Some ''LINK'', [])] = us @ (Some ''STYLE'', ''x'') # vs"
    "\<forall>c \<in> set us. \<not> is_sheet c" "vs = [] \<or> is_sheet (hd vs)" by blast
  have s: "\<not> is_sheet (Some ''META'', [])" "is_sheet (Some ''LINK'', [])"
    by code_simp+
  have "us = [(Some ''META'', [])]"
    using h(1,3,4) s by (cases us; cases "tl us") auto
  with h show ?thesis by blast
qed

end
