(* ===== verification/Fa_Html.thy ===== *)
theory Fa_Html
  imports Fa_Util
begin

text \<open>
  \<^verbatim>\<open>web-admin/fontawesome/js/fontawesome.js\<close>, lines 672-676 and 1263-1275: the abstract nodes
  the icon renderer builds, and their serialisation \<open>toHtml\<close>.  The theory contains a small
  reader for the serialised text and shows that it gets back exactly the tree that was
  serialised: no attribute value and no text can leave its place, whatever it contains.
\<close>

datatype anode = AText string | AElem string "aval obj" "anode list"

fun toHtml :: "anode \<Rightarrow> string" where
  "toHtml (AText s) = htmlEscape s"
| "toHtml (AElem tag attributes children) =
     ''<'' @ tag @ '' '' @ joinAttributes attributes @ ''>'' @
     js_join [] (map toHtml children) @ ''</'' @ tag @ ''>''"

lemma js_join_Nil_concat [simp]: "js_join [] ws = concat ws"
  by (induction "[]::string" ws rule: js_join.induct) auto

subsection \<open>Names and attributes\<close>

definition name_char :: "char \<Rightarrow> bool" where
  "name_char c \<longleftrightarrow> \<not> is_space c \<and> c \<notin> {CHR ''='', CHR 0x22, CHR 0x27, CHR ''<'', CHR ''>'', CHR ''/'', CHR ''&''}"

definition wf_name :: "string \<Rightarrow> bool" where
  "wf_name n \<longleftrightarrow> n \<noteq> [] \<and> (\<forall>c \<in> set n. name_char c)"

definition attr_text :: "string \<times> aval \<Rightarrow> string" where
  "attr_text = (\<lambda>(name, v). name @ ''=\"'' @ htmlEscape (aval_text v) @ ''\"'')"

lemma trim_left_id: "s = [] \<or> \<not> is_space (hd s) \<Longrightarrow> trim_left s = s"
  by (cases s) (auto simp: trim_left_def)

lemma is_space_32 [simp]: "is_space CHR '' ''"
  by (simp add: is_space_def)

lemma not_space_quote [simp]: "\<not> is_space CHR 0x22"
  by (simp add: is_space_def)

lemma trim_inner:
  assumes "s \<noteq> []" "\<not> is_space (hd s)" "\<not> is_space (last s)"
  shows "trim s = s" "trim (s @ '' '') = s"
  using assms by (simp_all add: trim_def trim_left_def hd_rev dropWhile_append3 dropWhile_eq_Cons_conv
      hd_append trim_left_id [unfolded trim_left_def])

lemma fold_attr_text:
  "fold (\<lambda>(name, v) acc. acc @ name @ ''=\"'' @ htmlEscape (aval_text v) @ ''\" '') as acc =
   acc @ concat (map (\<lambda>a. attr_text a @ '' '') as)"
  by (induction as arbitrary: acc) (auto simp: attr_text_def)

lemma joinAttributes_join:
  assumes "\<forall>(k, v) \<in> set as. wf_name k"
  shows "joinAttributes as = js_join '' '' (map attr_text as)"
proof -
  have j: "as \<noteq> [] \<Longrightarrow> concat (map (\<lambda>a. attr_text a @ '' '') as) = js_join '' '' (map attr_text as) @ '' ''"
    for as :: "aval obj"
  proof (induction as)
    case (Cons a as)
    then show ?case by (cases "as = []") (auto simp: js_join_Cons)
  qed simp
  have l: "as \<noteq> [] \<Longrightarrow> js_join '' '' (map attr_text as) \<noteq> [] \<and> last (js_join '' '' (map attr_text as)) = CHR 0x22"
    for as :: "aval obj"
  proof (induction as)
    case (Cons a as)
    then show ?case by (cases "as = []") (auto simp: js_join_Cons attr_text_def split: prod.splits)
  qed simp
  show ?thesis
  proof (cases as)
    case Nil
    then show ?thesis by (simp add: joinAttributes_def trim_def trim_left_def)
  next
    case (Cons a as')
    obtain k v where a: "a = (k, v)" by (cases a)
    then have "k \<noteq> []" "\<not> is_space (hd k)"
      using assms Cons by (auto simp: wf_name_def name_char_def)
    then have "\<not> is_space (hd (js_join '' '' (map attr_text as)))"
      using Cons a by (cases "as' = []") (auto simp: js_join_Cons attr_text_def)
    then show ?thesis
      unfolding joinAttributes_def fold_attr_text
      using Cons j [of as] l [of as] trim_inner(2) by simp
  qed
qed

subsection \<open>Reading the text back\<close>

datatype xml = XText string | XElem string "(string \<times> string) list" "xml list"

fun to_xml :: "anode \<Rightarrow> xml" where
  "to_xml (AText s) = XText s"
| "to_xml (AElem tag as cs) = XElem tag (map (\<lambda>(k, v). (k, aval_text v)) as) (map to_xml cs)"

function html_unescape :: "string \<Rightarrow> string" where
  "html_unescape s = (if s = [] then []
     else if starts_with ''&amp;'' s then CHR ''&'' # html_unescape (drop 5 s)
     else if starts_with ''&quot;'' s then CHR 0x22 # html_unescape (drop 6 s)
     else if starts_with ''&#39;'' s then CHR 0x27 # html_unescape (drop 5 s)
     else if starts_with ''&lt;'' s then CHR ''<'' # html_unescape (drop 4 s)
     else if starts_with ''&gt;'' s then CHR ''>'' # html_unescape (drop 4 s)
     else hd s # html_unescape (tl s))"
  by pat_completeness auto
termination
  by (relation "measure length") auto

declare html_unescape.simps [simp del]

lemma unescape_escape_char: "html_unescape (escape_char c @ s) = c # html_unescape s"
  by (subst html_unescape.simps) (auto simp: escape_char_def)

lemma unescape_escape [simp]: "html_unescape (htmlEscape s) = s"
  by (induction s) (simp_all add: unescape_escape_char, simp add: html_unescape.simps)

fun read_attrs :: "nat \<Rightarrow> string \<Rightarrow> ((string \<times> string) list \<times> string) option" where
  "read_attrs 0 s = None"
| "read_attrs (Suc n) s =
     (if s = [] then None
      else if hd s = CHR ''>'' then Some ([], tl s)
      else if hd s = CHR '' '' then read_attrs n (tl s)
      else let name = takeWhile (\<lambda>c. c \<noteq> CHR ''='') s;
               r1 = drop (length name + 2) s;
               v = takeWhile (\<lambda>c. c \<noteq> CHR 0x22) r1
           in case read_attrs n (drop (length v + 1) r1) of
                None \<Rightarrow> None
              | Some (as, r) \<Rightarrow> Some ((name, html_unescape v) # as, r))"

fun read_nodes :: "nat \<Rightarrow> string \<Rightarrow> (xml list \<times> string) option" where
  "read_nodes 0 s = None"
| "read_nodes (Suc n) s =
     (if s = [] \<or> starts_with ''</'' s then Some ([], s)
      else if hd s = CHR ''<'' then
        (let tag = takeWhile (\<lambda>c. c \<noteq> CHR '' '') (tl s) in
         case read_attrs n (drop (length tag + 2) s) of
           None \<Rightarrow> None
         | Some (as, r) \<Rightarrow>
            (case read_nodes n r of
               None \<Rightarrow> None
             | Some (cs, r) \<Rightarrow>
                (case read_nodes n (drop (length tag + 3) r) of
                   None \<Rightarrow> None
                 | Some (ns, r) \<Rightarrow> Some (XElem tag as cs # ns, r))))
      else (case read_nodes n (dropWhile (\<lambda>c. c \<noteq> CHR ''<'') s) of
              None \<Rightarrow> None
            | Some (ns, r) \<Rightarrow> Some (XText (html_unescape (takeWhile (\<lambda>c. c \<noteq> CHR ''<'') s)) # ns, r)))"

definition read_html :: "string \<Rightarrow> xml list option" where
  "read_html s = (case read_nodes (length s + 1) s of Some (ns, []) \<Rightarrow> Some ns | _ \<Rightarrow> None)"

text \<open>
  Trees the text determines: names are names, and texts are neither empty nor adjacent
  (neither leaves a trace in the text).
\<close>

fun is_text :: "anode \<Rightarrow> bool" where
  "is_text (AText s) = True"
| "is_text (AElem t as cs) = False"

fun separated :: "anode list \<Rightarrow> bool" where
  "separated (x # y # xs) = (\<not> (is_text x \<and> is_text y) \<and> separated (y # xs))"
| "separated xs = True"

fun wf_anode :: "anode \<Rightarrow> bool" where
  "wf_anode (AText s) = (s \<noteq> [])"
| "wf_anode (AElem tag as cs) = (wf_name tag \<and> (\<forall>(k, v) \<in> set as. wf_name k) \<and>
     (\<forall>c \<in> set cs. wf_anode c) \<and> separated cs)"

lemma wf_name_chars:
  assumes "wf_name k" "c \<in> set k"
  shows "c \<noteq> CHR ''=''" "c \<noteq> CHR ''>''" "c \<noteq> CHR '' ''" "c \<noteq> CHR ''/''"
proof -
  have c: "name_char c" using assms by (simp add: wf_name_def)
  show "c \<noteq> CHR ''=''" "c \<noteq> CHR ''>''" "c \<noteq> CHR ''/''"
    using c unfolding name_char_def by blast+
  show "c \<noteq> CHR '' ''"
    using c is_space_32 unfolding name_char_def by blast
qed

lemma wf_name_neq_Nil: "wf_name k \<Longrightarrow> k \<noteq> []"
  by (simp add: wf_name_def)

lemma read_attrs_step:
  assumes "s = k @ CHR ''='' # CHR 0x22 # e @ CHR 0x22 # r" "k \<noteq> []"
    and "\<forall>c \<in> set k. c \<noteq> CHR ''='' \<and> c \<noteq> CHR ''>'' \<and> c \<noteq> CHR '' ''" "\<forall>c \<in> set e. c \<noteq> CHR 0x22"
  shows "read_attrs (Suc n) s =
    (case read_attrs n r of None \<Rightarrow> None | Some (as, r) \<Rightarrow> Some ((k, html_unescape e) # as, r))"
proof -
  let ?v = "e @ CHR 0x22 # r"
  have hk: "s = [] \<longleftrightarrow> False" "hd s = CHR ''>'' \<longleftrightarrow> False" "hd s = CHR '' '' \<longleftrightarrow> False"
    using assms by (cases k; simp)+
  have tk: "takeWhile (\<lambda>c. c \<noteq> CHR ''='') s = k"
    using assms(1,3) by (simp add: takeWhile_append)
  have d1: "drop (length k + 2) s = ?v"
    unfolding assms(1) by simp
  have tv: "takeWhile (\<lambda>c. c \<noteq> CHR 0x22) ?v = e"
    using assms(4) by (simp add: takeWhile_append)
  have d2: "drop (length e + 1) ?v = r" by simp
  show ?thesis
    by (simp only: read_attrs.simps(2) hk if_False Let_def tk d1 tv d2)
qed

lemma read_attr_one:
  assumes "wf_name k"
  shows "read_attrs (Suc n) (k @ CHR ''='' # CHR 0x22 # htmlEscape w @ CHR 0x22 # s) =
    (case read_attrs n s of None \<Rightarrow> None | Some (as, r) \<Rightarrow> Some ((k, w) # as, r))"
proof -
  note k = wf_name_neq_Nil [OF assms]
  have c: "\<forall>c \<in> set k. c \<noteq> CHR ''='' \<and> c \<noteq> CHR ''>'' \<and> c \<noteq> CHR '' ''"
    using wf_name_chars [OF assms] by blast
  have e: "\<forall>c \<in> set (htmlEscape w). c \<noteq> CHR 0x22"
    using htmlEscape_clean by blast
  show ?thesis by (simp only: read_attrs_step [OF refl k c e] unescape_escape)
qed

lemma read_attrs_ok:
  assumes "\<forall>(k, v) \<in> set as. wf_name k" "2 * length as < n"
  shows "read_attrs n (js_join '' '' (map attr_text as) @ ''>'' @ rest) =
    Some (map (\<lambda>(k, v). (k, aval_text v)) as, rest)"
  using assms
proof (induction as arbitrary: n)
  case Nil
  then show ?case by (cases n) auto
next
  case (Cons a as)
  obtain k v where a: "a = (k, v)" by (cases a)
  obtain m where n: "n = Suc (Suc m)" "2 * length as < m"
    using Cons.prems(2) by (cases n; cases "n - 1") auto
  have k: "wf_name k" and prems: "\<forall>(k, v) \<in> set as. wf_name k"
    using Cons.prems(1) by (auto simp: a)
  let ?tail = "if as = [] then ''>'' @ rest else '' '' @ js_join '' '' (map attr_text as) @ ''>'' @ rest"
  have s: "js_join '' '' (map attr_text (a # as)) @ ''>'' @ rest =
      k @ CHR ''='' # CHR 0x22 # htmlEscape (aval_text v) @ CHR 0x22 # ?tail"
    by (cases "as = []") (simp_all add: a attr_text_def js_join_Cons)
  have rt: "read_attrs (Suc m) ?tail = Some (map (\<lambda>(k, v). (k, aval_text v)) as, rest)"
  proof (cases "as = []")
    case False
    then show ?thesis using Cons.IH [OF prems n(2)] by simp
  qed simp
  show ?case
    unfolding s n(1) read_attr_one [OF k] rt by (simp add: a)
qed

fun html_fuel :: "anode \<Rightarrow> nat" where
  "html_fuel (AText s) = 1"
| "html_fuel (AElem tag as cs) = 2 * length as + sum_list (map html_fuel cs) + 3"

lemma escape_neq_Nil [simp]: "escape_char c \<noteq> []"
  by (simp add: escape_char_def)

lemma htmlEscape_eq_Nil [simp]: "htmlEscape s = [] \<longleftrightarrow> s = []"
  by (cases s) auto

lemma joinAttributes_length: 
  "\<forall>(k, v) \<in> set as. wf_name k \<Longrightarrow> 2 * length as \<le> length (joinAttributes as)"
proof -
  have "2 * length as \<le> length (js_join '' '' (map attr_text as))"
  proof (induction as)
    case (Cons a as)
    then show ?case by (cases "as = []") (auto simp: js_join_Cons attr_text_def split: prod.splits)
  qed simp
  then show "\<forall>(k, v) \<in> set as. wf_name k \<Longrightarrow> 2 * length as \<le> length (joinAttributes as)"
    by (simp add: joinAttributes_join)
qed

lemma html_fuel_le: "wf_anode a \<Longrightarrow> html_fuel a \<le> length (toHtml a)"
proof (induction a)
  case (AText s)
  then show ?case by (cases s) (auto simp: Suc_le_eq)
next
  case (AElem tag as cs)
  then have "sum_list (map html_fuel cs) \<le> sum_list (map (length \<circ> toHtml) cs)"
    by (auto intro!: sum_list_mono)
  moreover have "2 * length as \<le> length (joinAttributes as)"
    using AElem.prems joinAttributes_length by simp
  ultimately show ?case by (simp add: length_concat comp_def)
qed

lemma toHtml_start:
  "wf_anode a \<Longrightarrow> \<not> is_text a \<Longrightarrow> \<exists>t. toHtml a = CHR ''<'' # t \<and> t \<noteq> [] \<and> hd t \<noteq> CHR ''/''"
proof (cases a)
  case (AElem tag as cs)
  assume "wf_anode a"
  then have "tag \<noteq> []" "hd tag \<noteq> CHR ''/''"
    using AElem by (auto simp: wf_name_def name_char_def)
  then show ?thesis by (simp add: AElem hd_append)
qed simp

lemma text_end:
  assumes "\<forall>c \<in> set cs. wf_anode c" "separated (AText s # cs)" "rest = [] \<or> starts_with ''</'' rest"
  shows "concat (map toHtml cs) @ rest = [] \<or> hd (concat (map toHtml cs) @ rest) = CHR ''<''"
proof (cases cs)
  case Nil
  then show ?thesis using assms(3) by (auto simp: starts_with_iff)
next
  case (Cons c cs')
  then have "\<not> is_text c" "wf_anode c" using assms by auto
  then show ?thesis using toHtml_start [of c] Cons by auto
qed

lemma read_text_one:
  assumes "s \<noteq> []" "r = [] \<or> hd r = CHR ''<''"
  shows "read_nodes (Suc n) (htmlEscape s @ r) =
    (case read_nodes n r of None \<Rightarrow> None | Some (ns, r) \<Rightarrow> Some (XText s # ns, r))"
proof -
  obtain x h where e: "htmlEscape s = x # h" using assms(1) by (cases "htmlEscape s") auto
  have h: "\<forall>x \<in> set (htmlEscape s). x \<noteq> CHR ''<''"
    by (auto dest: htmlEscape_clean)
  then have x: "x \<noteq> CHR ''<''" by (simp add: e)
  have tw: "takeWhile (\<lambda>c. c \<noteq> CHR ''<'') (htmlEscape s @ r) = htmlEscape s"
    "dropWhile (\<lambda>c. c \<noteq> CHR ''<'') (htmlEscape s @ r) = r"
    using h assms(2) by (cases r; simp add: takeWhile_append dropWhile_append)+
  have c: "\<not> (htmlEscape s @ r = [] \<or> starts_with ''</'' (htmlEscape s @ r))" "hd (htmlEscape s @ r) \<noteq> CHR ''<''"
    using x by (simp_all add: e)
  show ?thesis
    unfolding read_nodes.simps(2) tw unescape_escape using c by (simp only: if_False)
qed

lemma read_elem_one:
  assumes "wf_name tag"
  shows "read_nodes (Suc n) (CHR ''<'' # tag @ CHR '' '' # s) =
    (case read_attrs n s of
       None \<Rightarrow> None
     | Some (as, r) \<Rightarrow>
        (case read_nodes n r of
           None \<Rightarrow> None
         | Some (cs, r) \<Rightarrow>
            (case read_nodes n (drop (length tag + 3) r) of
               None \<Rightarrow> None
             | Some (ns, r) \<Rightarrow> Some (XElem tag as cs # ns, r))))"
proof -
  let ?s = "CHR ''<'' # tag @ CHR '' '' # s"
  obtain x h where tag: "tag = x # h" "x \<noteq> CHR ''/''"
    using wf_name_neq_Nil [OF assms] wf_name_chars(4) [OF assms] by (cases tag) simp_all
  have t: "takeWhile (\<lambda>c. c \<noteq> CHR '' '') (tl ?s) = tag"
    using wf_name_chars(3) [OF assms] by (simp add: takeWhile_append)
  have c: "(?s = [] \<or> starts_with ''</'' ?s) = False" "(hd ?s = CHR ''<'') = True"
    using tag by simp_all
  have d: "drop (length tag + 2) ?s = s" by simp
  show ?thesis
    by (simp only: read_nodes.simps(2) Let_def t d c if_False if_True)
qed

lemma read_nodes_ok:
  assumes "\<forall>c \<in> set cs. wf_anode c" "separated cs" "rest = [] \<or> starts_with ''</'' rest"
    and "sum_list (map html_fuel cs) < n"
  shows "read_nodes n (concat (map toHtml cs) @ rest) = Some (map to_xml cs, rest)"
  using assms
proof (induction n arbitrary: cs rest)
  case (Suc n)
  show ?case
  proof (cases cs)
    case Nil
    then show ?thesis using Suc.prems(3) by auto
  next
    case (Cons c cs')
    let ?rest = "concat (map toHtml cs') @ rest"
    have sep': "separated cs'" using Suc.prems(2) Cons by (cases cs') auto
    have wf': "\<forall>c \<in> set cs'. wf_anode c" using Suc.prems(1) Cons by simp
    have r3: "read_nodes n ?rest = Some (map to_xml cs', rest)"
    proof (rule Suc.IH [OF wf' sep' Suc.prems(3)])
      show "sum_list (map html_fuel cs') < n"
        using Suc.prems(4) by (cases c) (auto simp: Cons)
    qed
    show ?thesis
    proof (cases c)
      case (AText s)
      have "s \<noteq> []" using Suc.prems(1) Cons AText by simp
      moreover have "?rest = [] \<or> hd ?rest = CHR ''<''"
        using text_end wf' Suc.prems(2,3) Cons AText by blast
      ultimately show ?thesis
        using read_text_one [of s ?rest n] r3 by (simp add: Cons AText)
    next
      case (AElem tag as ds)
      have tag: "wf_name tag" and as: "\<forall>(k, v) \<in> set as. wf_name k" and
        ds: "\<forall>c \<in> set ds. wf_anode c" "separated ds"
        using Suc.prems(1) Cons AElem by auto
      let ?close = "''</'' @ tag @ ''>'' @ ?rest"
      let ?in = "concat (map toHtml ds) @ ?close"
      let ?at = "js_join '' '' (map attr_text as) @ ''>'' @ ?in"
      have s: "concat (map toHtml cs) @ rest = CHR ''<'' # tag @ CHR '' '' # ?at"
        by (simp add: Cons AElem joinAttributes_join [OF as])
      have f: "2 * length as < n" "sum_list (map html_fuel ds) < n"
        using Suc.prems(4) Cons AElem by simp_all
      have r1: "read_attrs n ?at = Some (map (\<lambda>(k, v). (k, aval_text v)) as, ?in)"
        by (rule read_attrs_ok [OF as f(1)])
      have r2: "read_nodes n ?in = Some (map to_xml ds, ?close)"
        by (rule Suc.IH [OF ds _ f(2)]) simp
      have d: "drop (length tag + 3) ?close = ?rest" by (simp add: eval_nat_numeral)
      show ?thesis
        unfolding s read_elem_one [OF tag] r1 by (simp only: option.case prod.case r2 d r3) (simp add: Cons AElem)
    qed
  qed
qed simp

lemma read_html_list:
  assumes "\<forall>c \<in> set cs. wf_anode c" and "separated cs"
  shows "read_html (concat (map toHtml cs)) = Some (map to_xml cs)"
proof -
  have "sum_list (map html_fuel cs) \<le> sum_list (map (length \<circ> toHtml) cs)"
    using assms(1) html_fuel_le by (intro sum_list_mono) auto
  then have "sum_list (map html_fuel cs) < length (concat (map toHtml cs)) + 1"
    by (simp add: length_concat comp_def)
  then have "read_nodes (length (concat (map toHtml cs)) + 1) (concat (map toHtml cs) @ []) = Some (map to_xml cs, [])"
    using assms by (intro read_nodes_ok) auto
  then show ?thesis by (simp add: read_html_def)
qed

lemma read_toHtml: "wf_anode a \<Longrightarrow> read_html (toHtml a) = Some [to_xml a]"
  using read_html_list [of "[a]"] by simp

text \<open>
  C7: The serialisation of a tree reads back as that tree: element names, attribute names
  and values and texts all come back, for arbitrary values and texts, so no value can break
  out of its attribute or introduce markup.
\<close>

theorem toHtml_reads_back:
  assumes "wf_anode a"
  shows "read_html (toHtml a) = Some [to_xml a]"
  using assms by (rule read_toHtml)

theorem toHtml_reads_back_witness:
  "read_html (toHtml (AElem ''svg'' [(''title'', AStr ''a\"><script>&amp;'')] [AText ''x<y'']))
     = Some [XElem ''svg'' [(''title'', ''a\"><script>&amp;'')] [XText ''x<y'']]"
  by (subst toHtml_reads_back) (simp_all add: wf_name_def name_char_def is_space_def)

end
