(* ===== verification/Fa_Library.thy ===== *)
theory Fa_Library
  imports Fa_Util
begin

text \<open>
  \<^verbatim>\<open>web-admin/fontawesome/js/fontawesome.js\<close>, lines 1108-1261, 2008-2113 and 2340-2380: the
  registry of icon packs shared by all Font Awesome scripts, the lookup tables built from
  it, the icon library, the recognition of an icon in a list of classes.
\<close>

subsection \<open>State\<close>

text \<open>An icon array \<open>[width, height, ligatures, unicode, path]\<close>.\<close>

record icon_def =
  iwidth :: nat
  iheight :: nat
  ligatures :: "string list"
  unicode :: string
  ipath :: string

text \<open>A version 4 shim \<open>[oldName, prefix, iconName]\<close>, with null for what does not change.\<close>

type_synonym shim = "string \<times> string option \<times> string option"

text \<open>
  The namespace object (styles, shims, hooks), the lookup tables, the library, the
  configuration; \<open>replacements\<close> counts the passes of \<open>dom.i2svg\<close> over the document that
  \<open>autoReplace\<close> has started.  The registry is looked at by keys that are names of packs and
  icons, not names of members of \<open>Object.prototype\<close>.
\<close>

record fa_state =
  config :: "cval obj"
  is_dom :: bool
  styles :: "icon_def obj obj"
  shims :: "shim list"
  hooks :: bool
  by_unicode :: "string obj obj"
  by_ligature :: "string obj obj"
  by_old_name :: "(string option \<times> string option) obj"
  definitions :: "icon_def obj obj"
  replacements :: nat

abbreviation cfg :: "string \<Rightarrow> fa_state \<Rightarrow> cval option" where
  "cfg k s \<equiv> obj_get (config s) k"

definition get_or_empty :: "'v obj obj \<Rightarrow> string \<Rightarrow> 'v obj" where
  "get_or_empty m k = (case obj_get m k of None \<Rightarrow> [] | Some v \<Rightarrow> v)"

subsection \<open>Lookup tables\<close>

text \<open>\<open>reduce(subject, fn, initialValue)\<close> with an initial value.\<close>

definition obj_reduce :: "'v obj \<Rightarrow> ('a \<Rightarrow> 'v \<Rightarrow> string \<Rightarrow> 'a) \<Rightarrow> 'a \<Rightarrow> 'a" where
  "obj_reduce subject fn initialValue = fold (\<lambda>(k, v) acc. fn acc v k) subject initialValue"

definition lookup :: "icon_def obj obj \<Rightarrow> (string obj \<Rightarrow> icon_def \<Rightarrow> string \<Rightarrow> string obj) \<Rightarrow> string obj obj" where
  "lookup sts reducer = obj_reduce sts (\<lambda>o1 style prefix. obj_set prefix (obj_reduce style reducer []) o1) []"

definition unicode_reducer :: "string obj \<Rightarrow> icon_def \<Rightarrow> string \<Rightarrow> string obj" where
  "unicode_reducer acc icon iconName =
     (if unicode icon \<noteq> [] then obj_set (unicode icon) iconName acc else acc)"

definition ligature_reducer :: "string obj \<Rightarrow> icon_def \<Rightarrow> string \<Rightarrow> string obj" where
  "ligature_reducer acc icon iconName =
     fold (\<lambda>ligature acc. obj_set ligature iconName acc) (ligatures icon) (obj_set iconName iconName acc)"

definition shim_reducer :: "bool \<Rightarrow> shim \<Rightarrow> (string option \<times> string option) obj \<Rightarrow>
    (string option \<times> string option) obj" where
  "shim_reducer hasRegular = (\<lambda>(oldName, prefix, iconName) acc.
     obj_set oldName ((if prefix = Some ''far'' \<and> \<not> hasRegular then Some ''fas'' else prefix), iconName) acc)"

definition build :: "fa_state \<Rightarrow> fa_state" where
  "build s = s\<lparr>by_unicode := lookup (styles s) unicode_reducer,
     by_ligature := lookup (styles s) ligature_reducer,
     by_old_name := fold (shim_reducer (''far'' \<in> set (obj_keys (styles s)))) (shims s) []\<rparr>"

text \<open>Asking for a prefix that has no table throws.\<close>

definition byUnicode :: "fa_state \<Rightarrow> string \<Rightarrow> string \<Rightarrow> js_error + string option" where
  "byUnicode s prefix u = js_bind (require (obj_get (by_unicode s) prefix)) (\<lambda>t. Inr (obj_get t u))"

definition byLigature :: "fa_state \<Rightarrow> string \<Rightarrow> string \<Rightarrow> js_error + string option" where
  "byLigature s prefix l = js_bind (require (obj_get (by_ligature s) prefix)) (\<lambda>t. Inr (obj_get t l))"

definition byOldName :: "fa_state \<Rightarrow> string \<Rightarrow> string option \<times> string option" where
  "byOldName s name = (case obj_get (by_old_name s) name of Some r \<Rightarrow> r | None \<Rightarrow> (None, None))"

subsection \<open>Defining icons\<close>

definition autoReplace :: "fa_state \<Rightarrow> fa_state" where
  "autoReplace s =
     (if (length (obj_keys (styles s)) > 0 \<or> truthy (cfg ''autoFetchSvg'' s)) \<and> is_dom s \<and>
         truthy (cfg ''autoReplaceSvg'' s)
      then s\<lparr>replacements := replacements s + 1\<rparr> else s)"

definition put_style :: "string \<Rightarrow> icon_def obj \<Rightarrow> fa_state \<Rightarrow> fa_state" where
  "put_style prefix icons s = s\<lparr>styles := obj_set prefix
     (object_spread (object_spread [] (get_or_empty (styles s) prefix)) icons) (styles s)\<rparr>"

definition addPack :: "string \<Rightarrow> icon_def obj \<Rightarrow> fa_state \<Rightarrow> fa_state" where
  "addPack prefix icons s = autoReplace (build (put_style prefix icons s))"

definition addShims :: "shim list \<Rightarrow> fa_state \<Rightarrow> fa_state" where
  "addShims new s = autoReplace (build (s\<lparr>shims := shims s @ new\<rparr>))"

text \<open>A pack maps names to icon arrays or to objects that hold a name and an icon array.\<close>

datatype icon_entry = Plain icon_def | Expanded string icon_def

definition normalize_icons :: "icon_entry obj \<Rightarrow> icon_def obj" where
  "normalize_icons icons = fold (\<lambda>(iconName, e) acc.
     case e of Expanded n i \<Rightarrow> obj_set n i acc | Plain i \<Rightarrow> obj_set iconName i acc) icons []"

definition register_icons :: "bool \<Rightarrow> string \<Rightarrow> icon_entry obj \<Rightarrow> fa_state \<Rightarrow> fa_state" where
  "register_icons skipHooks prefix icons s =
     (if hooks s \<and> \<not> skipHooks then addPack prefix (normalize_icons icons) s
      else put_style prefix (normalize_icons icons) s)"

text \<open>The recursive call for the alias \<open>fa\<close> passes no parameters, so it never skips the hooks.\<close>

definition defineIcons :: "bool \<Rightarrow> string \<Rightarrow> icon_entry obj \<Rightarrow> fa_state \<Rightarrow> fa_state" where
  "defineIcons skipHooks prefix icons s =
     (let s = register_icons skipHooks prefix icons s in
      if prefix = ''fas'' then register_icons False ''fa'' icons s else s)"

text \<open>\<open>bootstrap\<close> installs the hooks.\<close>

definition install_hooks :: "fa_state \<Rightarrow> fa_state" where
  "install_hooks s = s\<lparr>hooks := True\<rparr>"

subsection \<open>The library\<close>

record icon_definition =
  def_prefix :: string
  def_name :: string
  def_icon :: icon_def

text \<open>An argument of \<open>library.add\<close>: one definition or an object of definitions.\<close>

datatype lib_arg = Single icon_definition | Pack "icon_definition obj"

definition pull_one :: "icon_definition \<Rightarrow> icon_def obj obj \<Rightarrow> icon_def obj obj" where
  "pull_one d additions = obj_set (def_prefix d)
     (obj_set (def_name d) (def_icon d) (get_or_empty additions (def_prefix d))) additions"

definition pullDefinitions :: "lib_arg \<Rightarrow> icon_def obj obj \<Rightarrow> icon_def obj obj" where
  "pullDefinitions arg additions =
     fold pull_one (case arg of Single d \<Rightarrow> [d] | Pack ds \<Rightarrow> map snd ds) additions"

definition add_additions :: "string \<times> icon_def obj \<Rightarrow> fa_state \<Rightarrow> fa_state" where
  "add_additions = (\<lambda>(key, icons) s.
     build (defineIcons False key (map (\<lambda>(n, i). (n, Plain i)) icons)
       (s\<lparr>definitions := obj_set key
          (object_spread (object_spread [] (get_or_empty (definitions s) key)) icons) (definitions s)\<rparr>)))"

definition library_add :: "lib_arg list \<Rightarrow> fa_state \<Rightarrow> fa_state" where
  "library_add args s = fold add_additions (fold pullDefinitions args []) s"

definition library_reset :: "fa_state \<Rightarrow> fa_state" where
  "library_reset s = s\<lparr>definitions := []\<rparr>"

definition iconFromMapping :: "icon_def obj obj \<Rightarrow> string \<Rightarrow> string \<Rightarrow> icon_definition option" where
  "iconFromMapping mapping prefix iconName =
     (case obj_get mapping prefix of
        None \<Rightarrow> None
      | Some m \<Rightarrow> map_option (\<lambda>i. \<lparr>def_prefix = prefix, def_name = iconName, def_icon = i\<rparr>) (obj_get m iconName))"

definition findIconDefinition :: "string option \<Rightarrow> string option \<Rightarrow> fa_state \<Rightarrow> icon_definition option" where
  "findIconDefinition prefix iconName s =
     (let prefix = (case prefix of None \<Rightarrow> ''fa'' | Some p \<Rightarrow> p) in
      case iconName of
        None \<Rightarrow> None
      | Some n \<Rightarrow> if n = [] then None
          else (case iconFromMapping (definitions s) prefix n of
                  Some d \<Rightarrow> Some d | None \<Rightarrow> iconFromMapping (styles s) prefix n))"

subsection \<open>The icon a class list names\<close>

record canonical =
  cprefix :: "string option"
  cname :: "string option"
  crest :: "string list"

definition emptyCanonicalIcon :: canonical where
  "emptyCanonicalIcon = \<lparr>cprefix = None, cname = None, crest = []\<rparr>"

definition is_prefix_class :: "fa_state \<Rightarrow> string \<Rightarrow> bool" where
  "is_prefix_class s cls \<longleftrightarrow> obj_get (styles s) cls \<noteq> None \<or>
     truthy (cfg ''autoFetchSvg'' s) \<and> cls \<in> {''fas'', ''far'', ''fal'', ''fab'', ''fa''}"

definition canonical_step :: "fa_state \<Rightarrow> string \<Rightarrow> canonical \<Rightarrow> canonical" where
  "canonical_step s cls acc =
     (if is_prefix_class s cls then acc\<lparr>cprefix := Some cls\<rparr>
      else case getIconName (cfg ''familyPrefix'' s) cls of
        Some iconName \<Rightarrow>
          (let (shim_prefix, shim_name) =
             (if cprefix acc = Some ''fa'' then byOldName s iconName else (None, None))
           in acc\<lparr>cname := Some (case shim_name of Some n \<Rightarrow> n | None \<Rightarrow> iconName),
                  cprefix := (case shim_prefix of Some p \<Rightarrow> Some p | None \<Rightarrow> cprefix acc)\<rparr>)
      | None \<Rightarrow>
          (if Some (CStr cls) \<noteq> cfg ''replacementClass'' s \<and> index_of ''fa-w-'' cls \<noteq> 0
           then acc\<lparr>crest := crest acc @ [cls]\<rparr> else acc))"

definition getCanonicalIcon :: "fa_state \<Rightarrow> string list \<Rightarrow> canonical" where
  "getCanonicalIcon s values = fold (canonical_step s) values emptyCanonicalIcon"

text \<open>The classes of a node that say nothing about its icon.\<close>

definition plain_class :: "fa_state \<Rightarrow> string \<Rightarrow> bool" where
  "plain_class s cls \<longleftrightarrow> \<not> is_prefix_class s cls \<and> getIconName (cfg ''familyPrefix'' s) cls = None \<and>
     Some (CStr cls) \<noteq> cfg ''replacementClass'' s \<and> index_of ''fa-w-'' cls \<noteq> 0"

text \<open>Classes that leave no trace: the replacement class and the width classes.\<close>

definition ignored_class :: "fa_state \<Rightarrow> string \<Rightarrow> bool" where
  "ignored_class s cls \<longleftrightarrow> \<not> is_prefix_class s cls \<and> getIconName (cfg ''familyPrefix'' s) cls = None \<and>
     (Some (CStr cls) = cfg ''replacementClass'' s \<or> index_of ''fa-w-'' cls = 0)"

lemma canonical_plain: "plain_class s cls \<Longrightarrow> canonical_step s cls acc = acc\<lparr>crest := crest acc @ [cls]\<rparr>"
  by (auto simp: canonical_step_def plain_class_def)

lemma canonical_ignored: "ignored_class s cls \<Longrightarrow> canonical_step s cls acc = acc"
  by (auto simp: canonical_step_def ignored_class_def)

lemma fold_canonical_plain:
  "\<forall>c \<in> set cs. plain_class s c \<Longrightarrow> fold (canonical_step s) cs acc = acc\<lparr>crest := crest acc @ cs\<rparr>"
  by (induction cs arbitrary: acc) (auto simp: canonical_plain)

lemma canonical_step_rest:
  "crest (canonical_step s cls acc) = crest acc @ (if plain_class s cls then [cls] else [])"
  by (auto simp: canonical_step_def plain_class_def split: option.splits prod.splits)

lemma fold_canonical_rest:
  "crest (fold (canonical_step s) cs acc) = crest acc @ filter (plain_class s) cs"
  by (induction cs arbitrary: acc) (auto simp: canonical_step_rest)

subsection \<open>The tables follow the registry\<close>

lemma obj_reduce_simps [simp]:
  "obj_reduce [] f a = a"
  "obj_reduce ((k, v) # o1) f a = obj_reduce o1 f (f a v k)"
  by (simp_all add: obj_reduce_def)

lemma get_lookup_aux:
  "distinct (obj_keys sts) \<Longrightarrow>
   obj_get (obj_reduce sts (\<lambda>o1 style prefix. obj_set prefix (obj_reduce style r []) o1) t) p =
     (case obj_get sts p of Some st \<Rightarrow> Some (obj_reduce st r []) | None \<Rightarrow> obj_get t p)"
proof (induction sts arbitrary: t)
  case (Cons kv sts)
  obtain k v where kv: "kv = (k, v)" by (cases kv)
  have "obj_get sts k = None" using Cons.prems by (simp add: kv map_of_eq_None_iff)
  then show ?case using Cons by (auto simp: kv js_simps split: option.splits)
qed simp

lemma get_lookup:
  "distinct (obj_keys sts) \<Longrightarrow>
     obj_get (lookup sts r) p = map_option (\<lambda>st. obj_reduce st r []) (obj_get sts p)"
  by (simp add: lookup_def get_lookup_aux split: option.splits)

text \<open>The last icon of a pack with the given code point; the last icon with the given ligature.\<close>

definition unicode_owner :: "icon_def obj \<Rightarrow> string \<Rightarrow> string option" where
  "unicode_owner st u =
     (if u = [] then None else map_of (rev (map (\<lambda>(n, i). (unicode i, n)) st)) u)"

definition ligature_owner :: "icon_def obj \<Rightarrow> string \<Rightarrow> string option" where
  "ligature_owner st l =
     map_of (rev (concat (map (\<lambda>(n, i). (n, n) # map (\<lambda>l. (l, n)) (ligatures i)) st))) l"

lemma map_of_append: "map_of (xs @ ys) k = (case map_of xs k of Some v \<Rightarrow> Some v | None \<Rightarrow> map_of ys k)"
  by (simp add: map_add_def)

lemma get_unicode_table:
  "u \<noteq> [] \<Longrightarrow> obj_get (obj_reduce st unicode_reducer t) u =
     (case unicode_owner st u of Some n \<Rightarrow> Some n | None \<Rightarrow> obj_get t u)"
  by (induction st arbitrary: t)
    (auto simp: unicode_owner_def unicode_reducer_def js_simps map_of_append split: option.splits)

lemma empty_unicode_table:
  "obj_get t [] = None \<Longrightarrow> obj_get (obj_reduce st unicode_reducer t) [] = None"
proof (induction st arbitrary: t)
  case (Cons ki st)
  obtain k i where ki: "ki = (k, i)" by (cases ki)
  have "obj_get (unicode_reducer t i k) [] = None"
    using Cons.prems by (simp add: unicode_reducer_def js_simps)
  with Cons.IH show ?case by (simp add: ki)
qed simp

lemma get_ligatures:
  "obj_get (fold (\<lambda>l. obj_set l n) ls t) l =
     (case map_of (rev (map (\<lambda>l. (l, n)) ls)) l of Some m \<Rightarrow> Some m | None \<Rightarrow> obj_get t l)"
  by (induction ls arbitrary: t) (auto simp: js_simps map_of_append split: option.splits)

lemma get_ligature_table:
  "obj_get (obj_reduce st ligature_reducer t) l =
     (case ligature_owner st l of Some n \<Rightarrow> Some n | None \<Rightarrow> obj_get t l)"
  by (induction st arbitrary: t)
    (auto simp: ligature_owner_def ligature_reducer_def js_simps map_of_append get_ligatures split: option.splits)

text \<open>The operations on the registry once the hooks are installed.\<close>

inductive registry_op :: "fa_state \<Rightarrow> fa_state \<Rightarrow> bool" where
  op_define: "registry_op s (defineIcons False prefix icons s)"
| op_shims: "registry_op s (addShims new s)"
| op_add: "registry_op s (library_add args s)"
| op_reset: "registry_op s (library_reset s)"

inductive registry_reach :: "fa_state \<Rightarrow> fa_state \<Rightarrow> bool" for s where
  registry_start: "registry_reach s (build (install_hooks s))"
| registry_step: "registry_reach s t \<Longrightarrow> registry_op t u \<Longrightarrow> registry_reach s u"

definition in_sync :: "fa_state \<Rightarrow> bool" where
  "in_sync s \<longleftrightarrow> build s = s \<and> hooks s \<and> distinct (obj_keys (styles s))"

lemma autoReplace_simps [simp]:
  "styles (autoReplace s) = styles s" "hooks (autoReplace s) = hooks s"
  "shims (autoReplace s) = shims s" "build (autoReplace s) = autoReplace (build s)"
  "definitions (autoReplace s) = definitions s" "by_old_name (autoReplace s) = by_old_name s"
  by (simp_all add: autoReplace_def build_def)

lemma build_simps [simp]:
  "styles (build s) = styles s" "hooks (build s) = hooks s" "shims (build s) = shims s"
  "definitions (build s) = definitions s" "build (build s) = build s"
  by (simp_all add: build_def)

lemma put_style_simps [simp]:
  "hooks (put_style p icons s) = hooks s" "shims (put_style p icons s) = shims s"
  "definitions (put_style p icons s) = definitions s"
  "styles (put_style p icons s) =
     obj_set p (object_spread (object_spread [] (get_or_empty (styles s) p)) icons) (styles s)"
  by (simp_all add: put_style_def)

lemma in_sync_register: "in_sync s \<Longrightarrow> in_sync (register_icons False p icons s)"
  by (simp add: in_sync_def register_icons_def addPack_def distinct_update)

lemma in_sync_define: "in_sync s \<Longrightarrow> in_sync (defineIcons False p icons s)"
  by (simp add: defineIcons_def Let_def in_sync_register)

lemma build_definitions: "build (s\<lparr>definitions := d\<rparr>) = (build s)\<lparr>definitions := d\<rparr>"
  by (simp add: build_def)

lemma in_sync_definitions: "in_sync s \<Longrightarrow> in_sync (s\<lparr>definitions := d\<rparr>)"
  by (simp add: in_sync_def build_definitions)

lemma in_sync_build: "in_sync s \<Longrightarrow> build s = s"
  by (simp add: in_sync_def)

lemma in_sync_add: "in_sync s \<Longrightarrow> in_sync (add_additions ki s)"
  by (cases ki)
    (simp add: add_additions_def in_sync_define in_sync_definitions in_sync_build)

lemma in_sync_fold_add: "in_sync s \<Longrightarrow> in_sync (fold add_additions kis s)"
  by (induction kis arbitrary: s) (auto simp: in_sync_add)

lemma registry_reach_sync:
  "registry_reach s t \<Longrightarrow> distinct (obj_keys (styles s)) \<Longrightarrow> in_sync t"
proof (induction rule: registry_reach.induct)
  case registry_start
  then show ?case by (simp add: in_sync_def install_hooks_def)
next
  case (registry_step t u)
  then have t: "in_sync t" by simp
  from registry_step(2) show ?case
  proof cases
    case op_shims
    then show ?thesis using t by (simp add: in_sync_def addShims_def)
  qed (simp_all add: t in_sync_define library_add_def in_sync_fold_add library_reset_def in_sync_definitions)
qed

text \<open>
  C15: Once the hooks are installed the lookup tables never lag behind the registry: after
  any sequence of packs, shims, library additions and resets, a code point or ligature
  resolves, in a registered style, to the last icon of the style that claims it, and in a
  style that is not registered the lookup throws.
\<close>

theorem lookups_in_sync:
  assumes "registry_reach s t" "distinct (obj_keys (styles s))"
  shows "byUnicode t p u = (case obj_get (styles t) p of
      None \<Rightarrow> Inl TypeError | Some st \<Rightarrow> Inr (unicode_owner st u)) \<and>
    byLigature t p l = (case obj_get (styles t) p of
      None \<Rightarrow> Inl TypeError | Some st \<Rightarrow> Inr (ligature_owner st l))"
proof -
  have b: "build t = t" "distinct (obj_keys (styles t))"
    using registry_reach_sync [OF assms] by (simp_all add: in_sync_def)
  have u: "by_unicode t = lookup (styles t) unicode_reducer"
    using arg_cong [OF b(1), of by_unicode] by (simp add: build_def)
  have l: "by_ligature t = lookup (styles t) ligature_reducer"
    using arg_cong [OF b(1), of by_ligature] by (simp add: build_def)
  have e: "obj_get (obj_reduce st unicode_reducer []) u = unicode_owner st u" for st
    using get_unicode_table [of u st "[]"] empty_unicode_table [of "[]" st]
    by (cases "u = []") (auto simp: unicode_owner_def split: option.splits)
  show ?thesis
    using get_lookup [OF b(2)] e
    by (auto simp: byUnicode_def byLigature_def u l get_ligature_table split: option.splits)
qed

definition demo_icon :: "string \<Rightarrow> icon_def" where
  "demo_icon u = \<lparr>iwidth = 512, iheight = 512, ligatures = [], unicode = u, ipath = ''M0''\<rparr>"

definition demo_fa :: fa_state where
  "demo_fa = \<lparr>config = default_config, is_dom = True, styles = [], shims = [], hooks = False,
     by_unicode = [], by_ligature = [], by_old_name = [], definitions = [], replacements = 0\<rparr>"

definition demo_pack :: "icon_entry obj" where
  "demo_pack = [(''glass-martini'', Plain (demo_icon ''f000'')), (''cogs'', Expanded ''cog'' (demo_icon ''f013''))]"

theorem lookups_in_sync_witness:
  "byUnicode (defineIcons False ''fas'' demo_pack (build (install_hooks demo_fa))) ''fa'' ''f013'' =
     Inr (Some ''cog'') \<and>
   byUnicode (defineIcons False ''fas'' demo_pack (build (install_hooks demo_fa))) ''fab'' ''f013'' =
     Inl TypeError"
proof -
  let ?t = "defineIcons False ''fas'' demo_pack (build (install_hooks demo_fa))"
  have r: "registry_reach demo_fa ?t"
    by (rule registry_step [OF registry_start op_define])
  have d: "distinct (obj_keys (styles demo_fa))" by (simp add: demo_fa_def)
  have s: "styles ?t = [(''fas'', [(''glass-martini'', demo_icon ''f000''), (''cog'', demo_icon ''f013'')]),
      (''fa'', [(''glass-martini'', demo_icon ''f000''), (''cog'', demo_icon ''f013'')])]"
    by (simp add: defineIcons_def Let_def register_icons_def addPack_def install_hooks_def demo_fa_def
        demo_pack_def normalize_icons_def get_or_empty_def)
  show ?thesis
    using lookups_in_sync [OF r d, of "''fa''" "''f013''"] lookups_in_sync [OF r d, of "''fab''" "''f013''"]
    by (simp add: s unicode_owner_def demo_icon_def)
qed

subsection \<open>The alias of the solid style\<close>

text \<open>Definitions of packs other than \<open>fa\<close> itself, with or without hooks.\<close>

inductive define_reach :: "fa_state \<Rightarrow> fa_state \<Rightarrow> bool" for s where
  define_start: "define_reach s s"
| define_step: "define_reach s t \<Longrightarrow> prefix \<noteq> ''fa'' \<Longrightarrow> define_reach s (defineIcons skip prefix icons t)"
| define_hooks: "define_reach s t \<Longrightarrow> define_reach s (install_hooks t)"
| define_shims: "define_reach s t \<Longrightarrow> define_reach s (addShims new t)"

lemma styles_register:
  "styles (register_icons skip p icons s) =
     obj_set p (object_spread (object_spread [] (get_or_empty (styles s) p)) (normalize_icons icons)) (styles s)"
  by (simp add: register_icons_def addPack_def)

lemma get_styles_register:
  "obj_get (styles (register_icons skip p icons s)) k =
     (if k = p then Some (object_spread (object_spread [] (get_or_empty (styles s) p)) (normalize_icons icons))
      else obj_get (styles s) k)"
  by (simp add: styles_register js_simps)

text \<open>
  The version 4 prefix \<open>fa\<close> stays an exact alias of the solid style: in every state
  reached by defining packs (under any other prefix), before or after the hooks are
  installed, both prefixes hold the same icons.
\<close>

theorem fa_alias:
  assumes "define_reach s t" "obj_get (styles s) ''fa'' = obj_get (styles s) ''fas''"
  shows "obj_get (styles t) ''fa'' = obj_get (styles t) ''fas''"
  using assms
proof (induction rule: define_reach.induct)
  case (define_step t prefix skip icons)
  then show ?case
    by (cases "prefix = ''fas''")
      (auto simp: defineIcons_def Let_def get_styles_register get_or_empty_def)
qed (simp_all add: install_hooks_def addShims_def)

theorem fa_alias_witness:
  "obj_get (styles (defineIcons True ''fas'' demo_pack (install_hooks demo_fa))) ''fa'' =
   obj_get (styles (defineIcons True ''fas'' demo_pack (install_hooks demo_fa))) ''fas''"
  by (rule fa_alias [OF define_step [OF define_hooks [OF define_start]]])
    (simp_all add: demo_fa_def)

subsection \<open>Adding to the library\<close>

definition arg_defs :: "lib_arg list \<Rightarrow> icon_definition list" where
  "arg_defs args = concat (map (\<lambda>a. case a of Single d \<Rightarrow> [d] | Pack ds \<Rightarrow> map snd ds) args)"

lemma pull_fold: "fold pullDefinitions args a = fold pull_one (arg_defs args) a"
  by (induction args arbitrary: a) (auto simp: arg_defs_def pullDefinitions_def split: lib_arg.splits)

definition get2 :: "'v obj obj \<Rightarrow> string \<Rightarrow> string \<Rightarrow> 'v option" where
  "get2 m p n = obj_get (get_or_empty m p) n"

lemma get2_pull_one:
  "get2 (pull_one d a) p n = (if p = def_prefix d \<and> n = def_name d then Some (def_icon d) else get2 a p n)"
  by (simp add: get2_def pull_one_def get_or_empty_def js_simps)

lemma get2_pull:
  "get2 (fold pull_one ds a) p n =
     (case map_of (rev (map (\<lambda>d. ((def_prefix d, def_name d), def_icon d)) ds)) (p, n) of
        Some i \<Rightarrow> Some i | None \<Rightarrow> get2 a p n)"
  by (induction ds arbitrary: a) (auto simp: get2_pull_one map_of_append split: option.splits)

definition wf2 :: "'v obj obj \<Rightarrow> bool" where
  "wf2 m \<longleftrightarrow> distinct (obj_keys m) \<and> (\<forall>(k, v) \<in> set m. distinct (obj_keys v))"

lemma wf2_get: "wf2 m \<Longrightarrow> distinct (obj_keys (get_or_empty m p))"
  by (auto simp: wf2_def get_or_empty_def dest!: map_of_SomeD split: option.splits)

lemma wf2_set: "wf2 m \<Longrightarrow> distinct (obj_keys v) \<Longrightarrow> wf2 (obj_set p v m)"
  using set_obj_set [of p v m] by (fastforce simp: wf2_def distinct_update)

lemma wf2_pull: "wf2 a \<Longrightarrow> wf2 (fold pull_one ds a)"
  by (induction ds arbitrary: a) (auto simp: pull_one_def intro!: wf2_set distinct_update wf2_get)

lemma definitions_define [simp]: "definitions (defineIcons skip p icons s) = definitions s"
  by (simp add: defineIcons_def Let_def register_icons_def addPack_def)

lemma definitions_add:
  "get2 (definitions (add_additions (key, icons) s)) p n =
     (if p = key \<and> distinct (obj_keys icons) then
        (case obj_get icons n of Some i \<Rightarrow> Some i | None \<Rightarrow> get2 (definitions s) p n)
      else get2 (definitions (add_additions (key, icons) s)) p n)"
  if "distinct (obj_keys (get_or_empty (definitions s) key))"
  using that
  by (auto simp: add_additions_def get2_def get_or_empty_def js_simps spread_empty split: option.splits)

lemma definitions_add_other:
  "p \<noteq> key \<Longrightarrow> get2 (definitions (add_additions (key, icons) s)) p n = get2 (definitions s) p n"
  by (simp add: add_additions_def get2_def get_or_empty_def js_simps)

lemma wf2_definitions_add:
  "wf2 (definitions s) \<Longrightarrow> wf2 (definitions (add_additions ki s))"
  by (cases ki) (auto simp: add_additions_def intro!: wf2_set distinct_spread)

lemma definitions_fold_add:
  assumes "wf2 kis" "wf2 (definitions s)"
  shows "get2 (definitions (fold add_additions kis s)) p n =
    (case get2 kis p n of Some i \<Rightarrow> Some i | None \<Rightarrow> get2 (definitions s) p n)"
  using assms
proof (induction kis arbitrary: s)
  case Nil
  then show ?case by (simp add: get2_def get_or_empty_def)
next
  case (Cons ki kis)
  obtain k icons where ki: "ki = (k, icons)" by (cases ki)
  have wf: "wf2 kis" "distinct (obj_keys icons)" "obj_get kis k = None"
    using Cons.prems(1) by (auto simp: wf2_def ki map_of_eq_None_iff)
  have IH: "get2 (definitions (fold add_additions (ki # kis) s)) p n =
      (case get2 kis p n of Some i \<Rightarrow> Some i | None \<Rightarrow> get2 (definitions (add_additions ki s)) p n)"
    using Cons.IH [OF wf(1) wf2_definitions_add [OF Cons.prems(2)]] by simp
  have c: "get2 (ki # kis) p n = (if p = k then obj_get icons n else get2 kis p n)"
    by (simp add: get2_def get_or_empty_def ki)
  show ?case
  proof (cases "p = k")
    case True
    have "get2 kis p n = None" using wf(3) True by (simp add: get2_def get_or_empty_def)
    then show ?thesis
      using IH definitions_add [OF wf2_get [OF Cons.prems(2)], of k icons p n] wf(2) True
      unfolding c by (simp add: ki)
  next
    case False
    then show ?thesis
      using IH definitions_add_other [OF False, of icons s n, folded ki] False unfolding c
      by (simp split: option.splits)
  qed
qed

text \<open>
  \<open>library.add\<close> makes every definition it is given findable: afterwards a lookup by
  prefix and name yields the last definition given for that prefix and name, whatever mix of
  single definitions and packs the arguments were, and shadows what the registry held.
\<close>

theorem library_add_findable:
  assumes "wf2 (definitions s)" "n \<noteq> []"
    and "map_of (rev (map (\<lambda>d. ((def_prefix d, def_name d), def_icon d)) (arg_defs args))) (p, n) = Some i"
  shows "findIconDefinition (Some p) (Some n) (library_add args s) =
    Some \<lparr>def_prefix = p, def_name = n, def_icon = i\<rparr>"
proof -
  have "get2 (fold pullDefinitions args []) p n = Some i"
    using assms(3) by (simp add: pull_fold get2_pull)
  moreover have "wf2 (fold pullDefinitions args [])"
    unfolding pull_fold by (rule wf2_pull) (simp add: wf2_def)
  ultimately have "get2 (definitions (library_add args s)) p n = Some i"
    using definitions_fold_add [OF _ assms(1), of "fold pullDefinitions args []" p n]
    by (simp add: library_add_def)
  then show ?thesis
    using assms(2)
    by (auto simp: findIconDefinition_def iconFromMapping_def get2_def get_or_empty_def split: option.splits)
qed

theorem library_add_findable_witness:
  "findIconDefinition (Some ''fas'') (Some ''cog'') (library_add [Pack
      [(''faCog'', \<lparr>def_prefix = ''fas'', def_name = ''cog'', def_icon = demo_icon ''f013''\<rparr>)]] demo_fa) =
    Some \<lparr>def_prefix = ''fas'', def_name = ''cog'', def_icon = demo_icon ''f013''\<rparr>"
  by (rule library_add_findable) (simp_all add: demo_fa_def wf2_def arg_defs_def)

subsection \<open>Reading an icon off a class list\<close>

definition resolved :: "fa_state \<Rightarrow> string \<Rightarrow> string \<Rightarrow> string option \<times> string option" where
  "resolved s p n = (if p = ''fa'' then
      (case byOldName s n of (sp, sn) \<Rightarrow>
        (Some (case sp of Some q \<Rightarrow> q | None \<Rightarrow> p), Some (case sn of Some m \<Rightarrow> m | None \<Rightarrow> n)))
    else (Some p, Some n))"

lemma canonical_icon:
  assumes "is_prefix_class s p" "\<not> is_prefix_class s (fp @ ''-'' @ n)"
    and "cfg ''familyPrefix'' s = Some (CStr fp)" "CHR ''-'' \<notin> set fp" "n \<noteq> []" "\<not> isReserved n"
    and "\<forall>c \<in> set (us @ vs @ ws). plain_class s c \<or> ignored_class s c"
  shows "getCanonicalIcon s (us @ [p] @ vs @ [fp @ ''-'' @ n] @ ws) =
    \<lparr>cprefix = fst (resolved s p n), cname = snd (resolved s p n),
     crest = filter (plain_class s) (us @ vs @ ws)\<rparr>"
proof -
  have skip: "fold (canonical_step s) cs acc = acc\<lparr>crest := crest acc @ filter (plain_class s) cs\<rparr>"
    if "\<forall>c \<in> set cs. plain_class s c \<or> ignored_class s c" for cs acc
    using that
  proof (induction cs arbitrary: acc)
    case (Cons c cs)
    then show ?case
    proof (cases "plain_class s c")
      case False
      with Cons have "ignored_class s c" by simp
      with Cons False show ?thesis by (simp add: canonical_ignored)
    qed (simp add: canonical_plain)
  qed simp
  have p: "canonical_step s p acc = acc\<lparr>cprefix := Some p\<rparr>" for acc
    using assms(1) by (simp add: canonical_step_def)
  have n: "getIconName (cfg ''familyPrefix'' s) (fp @ ''-'' @ n) = Some n"
    using assms(3-6) getIconName_icon by simp
  have step: "canonical_step s (fp @ ''-'' @ n) \<lparr>cprefix = Some p, cname = None, crest = r\<rparr> =
      \<lparr>cprefix = fst (resolved s p n), cname = snd (resolved s p n), crest = r\<rparr>" for r
    using assms(2) n unfolding canonical_step_def
    by (auto simp: resolved_def split: option.splits prod.splits)
  have w: "\<forall>c \<in> set us. plain_class s c \<or> ignored_class s c"
    "\<forall>c \<in> set vs. plain_class s c \<or> ignored_class s c" "\<forall>c \<in> set ws. plain_class s c \<or> ignored_class s c"
    using assms(7) by auto
  have fp: "fold (canonical_step s) (us @ [p] @ vs @ [fp @ ''-'' @ n] @ ws) emptyCanonicalIcon =
      fold (canonical_step s) ws (canonical_step s (fp @ ''-'' @ n)
        \<lparr>cprefix = Some p, cname = None, crest = filter (plain_class s) (us @ vs)\<rparr>)"
    by (simp only: fold_append comp_def fold_simps skip [OF w(1)] skip [OF w(2)] p)
      (simp add: emptyCanonicalIcon_def)
  show ?thesis
    unfolding getCanonicalIcon_def fp step skip [OF w(3)] by simp
qed

text \<open>
  A class list with one style prefix followed by one icon class names that icon, resolved
  through the version 4 shims exactly when the prefix is \<open>fa\<close>; the classes before, between
  and after them that have no meaning to Font Awesome are kept in order, and the
  replacement class and the width classes are dropped.
\<close>

theorem canonical_icon_of_markup:
  assumes "is_prefix_class s p" "\<not> is_prefix_class s (fp @ ''-'' @ n)"
    and "cfg ''familyPrefix'' s = Some (CStr fp)" "CHR ''-'' \<notin> set fp" "n \<noteq> []" "\<not> isReserved n"
    and "\<forall>c \<in> set (us @ vs @ ws). plain_class s c \<or> ignored_class s c"
  shows "getCanonicalIcon s (us @ [p] @ vs @ [fp @ ''-'' @ n] @ ws) =
    \<lparr>cprefix = fst (resolved s p n), cname = snd (resolved s p n),
     crest = filter (plain_class s) (us @ vs @ ws)\<rparr>"
  by (rule canonical_icon [OF assms])

theorem canonical_icon_of_markup_witness:
  "getCanonicalIcon (addShims [(''gear'', None, Some ''cog'')] (defineIcons False ''fas'' demo_pack demo_fa))
     ([''w3-button''] @ [''fa''] @ [''fa-fw''] @ [''fa'' @ ''-'' @ ''gear''] @ [''fa-w-16'']) =
   \<lparr>cprefix = Some ''fa'', cname = Some ''cog'', crest = [''w3-button'', ''fa-fw'']\<rparr>"
proof -
  let ?s = "addShims [(''gear'', None, Some ''cog'')] (defineIcons False ''fas'' demo_pack demo_fa)"
  have st: "map fst (styles ?s) = [''fas'', ''fa'']" "config ?s = default_config"
    "by_old_name ?s = [(''gear'', (None, Some ''cog''))]"
    by (simp_all add: defineIcons_def Let_def register_icons_def addShims_def demo_fa_def build_def
        put_style_def autoReplace_def shim_reducer_def)
  have pre: "is_prefix_class ?s c \<longleftrightarrow> c \<in> {''fas'', ''fa''}" for c
    using st(1,2) by (auto simp: is_prefix_class_def default_config_def map_of_eq_None_iff
        simp flip: list.set_map)
  have r: "isReserved ''fw''" "isReserved ''w-16''" "\<not> isReserved ''gear''" "\<not> isReserved ''cog''"
    by code_simp+
  have i: "getIconName (Some (CStr ''fa'')) ''w3-button'' = None"
    "getIconName (Some (CStr ''fa'')) ''fa-fw'' = None" "getIconName (Some (CStr ''fa'')) ''fa-w-16'' = None"
    by code_simp+
  have c: "cfg ''familyPrefix'' ?s = Some (CStr ''fa'')" "cfg ''replacementClass'' ?s = Some (CStr ''svg-inline--fa'')"
    by (simp_all add: st(2) default_config_def DEFAULT_FAMILY_PREFIX_def DEFAULT_REPLACEMENT_CLASS_def)
  have pl: "plain_class ?s ''w3-button''" "plain_class ?s ''fa-fw''" "ignored_class ?s ''fa-w-16''"
    "\<not> plain_class ?s ''fa-w-16''"
    unfolding plain_class_def ignored_class_def pre c by (simp_all add: i)
  have "resolved ?s ''fa'' ''gear'' = (Some ''fa'', Some ''cog'')"
    by (simp add: resolved_def byOldName_def st(3))
  then show ?thesis
    by (subst canonical_icon_of_markup [where fp = "''fa''" and n = "''gear''"])
      (use pl r c in \<open>simp_all add: pre\<close>)
qed

end
