(* ===== verification/Fa_Svg.thy ===== *)
theory Fa_Svg
  imports Fa_Html Fa_Library
begin

text \<open>
  \<^verbatim>\<open>web-admin/fontawesome/js/fontawesome.js\<close>, lines 730-1057, 1636-1742 and 2059-2075: rendering
  an icon as an abstract SVG tree.
\<close>

subsection \<open>Parameters\<close>

record icon_val =
  found :: bool
  vwidth :: jsnum
  vheight :: jsnum
  vicon :: anode

record extras =
  xclasses :: "string list"
  xstyles :: "string obj"
  xattributes :: "aval obj"

datatype symbol = NoSymbol | SymbolTrue | SymbolId string

definition str_attr :: "string option \<Rightarrow> aval" where
  "str_attr v = (case v of None \<Rightarrow> ANull | Some s \<Rightarrow> AStr s)"

text \<open>A string that is absent, null or empty counts as false.\<close>

definition given :: "string option \<Rightarrow> bool" where
  "given v \<longleftrightarrow> v \<noteq> None \<and> v \<noteq> Some []"

subsection \<open>The icon itself\<close>

definition FILL :: "aval obj" where "FILL = [(''fill'', AStr ''currentColor'')]"

definition path_icon :: "string \<Rightarrow> anode" where
  "path_icon d = AElem ''path'' [(''fill'', AStr ''currentColor''), (''d'', AStr d)] []"

definition prepIcon :: "icon_def \<Rightarrow> icon_val" where
  "prepIcon i = \<lparr>found = True, vwidth = Fin (of_nat (iwidth i)), vheight = Fin (of_nat (iheight i)),
     vicon = path_icon (ipath i)\<rparr>"

text \<open>The icon shown for a missing icon: an animated question mark in a ring.\<close>

definition RING_path :: string where
  "RING_path = ''M156.5,447.7l-12.6,29.5c-18.7-9.5-35.9-21.2-51.5-34.9l22.7-22.7C127.6,430.5,141.5,440,15''
     @ ''6.5,447.7z M40.6,272H8.5 c1.4,21.2,5.4,41.7,11.7,61.1L50,321.2C45.1,305.5,41.8,289,40.6,''
     @ ''272z M40.6,240c1.4-18.8,5.2-37,11.1-54.1l-29.5-12.6 C14.7,194.3,10,216.7,8.5,240H40.6z M''
     @ ''64.3,156.5c7.8-14.9,17.2-28.8,28.1-41.5L69.7,92.3c-13.7,15.6-25.5,32.8-34.9,51.5 L64.3,1''
     @ ''56.5z M397,419.6c-13.9,12-29.4,22.3-46.1,30.4l11.9,29.8c20.7-9.9,39.8-22.6,56.9-37.6L397''
     @ '',419.6z M115,92.4 c13.9-12,29.4-22.3,46.1-30.4l-11.9-29.8c-20.7,9.9-39.8,22.6-56.8,37.6L''
     @ ''115,92.4z M447.7,355.5c-7.8,14.9-17.2,28.8-28.1,41.5 l22.7,22.7c13.7-15.6,25.5-32.9,34.9''
     @ ''-51.5L447.7,355.5z M471.4,272c-1.4,18.8-5.2,37-11.1,54.1l29.5,12.6 c7.5-21.1,12.2-43.5,1''
     @ ''3.6-66.8H471.4z M321.2,462c-15.7,5-32.2,8.2-49.2,9.4v32.1c21.2-1.4,41.7-5.4,61.1-11.7L32''
     @ ''1.2,462z M240,471.4c-18.8-1.4-37-5.2-54.1-11.1l-12.6,29.5c21.1,7.5,43.5,12.2,66.8,13.6V4''
     @ ''71.4z M462,190.8c5,15.7,8.2,32.2,9.4,49.2h32.1 c-1.4-21.2-5.4-41.7-11.7-61.1L462,190.8z ''
     @ ''M92.4,397c-12-13.9-22.3-29.4-30.4-46.1l-29.8,11.9c9.9,20.7,22.6,39.8,37.6,56.9 L92.4,397''
     @ ''z M272,40.6c18.8,1.4,36.9,5.2,54.1,11.1l12.6-29.5C317.7,14.7,295.3,10,272,8.5V40.6z M190''
     @ ''.8,50 c15.7-5,32.2-8.2,49.2-9.4V8.5c-21.2,1.4-41.7,5.4-61.1,11.7L190.8,50z M442.3,92.3L4''
     @ ''19.6,115c12,13.9,22.3,29.4,30.5,46.1 l29.8-11.9C470,128.5,457.3,109.4,442.3,92.3z M397,9''
     @ ''2.4l22.7-22.7c-15.6-13.7-32.8-25.5-51.5-34.9l-12.6,29.5 C370.4,72.1,384.4,81.5,397,92.4z''"

definition QUESTION_path :: string where
  "QUESTION_path = ''M263.7,312h-16c-6.6,0-12-5.4-12-12c0-71,77.4-63.9,77.4-107.8c0-20-17.8-40.2-57.4-40.2c-2''
     @ ''9.1,0-44.3,9.6-59.2,28.7 c-3.9,5-11.1,6-16.2,2.4l-13.1-9.2c-5.6-3.9-6.9-11.8-2.6-17.2c21''
     @ ''.2-27.2,46.4-44.7,91.2-44.7c52.3,0,97.4,29.8,97.4,80.2 c0,67.6-77.4,63.5-77.4,107.8C275.''
     @ ''7,306.6,270.3,312,263.7,312z''"

definition EXCLAMATION_path :: string where
  "EXCLAMATION_path = ''M232.5,134.5l7,168c0.3,6.4,5.6,11.5,12,11.5h9c6.4,0,11.7-5.1,12-11.5l7-168c0.3-6.8-5.2-1''
     @ ''2.5-12-12.5h-23 C237.7,122,232.2,127.7,232.5,134.5z''"

definition ANIMATION_BASE :: "aval obj" where
  "ANIMATION_BASE = [(''attributeType'', AStr ''XML''), (''repeatCount'', AStr ''indefinite''), (''dur'', AStr ''2s'')]"

definition OPACITY_ANIMATE :: "aval obj" where
  "OPACITY_ANIMATE = object_spread ANIMATION_BASE [(''attributeName'', AStr ''opacity'')]"

definition RING :: anode where
  "RING = AElem ''path'' (object_spread FILL [(''d'', AStr RING_path)]) []"

definition DOT :: anode where
  "DOT = AElem ''circle'' (object_spread FILL [(''cx'', AStr ''256''), (''cy'', AStr ''364''), (''r'', AStr ''28'')])
     [AElem ''animate'' (object_spread ANIMATION_BASE
        [(''attributeName'', AStr ''r''), (''values'', AStr ''28;14;28;28;14;28;'')]) [],
      AElem ''animate'' (object_spread OPACITY_ANIMATE [(''values'', AStr ''1;0;1;1;0;1;'')]) []]"

definition QUESTION :: anode where
  "QUESTION = AElem ''path'' (object_spread FILL [(''opacity'', AStr ''1''), (''d'', AStr QUESTION_path)])
     [AElem ''animate'' (object_spread OPACITY_ANIMATE [(''values'', AStr ''1;0;0;0;0;1;'')]) []]"

definition EXCLAMATION :: anode where
  "EXCLAMATION = AElem ''path'' (object_spread FILL [(''opacity'', AStr ''0''), (''d'', AStr EXCLAMATION_path)])
     [AElem ''animate'' (object_spread OPACITY_ANIMATE [(''values'', AStr ''0;0;1;1;0;0;'')]) []]"

definition missing :: anode where
  "missing = AElem ''g'' [] [RING, DOT, QUESTION, EXCLAMATION]"

text \<open>
  \<open>findIcon\<close> settles at once: with the icon, with the picture of a missing icon, or with a
  rejection when missing icons are not to be shown.
\<close>

definition findIcon :: "fa_state \<Rightarrow> string option \<Rightarrow> string option \<Rightarrow> js_error + icon_val" where
  "findIcon s iconName prefix =
     (let val = \<lparr>found = False, vwidth = Fin 512, vheight = Fin 512, vicon = missing\<rparr>;
          hit = (if given iconName \<and> given prefix then
             (case obj_get (styles s) (the prefix) of
                None \<Rightarrow> None | Some st \<Rightarrow> obj_get st (the iconName)) else None)
      in case hit of
           Some i \<Rightarrow> Inr (prepIcon i)
         | None \<Rightarrow>
            (if given iconName \<and> given prefix \<and> \<not> truthy (cfg ''showMissingIcons'' s)
             then Inl (RuntimeError (''Icon is missing for prefix '' @ the prefix @ '' with icon name '' @ the iconName))
             else Inr val))"

subsection \<open>Parts of the tree\<close>

definition ALL_SPACE :: "aval obj" where
  "ALL_SPACE = [(''x'', ANum (Fin 0)), (''y'', ANum (Fin 0)), (''width'', AStr ''100%''), (''height'', AStr ''100%'')]"

fun with_attrs :: "aval obj \<Rightarrow> anode \<Rightarrow> anode" where
  "with_attrs new (AElem tag as cs) = AElem tag (object_spread as new) cs"
| "with_attrs new (AText s) = AText s"

fun node_attrs :: "anode \<Rightarrow> aval obj" where
  "node_attrs (AElem tag as cs) = as"
| "node_attrs (AText s) = []"

definition tr_attr :: "string \<Rightarrow> aval obj" where
  "tr_attr t = [(''transform'', AStr t)]"

text \<open>The children and attributes of the svg element under construction.\<close>

type_synonym content = "anode list \<times> aval obj"

definition makeIconMasking :: "icon_val \<Rightarrow> icon_val \<Rightarrow> transform \<Rightarrow> (nat \<Rightarrow> nat) \<Rightarrow> nat \<Rightarrow> content \<Rightarrow> content \<times> nat" where
  "makeIconMasking main msk t draw k = (\<lambda>(children, attributes).
     let trans = transformForSvg t (vwidth msk) (vwidth main);
         maskRect = AElem ''rect'' (object_spread ALL_SPACE [(''fill'', AStr ''white'')]) [];
         maskInnerGroup = AElem ''g'' (tr_attr (inner_tr trans))
           [AElem ''path'' (object_spread (object_spread (node_attrs (vicon main)) (tr_attr (path_tr trans)))
              [(''fill'', AStr ''black'')]) []];
         maskOuterGroup = AElem ''g'' (tr_attr (outer_tr trans)) [maskInnerGroup];
         (id1, k) = nextUniqueId draw k; maskId = ''mask-'' @ id1;
         (id2, k) = nextUniqueId draw k; clipId = ''clip-'' @ id2;
         maskTag = AElem ''mask'' (object_spread ALL_SPACE [(''id'', AStr maskId),
            (''maskUnits'', AStr ''userSpaceOnUse''), (''maskContentUnits'', AStr ''userSpaceOnUse'')])
            [maskRect, maskOuterGroup];
         defs = AElem ''defs'' [] [AElem ''clipPath'' [(''id'', AStr clipId)] [vicon msk], maskTag];
         rect = AElem ''rect'' (object_spread [(''fill'', AStr ''currentColor''),
            (''clip-path'', AStr (''url(#'' @ clipId @ '')'')), (''mask'', AStr (''url(#'' @ maskId @ '')''))]
            ALL_SPACE) []
     in ((children @ [defs, rect], attributes), k))"

definition makeIconStandard :: "icon_val \<Rightarrow> transform \<Rightarrow> string obj \<Rightarrow> content \<Rightarrow> content" where
  "makeIconStandard main t sty = (\<lambda>(children, attributes).
     let styleString = joinStyles sty;
         attributes = (if length styleString > 0 then obj_set ''style'' (AStr styleString) attributes else attributes)
     in if transformIsMeaningful t then
          (let trans = transformForSvg t (vwidth main) (vwidth main) in
           (children @ [AElem ''g'' (tr_attr (outer_tr trans)) [AElem ''g'' (tr_attr (inner_tr trans))
              [with_attrs (tr_attr (path_tr trans)) (vicon main)]]], attributes))
        else (children @ [vicon main], attributes))"

definition asIcon :: "icon_val \<Rightarrow> icon_val \<Rightarrow> transform \<Rightarrow> string obj \<Rightarrow> content \<Rightarrow> anode list" where
  "asIcon main msk t sty = (\<lambda>(children, attributes).
     let attributes = (if transformIsMeaningful t \<and> found main \<and> \<not> found msk then
           (let ox = num_div (num_div (vwidth main) (vheight main)) (Fin 2); oy = Fin (1 / 2) in
            obj_set ''style'' (AStr (joinStyles (object_spread sty [(''transform-origin'',
              num_str (num_add ox (num_div (tx t) (Fin 16))) @ ''em '' @
              num_str (num_add oy (num_div (ty t) (Fin 16))) @ ''em'')]))) attributes)
           else attributes)
     in [AElem ''svg'' attributes children])"

definition asSymbol :: "fa_state \<Rightarrow> string option \<Rightarrow> string option \<Rightarrow> symbol \<Rightarrow> content \<Rightarrow> anode list" where
  "asSymbol s prefix iconName symb = (\<lambda>(children, attributes).
     let sid = (case symb of SymbolId i \<Rightarrow> i | _ \<Rightarrow>
           aval_text (str_attr prefix) @ ''-'' @ cval_text (cfg ''familyPrefix'' s) @ ''-'' @ aval_text (str_attr iconName))
     in [AElem ''svg'' [(''style'', AStr ''display: none;'')]
          [AElem ''symbol'' (object_spread attributes [(''id'', AStr sid)]) children]])"

subsection \<open>The svg element\<close>

definition width_class :: "icon_val \<Rightarrow> icon_val \<Rightarrow> string" where
  "width_class main msk = (let v = (if found msk then msk else main) in
     ''fa-w-'' @ num_str (num_ceil (num_mul (num_div (vwidth v) (vheight v)) (Fin 16))))"

definition svg_classes :: "fa_state \<Rightarrow> string option \<Rightarrow> string \<Rightarrow> string list \<Rightarrow> string list" where
  "svg_classes s iconName widthClass extra =
     filter (\<lambda>c. c \<notin> set extra)
       [cval_text (cfg ''replacementClass'' s),
        (if given iconName then cval_text (cfg ''familyPrefix'' s) @ ''-'' @ the iconName else []), widthClass]
     @ extra"

definition aval_truthy :: "aval option \<Rightarrow> bool" where
  "aval_truthy v = (case v of None \<Rightarrow> False | Some ANull \<Rightarrow> False
     | Some (AStr x) \<Rightarrow> x \<noteq> [] | Some (ANum n) \<Rightarrow> n \<noteq> Fin 0 \<and> n \<noteq> NaN)"

record svg_params =
  p_main :: icon_val
  p_mask :: icon_val
  p_prefix :: "string option"
  p_iconName :: "string option"
  p_transform :: transform
  p_symbol :: symbol
  p_title :: "string option"
  p_extra :: extras
  p_watchable :: bool

definition svg_content :: "fa_state \<Rightarrow> svg_params \<Rightarrow> (nat \<Rightarrow> nat) \<Rightarrow> nat \<Rightarrow> content \<times> nat" where
  "svg_content s p draw k =
     (let v = (if found (p_mask p) then p_mask p else p_main p);
          attributes = object_spread (object_spread [] (xattributes (p_extra p)))
            [(''data-prefix'', str_attr (p_prefix p)), (''data-icon'', str_attr (p_iconName p)),
             (''class'', AStr (js_join '' '' (svg_classes s (p_iconName p)
                (width_class (p_main p) (p_mask p)) (xclasses (p_extra p))))),
             (''role'', AStr ''img''), (''xmlns'', AStr ''http://www.w3.org/2000/svg''),
             (''viewBox'', AStr (''0 0 '' @ num_str (vwidth v) @ '' '' @ num_str (vheight v)))];
          attributes = (if p_watchable p then obj_set DATA_FA_I2SVG (AStr []) attributes else attributes)
      in if given (p_title p) then
           (let label = obj_get attributes ''aria-labelledby'';
                (tid, k) = (if aval_truthy label then (the label, k)
                   else (let (u, k) = nextUniqueId draw k in (AStr (''title-'' @ u), k)))
            in (([AElem ''title'' [(''id'', tid)] [AText (the (p_title p))]], attributes), k))
         else (([], attributes), k))"

definition symbol_given :: "symbol \<Rightarrow> bool" where
  "symbol_given symb \<longleftrightarrow> symb \<noteq> NoSymbol \<and> symb \<noteq> SymbolId []"

definition makeInlineSvgAbstract :: "fa_state \<Rightarrow> svg_params \<Rightarrow> (nat \<Rightarrow> nat) \<Rightarrow> nat \<Rightarrow> anode list \<times> nat" where
  "makeInlineSvgAbstract s p draw k =
     (let (content, k) = svg_content s p draw k;
          (content, k) = (if found (p_mask p) \<and> found (p_main p)
             then makeIconMasking (p_main p) (p_mask p) (p_transform p) draw k content
             else (makeIconStandard (p_main p) (p_transform p) (xstyles (p_extra p)) content, k))
      in (if symbol_given (p_symbol p) then asSymbol s (p_prefix p) (p_iconName p) (p_symbol p) content
          else asIcon (p_main p) (p_mask p) (p_transform p) (xstyles (p_extra p)) content, k))"

subsection \<open>Layers\<close>

definition title_span :: "string option \<Rightarrow> anode list" where
  "title_span title = (if given title
     then [AElem ''span'' [(''class'', AStr ''sr-only'')] [AText (the title)]] else [])"

definition layer_attributes :: "string option \<Rightarrow> extras \<Rightarrow> aval obj" where
  "layer_attributes title x = object_spread (object_spread (object_spread [] (xattributes x))
     (if given title then [(''title'', AStr (the title))] else []))
     [(''class'', AStr (js_join '' '' (xclasses x)))]"

definition makeLayersTextAbstract :: "bool \<Rightarrow> string \<Rightarrow> dim \<Rightarrow> dim \<Rightarrow> transform \<Rightarrow> string option \<Rightarrow> extras \<Rightarrow> bool \<Rightarrow> anode list" where
  "makeLayersTextAbstract is_ie content width height t title x watchable =
     (let attributes = layer_attributes title x;
          attributes = (if watchable then obj_set DATA_FA_I2SVG (AStr []) attributes else attributes);
          sty = object_spread [] (xstyles x);
          sty = (if transformIsMeaningful t then
             (let v = transformForCss is_ie t width height True in
              obj_set ''-webkit-transform'' v (obj_set ''transform'' v sty)) else sty);
          styleString = joinStyles sty;
          attributes = (if length styleString > 0 then obj_set ''style'' (AStr styleString) attributes else attributes)
      in [AElem ''span'' attributes [AText content]] @ title_span title)"

definition makeLayersCounterAbstract :: "string \<Rightarrow> string option \<Rightarrow> extras \<Rightarrow> anode list" where
  "makeLayersCounterAbstract content title x =
     (let attributes = layer_attributes title x;
          styleString = joinStyles (xstyles x);
          attributes = (if length styleString > 0 then obj_set ''style'' (AStr styleString) attributes else attributes)
      in [AElem ''span'' attributes [AText content]] @ title_span title)"


subsection \<open>Rendered icons are well-formed trees\<close>

definition wf_attrs :: "aval obj \<Rightarrow> bool" where
  "wf_attrs as \<longleftrightarrow> (\<forall>k \<in> set (obj_keys as). wf_name k)"

lemma wf_attrs_iff: "wf_attrs as \<longleftrightarrow> (\<forall>(k, v) \<in> set as. wf_name k)"
  by (auto simp: wf_attrs_def)

lemma wf_attrs_set: "wf_attrs as \<Longrightarrow> wf_name k \<Longrightarrow> wf_attrs (obj_set k v as)"
  using set_obj_set [of k v as] by (fastforce simp: wf_attrs_iff)

lemma wf_attrs_spread: "wf_attrs as \<Longrightarrow> wf_attrs bs \<Longrightarrow> wf_attrs (object_spread as bs)"
  unfolding wf_attrs_def set_keys_spread by blast

lemma wf_attrs_Nil [simp]: "wf_attrs []"
  by (simp add: wf_attrs_def)

lemma wf_attrs_Cons [simp]: "wf_attrs ((k, v) # as) \<longleftrightarrow> wf_name k \<and> wf_attrs as"
  by (simp add: wf_attrs_def)

definition wf_icon :: "anode \<Rightarrow> bool" where
  "wf_icon a \<longleftrightarrow> wf_anode a \<and> \<not> is_text a"

lemma wf_icon_elem: "wf_icon (AElem tag as cs) \<longleftrightarrow> wf_name tag \<and> wf_attrs as \<and>
    (\<forall>c \<in> set cs. wf_anode c) \<and> separated cs"
  by (simp add: wf_icon_def wf_attrs_iff)

lemma separated_elems: "\<forall>c \<in> set cs. \<not> is_text c \<Longrightarrow> separated cs"
  by (induction cs rule: separated.induct) auto

lemma wf_icon_elems: "wf_name tag \<Longrightarrow> wf_attrs as \<Longrightarrow> \<forall>c \<in> set cs. wf_icon c \<Longrightarrow> wf_icon (AElem tag as cs)"
  by (auto simp: wf_icon_elem wf_icon_def wf_attrs_iff intro!: separated_elems)

text \<open>The element and attribute names the renderer uses.\<close>

lemma wf_names:
  "wf_name ''svg''" "wf_name ''g''" "wf_name ''path''" "wf_name ''rect''" "wf_name ''mask''"
  "wf_name ''defs''" "wf_name ''clipPath''" "wf_name ''symbol''" "wf_name ''title''" "wf_name ''circle''"
  "wf_name ''animate''" "wf_name ''span''" "wf_name ''fill''" "wf_name ''d''" "wf_name ''x''" "wf_name ''y''"
  "wf_name ''width''" "wf_name ''height''" "wf_name ''transform''" "wf_name ''id''" "wf_name ''maskUnits''"
  "wf_name ''maskContentUnits''" "wf_name ''clip-path''" "wf_name ''style''" "wf_name ''class''"
  by code_simp+

lemma wf_names2:
  "wf_name ''data-prefix''" "wf_name ''data-icon''" "wf_name ''role''" "wf_name ''xmlns''"
  "wf_name ''viewBox''" "wf_name DATA_FA_I2SVG" "wf_name ''attributeType''" "wf_name ''repeatCount''"
  "wf_name ''dur''" "wf_name ''attributeName''" "wf_name ''values''" "wf_name ''cx''" "wf_name ''cy''"
  "wf_name ''r''" "wf_name ''opacity''"
  by code_simp+

lemmas svg_names = wf_names wf_names2

lemma wf_attrs_consts [simp]:
  "wf_attrs FILL" "wf_attrs ALL_SPACE" "wf_attrs ANIMATION_BASE" "wf_attrs (tr_attr t)"
  "wf_attrs OPACITY_ANIMATE"
  by (simp_all add: FILL_def ALL_SPACE_def ANIMATION_BASE_def tr_attr_def OPACITY_ANIMATE_def
      wf_attrs_set svg_names)

lemma wf_icon_leaf: "wf_name tag \<Longrightarrow> wf_attrs as \<Longrightarrow> wf_icon (AElem tag as [])"
  by (simp add: wf_icon_elem)

lemma wf_path_icon: "wf_icon (path_icon d)"
  by (simp add: path_icon_def wf_icon_leaf svg_names)

lemma wf_missing: "wf_icon missing"
proof -
  have an: "wf_icon (AElem ''animate'' as [])" if "wf_attrs as" for as
    using that by (intro wf_icon_leaf) (simp_all add: svg_names)
  have "wf_icon RING"
    unfolding RING_def by (intro wf_icon_leaf wf_attrs_spread) (simp_all add: svg_names)
  moreover have "wf_icon DOT" "wf_icon QUESTION" "wf_icon EXCLAMATION"
    unfolding DOT_def QUESTION_def EXCLAMATION_def
    by (rule wf_icon_elems; simp add: svg_names an wf_attrs_set)+
  ultimately show ?thesis
    unfolding missing_def by (intro wf_icon_elems) (simp_all add: svg_names)
qed

lemma findIcon_wf: "findIcon s n p = Inr v \<Longrightarrow> wf_icon (vicon v)"
  by (auto simp: findIcon_def Let_def prepIcon_def wf_path_icon wf_missing split: option.splits if_splits)

lemma with_attrs_wf: "wf_icon a \<Longrightarrow> wf_attrs new \<Longrightarrow> wf_icon (with_attrs new a)"
  by (cases a) (simp_all add: wf_icon_elem wf_attrs_spread)

lemma node_attrs_wf: "wf_icon a \<Longrightarrow> wf_attrs (node_attrs a)"
  by (cases a) (auto simp: wf_icon_elem)

definition wf_content :: "content \<Rightarrow> bool" where
  "wf_content c \<longleftrightarrow> (\<forall>a \<in> set (fst c). wf_icon a) \<and> wf_attrs (snd c)"

lemma svg_content_wf:
  assumes "wf_attrs (xattributes (p_extra p))"
  shows "wf_content (fst (svg_content s p draw k))"
proof -
  have t: "wf_icon (AElem ''title'' [(''id'', tid)] [AText (the (p_title p))])" if "given (p_title p)" for tid
    using that by (auto simp: given_def wf_icon_elem svg_names)
  show ?thesis
    using assms t
    by (auto simp: svg_content_def Let_def wf_content_def svg_names intro!: wf_attrs_set wf_attrs_spread
        split: prod.splits if_splits)
qed

lemma makeIconStandard_wf:
  "wf_content c \<Longrightarrow> wf_icon (vicon main) \<Longrightarrow> wf_content (makeIconStandard main t sty c)"
  by (cases c)
    (auto simp: makeIconStandard_def Let_def wf_content_def svg_names
      intro!: wf_attrs_set wf_icon_elems with_attrs_wf)

lemma makeIconMasking_wf:
  assumes "wf_content c" "wf_icon (vicon main)" "wf_icon (vicon msk)"
  shows "wf_content (fst (makeIconMasking main msk t draw k c))"
proof -
  obtain cs as where c: "c = (cs, as)" by (cases c)
  have w: "wf_icon (AElem ''path'' (object_spread (object_spread (node_attrs (vicon main)) (tr_attr u))
      [(''fill'', AStr ''black'')]) [])" for u
    using node_attrs_wf [OF assms(2)]
    by (intro wf_icon_leaf wf_attrs_spread) (simp_all add: svg_names)
  show ?thesis
    using assms w
    by (auto simp: c makeIconMasking_def Let_def wf_content_def svg_names
        intro!: wf_icon_elems wf_attrs_set wf_attrs_spread split: prod.splits)
qed

lemma asIcon_wf: "wf_content c \<Longrightarrow> \<exists>a. asIcon main msk t sty c = [a] \<and> wf_icon a"
  by (cases c) (auto simp: asIcon_def Let_def wf_content_def svg_names intro!: wf_icon_elems wf_attrs_set)

lemma asSymbol_wf: "wf_content c \<Longrightarrow> \<exists>a. asSymbol s pr n symb c = [a] \<and> wf_icon a"
  by (cases c)
    (auto simp: asSymbol_def Let_def wf_content_def svg_names intro!: wf_icon_elems wf_attrs_spread wf_attrs_set)

lemma makeInlineSvgAbstract_wf:
  assumes "wf_attrs (xattributes (p_extra p))" "wf_icon (vicon (p_main p))"
    and "found (p_mask p) \<Longrightarrow> wf_icon (vicon (p_mask p))"
  shows "\<exists>a. fst (makeInlineSvgAbstract s p draw k) = [a] \<and> wf_icon a"
proof -
  obtain c1 k1 where c1: "svg_content s p draw k = (c1, k1)" by (cases "svg_content s p draw k")
  define r where "r = (if found (p_mask p) \<and> found (p_main p)
     then makeIconMasking (p_main p) (p_mask p) (p_transform p) draw k1 c1
     else (makeIconStandard (p_main p) (p_transform p) (xstyles (p_extra p)) c1, k1))"
  have "wf_content c1" using svg_content_wf [OF assms(1), of s draw k] by (simp add: c1)
  then have "wf_content (fst r)"
    using makeIconStandard_wf [OF _ assms(2)] makeIconMasking_wf [OF _ assms(2,3)] by (simp add: r_def)
  moreover have "fst (makeInlineSvgAbstract s p draw k) =
      (if symbol_given (p_symbol p) then asSymbol s (p_prefix p) (p_iconName p) (p_symbol p) (fst r)
       else asIcon (p_main p) (p_mask p) (p_transform p) (xstyles (p_extra p)) (fst r))"
    by (simp add: makeInlineSvgAbstract_def c1 Let_def r_def [symmetric] split: prod.splits)
  ultimately show ?thesis using asIcon_wf asSymbol_wf by auto
qed

text \<open>
  C12: Whatever icon and mask \<open>findIcon\<close> delivers, the rendered icon is one element whose
  HTML reads back as exactly the abstract tree, for arbitrary values of the extra
  attributes, styles and classes and any title: nothing the page puts there can break the
  markup.
\<close>

theorem rendered_icon_reads_back:
  assumes "findIcon s (p_iconName p) (p_prefix p) = Inr (p_main p)"
    and "findIcon s mask_name mask_prefix = Inr (p_mask p)"
    and "wf_attrs (xattributes (p_extra p))"
  shows "\<exists>a. fst (makeInlineSvgAbstract s p draw k) = [a] \<and> read_html (toHtml a) = Some [to_xml a]"
proof -
  obtain a where a: "fst (makeInlineSvgAbstract s p draw k) = [a]" "wf_icon a"
    using makeInlineSvgAbstract_wf [OF assms(3) findIcon_wf [OF assms(1)] findIcon_wf [OF assms(2)]] by blast
  then show ?thesis using read_toHtml by (auto simp: wf_icon_def)
qed


definition demo_params :: svg_params where
  "demo_params = \<lparr>p_main = prepIcon (demo_icon ''f013''),
     p_mask = \<lparr>found = False, vwidth = Fin 512, vheight = Fin 512, vicon = missing\<rparr>,
     p_prefix = Some ''fas'', p_iconName = Some ''cog'', p_transform = meaninglessTransform,
     p_symbol = NoSymbol, p_title = Some ''a<b'',
     p_extra = \<lparr>xclasses = [''w3-button''], xstyles = [], xattributes = [(''title'', AStr ''\"'')]\<rparr>,
     p_watchable = True\<rparr>"

definition demo_reg :: fa_state where
  "demo_reg = defineIcons False ''fas'' demo_pack demo_fa"

lemma demo_reg_simps:
  "styles demo_reg = [(''fas'', [(''glass-martini'', demo_icon ''f000''), (''cog'', demo_icon ''f013'')]),
      (''fa'', [(''glass-martini'', demo_icon ''f000''), (''cog'', demo_icon ''f013'')])]"
  "config demo_reg = default_config"
  by (simp_all add: demo_reg_def defineIcons_def Let_def register_icons_def demo_fa_def demo_pack_def
      normalize_icons_def get_or_empty_def put_style_def)

theorem rendered_icon_reads_back_witness:
  "\<exists>a. fst (makeInlineSvgAbstract demo_reg demo_params (\<lambda>i. i) 0) = [a] \<and>
    read_html (toHtml a) = Some [to_xml a]"
  by (rule rendered_icon_reads_back [where mask_name = None and mask_prefix = None])
    (simp_all add: findIcon_def given_def demo_params_def demo_reg_simps svg_names)

subsection \<open>The title\<close>

lemma svg_content_title:
  assumes "given (p_title p)" "fst (svg_content s p draw k) = (cs, as)"
  shows "\<exists>tid. cs = [AElem ''title'' [(''id'', tid)] [AText (the (p_title p))]] \<and>
    (aval_truthy (obj_get as ''aria-labelledby'') \<longrightarrow> obj_get as ''aria-labelledby'' = Some tid)"
  using assms
  by (auto simp: svg_content_def Let_def aval_truthy_def split: if_splits prod.splits option.splits)

lemma makeIconStandard_shape:
  "\<exists>ds. fst (makeIconStandard main t sty (cs, as)) = cs @ ds \<and>
    obj_get (snd (makeIconStandard main t sty (cs, as))) ''aria-labelledby'' = obj_get as ''aria-labelledby''"
  by (simp add: makeIconStandard_def Let_def js_simps)

lemma makeIconMasking_shape:
  "\<exists>ds. fst (fst (makeIconMasking main msk t draw k (cs, as))) = cs @ ds \<and>
    snd (fst (makeIconMasking main msk t draw k (cs, as))) = as"
  by (simp add: makeIconMasking_def Let_def split: prod.splits)

lemma asIcon_shape:
  "\<exists>as'. asIcon main msk t sty (cs, as) = [AElem ''svg'' as' cs] \<and>
    obj_get as' ''aria-labelledby'' = obj_get as ''aria-labelledby''"
  by (simp add: asIcon_def Let_def js_simps)

text \<open>
  An icon with a title is rendered as an svg element whose first child is a title
  element with that text, and when the svg element is labelled (\<open>aria-labelledby\<close>), it is
  labelled by that very title element.
\<close>

theorem rendered_title_labels_icon:
  assumes "given (p_title p)" "\<not> symbol_given (p_symbol p)"
  shows "\<exists>as cs tid. fst (makeInlineSvgAbstract s p draw k) =
      [AElem ''svg'' as (AElem ''title'' [(''id'', tid)] [AText (the (p_title p))] # cs)] \<and>
    (aval_truthy (obj_get as ''aria-labelledby'') \<longrightarrow> obj_get as ''aria-labelledby'' = Some tid)"
proof -
  obtain cs as k1 where c: "svg_content s p draw k = ((cs, as), k1)"
    by (metis surj_pair)
  obtain tid where t: "cs = [AElem ''title'' [(''id'', tid)] [AText (the (p_title p))]]"
    "aval_truthy (obj_get as ''aria-labelledby'') \<longrightarrow> obj_get as ''aria-labelledby'' = Some tid"
    using svg_content_title [OF assms(1), of s draw k cs as] by (auto simp: c)
  define r where "r = (if found (p_mask p) \<and> found (p_main p)
     then makeIconMasking (p_main p) (p_mask p) (p_transform p) draw k1 (cs, as)
     else (makeIconStandard (p_main p) (p_transform p) (xstyles (p_extra p)) (cs, as), k1))"
  have "\<exists>ds as2. fst r = (cs @ ds, as2) \<and> obj_get as2 ''aria-labelledby'' = obj_get as ''aria-labelledby''"
    using makeIconStandard_shape [of "p_main p" "p_transform p" "xstyles (p_extra p)" cs as]
      makeIconMasking_shape [of "p_main p" "p_mask p" "p_transform p" draw k1 cs as]
    unfolding r_def by (auto simp: prod_eq_iff)
  then obtain ds as2 where r: "fst r = (cs @ ds, as2)"
    "obj_get as2 ''aria-labelledby'' = obj_get as ''aria-labelledby''" by blast
  have "fst (makeInlineSvgAbstract s p draw k) =
      asIcon (p_main p) (p_mask p) (p_transform p) (xstyles (p_extra p)) (fst r)"
    using assms(2) by (simp add: makeInlineSvgAbstract_def c Let_def r_def [symmetric] split: prod.splits)
  then show ?thesis
    using asIcon_shape [of "p_main p" "p_mask p" "p_transform p" "xstyles (p_extra p)" "cs @ ds" as2] t r
    by auto
qed

theorem rendered_title_labels_icon_witness:
  "\<exists>as cs tid. fst (makeInlineSvgAbstract demo_reg demo_params (\<lambda>i. i) 0) =
      [AElem ''svg'' as (AElem ''title'' [(''id'', tid)] [AText ''a<b''] # cs)]"
proof -
  have "given (p_title demo_params)" "\<not> symbol_given (p_symbol demo_params)" "the (p_title demo_params) = ''a<b''"
    by (simp_all add: demo_params_def given_def symbol_given_def)
  with rendered_title_labels_icon [of demo_params demo_reg "\<lambda>i. i" 0] show ?thesis by force
qed

subsection \<open>Reading the rendered classes again\<close>

definition other_reserved :: "string list" where
  "other_reserved = filter (\<lambda>c. take 2 c \<noteq> ''w-'') RESERVED_CLASSES"

lemma reserved_split:
  "RESERVED_CLASSES = other_reserved @ map (\<lambda>n. ''w-'' @ nat_str n) oneToTwenty"
  by code_simp

lemma reserved_width: "isReserved (''w-'' @ nat_str n) \<longleftrightarrow> n \<in> set oneToTwenty"
proof -
  have "''w-'' @ nat_str n \<notin> set other_reserved"
    unfolding other_reserved_def set_filter by (simp add: numeral_2_eq_2)
  moreover have "''w-'' @ nat_str n \<in> (\<lambda>n. ''w-'' @ nat_str n) ` set oneToTwenty \<longleftrightarrow> n \<in> set oneToTwenty"
    by (auto simp only: append_same_eq same_append_eq nat_str_inject)
  ultimately show ?thesis
    unfolding isReserved_def by (subst reserved_split) (simp only: set_append set_map Un_iff simp_thms)
qed

lemma oneToTwenty_iff: "n \<in> set oneToTwenty \<longleftrightarrow> 1 \<le> n \<and> n \<le> 20"
  by (simp add: oneToTwenty_def oneToTen_def) presburger

text \<open>\<open>classList\<close> of a class attribute made of separate tokens.\<close>

definition token :: "string \<Rightarrow> bool" where
  "token w \<longleftrightarrow> w \<noteq> [] \<and> (\<forall>c \<in> set w. \<not> is_space c)"

lemma space_tokens_word:
  "\<forall>c \<in> set v. \<not> is_space c \<Longrightarrow> space_tokens w (v @ s) = space_tokens (rev v @ w) s"
  by (induction v arbitrary: w) auto

lemma space_tokens_join:
  "\<forall>w \<in> set ws. token w \<Longrightarrow> space_tokens [] (js_join '' '' ws) = ws"
proof (induction ws)
  case (Cons w ws)
  then have w: "w \<noteq> []" "\<forall>c \<in> set w. \<not> is_space c" by (simp_all add: token_def)
  show ?case
  proof (cases ws)
    case Nil
    then show ?thesis using w space_tokens_word [of w "[]" "[]"] by simp
  next
    case (Cons v vs)
    then show ?thesis
      using w Cons.IH Cons.prems space_tokens_word [of w "[]"] by (simp add: js_join_Cons)
  qed
qed simp

lemma distinct_tokens_id: "distinct ws \<Longrightarrow> distinct_tokens ws = ws"
proof (induction ws rule: distinct_tokens.induct)
  case (2 t ts)
  then have "filter (\<lambda>u. u \<noteq> t) ts = ts" by (auto simp: filter_id_conv)
  with 2 show ?case by simp
qed simp

lemma classArray_join:
  "\<forall>w \<in> set ws. token w \<Longrightarrow> distinct ws \<Longrightarrow> classArray True (Some (js_join '' '' ws)) = ws"
  by (simp add: classArray_def space_tokens_join distinct_tokens_id)

lemma svg_class_attribute:
  "obj_get (snd (fst (svg_content s p draw k))) ''class'' =
     Some (AStr (js_join '' '' (svg_classes s (p_iconName p) (width_class (p_main p) (p_mask p))
       (xclasses (p_extra p)))))"
  by (auto simp: svg_content_def Let_def js_simps DATA_FA_I2SVG_def split: prod.splits)

text \<open>
  Reading the classes of a rendered icon gives back the name of the icon and the classes
  the page had put on it, provided the width class is one of the twenty that are reserved.
  A wider icon is misread: the width class itself (\<open>fa-w-125\<close> for the full Font Awesome
  logo) is then taken for the name of the icon.
\<close>

theorem rendered_classes_read_back:
  assumes "cfg ''familyPrefix'' s = Some (CStr ''fa'')"
    and "cfg ''replacementClass'' s = Some (CStr ''svg-inline--fa'')"
    and "p_iconName p = Some name" "token name" "\<not> isReserved name" "name \<noteq> ''w-'' @ nat_str n"
    and "width_class (p_main p) (p_mask p) = ''fa-w-'' @ nat_str n"
    and "\<forall>c \<in> set (xclasses (p_extra p)). plain_class s c \<and> token c" "distinct (xclasses (p_extra p))"
    and "\<forall>c \<in> {''svg-inline--fa'', ''fa-'' @ name, ''fa-w-'' @ nat_str n}. \<not> is_prefix_class s c"
    and "obj_get (snd (fst (svg_content s p draw k))) ''class'' = Some (AStr cls)"
  shows "getCanonicalIcon s (classArray True (Some cls)) =
    \<lparr>cprefix = None, cname = Some (if 1 \<le> n \<and> n \<le> 20 then name else ''w-'' @ nat_str n),
     crest = xclasses (p_extra p)\<rparr>"
proof -
  let ?x = "xclasses (p_extra p)" and ?r = "''svg-inline--fa''" and ?w = "''fa-w-'' @ nat_str n"
  have gn: "getIconName (cfg ''familyPrefix'' s) (''fa-'' @ name) = Some name"
    using getIconName_icon [of "''fa''" name] assms(1,4,5) by (simp add: token_def)
  have gw: "getIconName (cfg ''familyPrefix'' s) ?w = (if 1 \<le> n \<and> n \<le> 20 then None else Some (''w-'' @ nat_str n))"
    using getIconName_icon [of "''fa''" "''w-'' @ nat_str n"] assms(1) reserved_width [of n]
    by (simp add: oneToTwenty_iff)
  have gr: "getIconName (cfg ''familyPrefix'' s) ?r = None"
    unfolding assms(1) by code_simp
  have iw: "index_of ''fa-w-'' ?w = 0" by (simp add: index_of_0_iff)
  have np: "\<not> plain_class s ?r" "\<not> plain_class s (''fa-'' @ name)" "\<not> plain_class s ?w"
    using assms(2) gn iw by (simp_all add: plain_class_def)
  then have nx: "?r \<notin> set ?x" "''fa-'' @ name \<notin> set ?x" "?w \<notin> set ?x"
    using assms(8) by blast+
  have cl: "svg_classes s (p_iconName p) (width_class (p_main p) (p_mask p)) ?x =
      [?r, ''fa-'' @ name, ?w] @ ?x"
    using nx assms(1-4) by (simp add: svg_classes_def assms(7) given_def token_def)
  have digits: "c \<in> set (nat_str n) \<Longrightarrow> \<not> is_space c" for c
    using nat_str_digits [of c n] by (auto simp: is_space_def)
  have sp: "\<not> is_space c" if "c \<in> set ?r \<or> c \<in> set ''fa-w-''" for c
    using that by (auto simp: is_space_def)
  have tok: "\<forall>w \<in> set ([?r, ''fa-'' @ name, ?w] @ ?x). token w"
    using assms(4,8) digits sp by (auto simp: token_def)
  have "classArray True (Some cls) = [?r, ''fa-'' @ name, ?w] @ ?x"
  proof -
    have "cls = js_join '' '' ([?r, ''fa-'' @ name, ?w] @ ?x)"
      using assms(11) by (simp add: svg_class_attribute cl)
    moreover have "distinct ([?r, ''fa-'' @ name, ?w] @ ?x)"
      using nx assms(6,9) by auto
    ultimately show ?thesis using classArray_join [OF tok] by simp
  qed
  moreover have "fold (canonical_step s) [?r, ''fa-'' @ name, ?w] emptyCanonicalIcon =
      \<lparr>cprefix = None, cname = Some (if 1 \<le> n \<and> n \<le> 20 then name else ''w-'' @ nat_str n), crest = []\<rparr>"
    using assms(2,10) iw
    by (simp add: canonical_step_def gr gn [simplified] gw [simplified] emptyCanonicalIcon_def)
  ultimately show ?thesis
    using fold_canonical_plain [of ?x s] assms(8) by (simp add: getCanonicalIcon_def)
qed


definition logo_params :: svg_params where
  "logo_params = demo_params\<lparr>p_main := prepIcon ((demo_icon ''f4e6'')\<lparr>iwidth := 3992\<rparr>),
     p_iconName := Some ''font-awesome-logo-full''\<rparr>"

theorem rendered_classes_read_back_witness:
  "\<exists>cls. obj_get (snd (fst (svg_content demo_reg logo_params (\<lambda>i. i) 0))) ''class'' = Some (AStr cls) \<and>
    getCanonicalIcon demo_reg (classArray True (Some cls)) =
    \<lparr>cprefix = None, cname = Some ''w-125'', crest = [''w3-button'']\<rparr>"
proof -
  obtain cls where cls: "obj_get (snd (fst (svg_content demo_reg logo_params (\<lambda>i. i) 0))) ''class'' = Some (AStr cls)"
    using svg_class_attribute by blast
  have w: "width_class (p_main logo_params) (p_mask logo_params) = ''fa-w-'' @ nat_str 125"
  proof -
    have "num_str (num_ceil (num_mul (num_div (Fin 3992) (Fin 512)) (Fin 16))) = ''125''" by code_simp
    moreover have "nat_str 125 = ''125''" by code_simp
    ultimately show ?thesis
      by (simp add: logo_params_def demo_params_def width_class_def prepIcon_def demo_icon_def)
  qed
  have c: "cfg ''familyPrefix'' demo_reg = Some (CStr ''fa'')"
    "cfg ''replacementClass'' demo_reg = Some (CStr ''svg-inline--fa'')"
    by (simp_all add: demo_reg_simps default_config_def DEFAULT_FAMILY_PREFIX_def DEFAULT_REPLACEMENT_CLASS_def)
  have pre: "is_prefix_class demo_reg c \<longleftrightarrow> c \<in> {''fas'', ''fa''}" for c
    by (auto simp: is_prefix_class_def demo_reg_simps default_config_def)
  have g: "getIconName (Some (CStr ''fa'')) ''w3-button'' = None" "\<not> isReserved ''font-awesome-logo-full''"
    "token ''font-awesome-logo-full''" "token ''w3-button''"
    by code_simp+
  have x: "xclasses (p_extra logo_params) = [''w3-button'']"
    "p_iconName logo_params = Some ''font-awesome-logo-full''"
    by (simp_all add: logo_params_def demo_params_def)
  have pl: "plain_class demo_reg ''w3-button''"
    unfolding plain_class_def pre c by (simp add: g)
  have n: "nat_str 125 = ''125''" by code_simp
  have "getCanonicalIcon demo_reg (classArray True (Some cls)) =
    \<lparr>cprefix = None, cname = Some (if (1::nat) \<le> 125 \<and> (125::nat) \<le> 20 then ''font-awesome-logo-full''
       else ''w-'' @ nat_str 125), crest = xclasses (p_extra logo_params)\<rparr>"
    by (rule rendered_classes_read_back [OF c x(2) g(3,2) _ w _ _ _ cls]) (simp_all add: n x pl g pre)
  with cls show ?thesis by (auto simp: n x)
qed

end
