(* ===== verification/Fa_Parse.thy ===== *)
theory Fa_Parse
  imports Fa_Svg "HOL-Library.Word"
begin

text \<open>
  \<^verbatim>\<open>web-admin/fontawesome/js/fontawesome.js\<close>, lines 1424-1626: reading what a node of the page
  asks for: its icon, style, transform, symbol, mask and remaining attributes.
\<close>

subsection \<open>Nodes\<close>

text \<open>
  A node as the parsers see it: its attributes, whether it has a \<open>classList\<close>, and its
  \<open>innerText\<close> as UTF-16 code units (undefined for SVG elements).
\<close>

record pnode =
  nattrs :: "string obj"
  has_classList :: bool
  innerText :: "16 word list option"

abbreviation getAttribute :: "pnode \<Rightarrow> string \<Rightarrow> string option" where
  "getAttribute n k \<equiv> obj_get (nattrs n) k"

definition node_classes :: "pnode \<Rightarrow> string list" where
  "node_classes n = classArray (has_classList n) (getAttribute n ''class'')"

subsection \<open>Styles\<close>

definition style_step :: "string \<Rightarrow> string obj \<Rightarrow> string obj" where
  "style_step st acc =
     (let parts = split_on CHR '':'' st; prop = hd parts; value = tl parts
      in if prop \<noteq> [] \<and> length value > 0 then obj_set prop (trim (js_join '':'' value)) acc else acc)"

definition styleParser :: "pnode \<Rightarrow> string obj" where
  "styleParser n = (case getAttribute n ''style'' of
     None \<Rightarrow> []
   | Some st \<Rightarrow> if st = [] then [] else fold style_step (split_on CHR '';'' st) [])"

subsection \<open>Code points\<close>

definition hex_digit :: "nat \<Rightarrow> char" where
  "hex_digit d = (if d < 10 then char_of (48 + d) else char_of (87 + d))"

text \<open>\<open>toString(16)\<close>.\<close>

function hex_str :: "nat \<Rightarrow> string" where
  "hex_str n = (if n < 16 then [hex_digit n] else hex_str (n div 16) @ [hex_digit (n mod 16)])"
  by pat_completeness auto
termination
  by (relation "measure id") auto

declare hex_str.simps [simp del]

definition hex_unit :: "16 word \<Rightarrow> string" where
  "hex_unit u = (let h = ''000'' @ hex_str (unat u) in drop (length h - 4) h)"

definition toHex :: "16 word list \<Rightarrow> string" where
  "toHex us = foldl (\<lambda>result u. result @ hex_unit u) [] us"

text \<open>White space of the language among the code units, for \<open>trim\<close>.\<close>

definition space_unit :: "16 word \<Rightarrow> bool" where
  "space_unit u = (let n = unat u in 9 \<le> n \<and> n \<le> 13 \<or> n = 32 \<or> n = 160 \<or> n = 0x1680 \<or>
     0x2000 \<le> n \<and> n \<le> 0x200A \<or> n = 0x2028 \<or> n = 0x2029 \<or> n = 0x202F \<or> n = 0x205F \<or>
     n = 0x3000 \<or> n = 0xFEFF)"

definition trim_units :: "16 word list \<Rightarrow> 16 word list" where
  "trim_units us = rev (dropWhile space_unit (rev (dropWhile space_unit us)))"

text \<open>A text used as a key: the keys of the ligature tables have code units below 256 only.\<close>

definition narrow :: "16 word list \<Rightarrow> string option" where
  "narrow us = (if \<forall>u \<in> set us. unat u < 256 then Some (map (\<lambda>u. char_of (unat u)) us) else None)"

definition ligature_of :: "fa_state \<Rightarrow> string \<Rightarrow> 16 word list \<Rightarrow> js_error + string option" where
  "ligature_of s prefix us = (case narrow us of
     Some l \<Rightarrow> byLigature s prefix l
   | None \<Rightarrow> js_bind (require (obj_get (by_ligature s) prefix)) (\<lambda>t. Inr None))"

subsection \<open>The icon of a node\<close>

definition classParser :: "fa_state \<Rightarrow> pnode \<Rightarrow> js_error + canonical" where
  "classParser s n =
     (let existingPrefix = getAttribute n ''data-prefix'';
          existingIconName = getAttribute n ''data-icon'';
          inner = (case innerText n of None \<Rightarrow> [] | Some us \<Rightarrow> trim_units us);
          text = (case innerText n of None \<Rightarrow> [] | Some us \<Rightarrow> us);
          val = getCanonicalIcon s (node_classes n);
          val = (if given existingPrefix \<and> given existingIconName
                 then val\<lparr>cprefix := existingPrefix, cname := existingIconName\<rparr> else val)
      in if given (cprefix val) \<and> length inner > 1 then
           js_bind (ligature_of s (the (cprefix val)) text) (\<lambda>i. Inr (val\<lparr>cname := i\<rparr>))
         else if given (cprefix val) \<and> length inner = 1 then
           js_bind (byUnicode s (the (cprefix val)) (toHex text)) (\<lambda>i. Inr (val\<lparr>cname := i\<rparr>))
         else Inr val)"

subsection \<open>Transforms\<close>

definition transform_step :: "string \<Rightarrow> transform \<Rightarrow> transform" where
  "transform_step n acc =
     (let parts = split_on CHR ''-'' (to_lower n); first = hd parts; rest = js_join ''-'' (tl parts)
      in if first \<noteq> [] \<and> rest = ''h'' then acc\<lparr>flipX := True\<rparr>
         else if first \<noteq> [] \<and> rest = ''v'' then acc\<lparr>flipY := True\<rparr>
         else let r = parseFloat rest in
           if r = NaN then acc
           else if first = ''grow'' then acc\<lparr>tsize := num_add (tsize acc) r\<rparr>
           else if first = ''shrink'' then acc\<lparr>tsize := num_sub (tsize acc) r\<rparr>
           else if first = ''left'' then acc\<lparr>tx := num_sub (tx acc) r\<rparr>
           else if first = ''right'' then acc\<lparr>tx := num_add (tx acc) r\<rparr>
           else if first = ''up'' then acc\<lparr>ty := num_sub (ty acc) r\<rparr>
           else if first = ''down'' then acc\<lparr>ty := num_add (ty acc) r\<rparr>
           else if first = ''rotate'' then acc\<lparr>trotate := num_add (trotate acc) r\<rparr>
           else acc)"

definition parseTransformString :: "string option \<Rightarrow> transform" where
  "parseTransformString t =
     (let transform = \<lparr>tsize = Fin 16, tx = Fin 0, ty = Fin 0, trotate = Fin 0, flipX = False, flipY = False\<rparr>
      in if \<not> given t then transform
         else fold transform_step (split_on CHR '' '' (to_lower (the t))) transform)"

definition transformParser :: "pnode \<Rightarrow> transform" where
  "transformParser n = parseTransformString (getAttribute n ''data-fa-transform'')"

subsection \<open>Symbol, attributes, mask\<close>

definition symbolParser :: "pnode \<Rightarrow> symbol" where
  "symbolParser n = (case getAttribute n ''data-fa-symbol'' of
     None \<Rightarrow> NoSymbol | Some v \<Rightarrow> if v = [] then SymbolTrue else SymbolId v)"

text \<open>The filter asks for \<open>acc.name\<close>, the attribute "name" collected so far, not for \<open>attr.name\<close>.\<close>

definition attribute_step :: "string \<times> string \<Rightarrow> aval obj \<Rightarrow> aval obj" where
  "attribute_step = (\<lambda>(name, v) acc.
     if obj_get acc ''name'' \<noteq> Some (AStr ''class'') \<and> obj_get acc ''name'' \<noteq> Some (AStr ''style'')
     then obj_set name (AStr v) acc else acc)"

definition attributesParser :: "fa_state \<Rightarrow> pnode \<Rightarrow> (nat \<Rightarrow> nat) \<Rightarrow> nat \<Rightarrow> aval obj \<times> nat" where
  "attributesParser s n draw k =
     (let extra = fold attribute_step (nattrs n) []; title = getAttribute n ''title'' in
      if truthy (cfg ''autoA11y'' s) then
        (if given title then
           (let (u, k) = nextUniqueId draw k in
            (obj_set ''aria-labelledby''
               (AStr (cval_text (cfg ''replacementClass'' s) @ ''-title-'' @ u)) extra, k))
         else (obj_set ''focusable'' (AStr ''false'') (obj_set ''aria-hidden'' (AStr ''true'') extra), k))
      else (extra, k))"

definition maskParser :: "fa_state \<Rightarrow> pnode \<Rightarrow> canonical" where
  "maskParser s n = (let m = getAttribute n ''data-fa-mask'' in
     if \<not> given m then emptyCanonicalIcon
     else getCanonicalIcon s (map trim (split_on CHR '' '' (the m))))"

record meta =
  m_iconName :: "string option"
  m_title :: "string option"
  m_prefix :: "string option"
  m_transform :: transform
  m_symbol :: symbol
  m_mask :: "canonical option"
  m_extra :: extras

definition blankMeta :: meta where
  "blankMeta = \<lparr>m_iconName = None, m_title = None, m_prefix = None, m_transform = meaninglessTransform,
     m_symbol = NoSymbol, m_mask = None, m_extra = \<lparr>xclasses = [], xstyles = [], xattributes = []\<rparr>\<rparr>"

definition parseMeta :: "fa_state \<Rightarrow> pnode \<Rightarrow> (nat \<Rightarrow> nat) \<Rightarrow> nat \<Rightarrow> js_error + meta \<times> nat" where
  "parseMeta s n draw k =
     js_bind (classParser s n) (\<lambda>c.
       let extraStyles = styleParser n; t = transformParser n; symb = symbolParser n;
           (extraAttributes, k) = attributesParser s n draw k;
           m = maskParser s n
       in Inr (\<lparr>m_iconName = cname c, m_title = getAttribute n ''title'', m_prefix = cprefix c,
            m_transform = t, m_symbol = symb, m_mask = Some m,
            m_extra = \<lparr>xclasses = crest c, xstyles = extraStyles, xattributes = extraAttributes\<rparr>\<rparr>, k))"

subsection \<open>Styles written and read\<close>

definition clean_style :: "string \<times> string \<Rightarrow> bool" where
  "clean_style = (\<lambda>(k, v). k \<noteq> [] \<and> CHR '';'' \<notin> set k \<and> CHR '':'' \<notin> set k \<and> CHR '';'' \<notin> set v \<and> trim v = v)"

lemma trim_space: "trim (CHR '' '' # v) = trim v"
  by (simp add: trim_def trim_left_def)

lemma style_step_entry:
  assumes "clean_style (k, v)"
  shows "style_step (k @ '': '' @ v) acc = obj_set k v acc"
proof -
  have s: "split_on CHR '':'' (k @ '': '' @ v) = k # split_on CHR '':'' (CHR '' '' # v)"
    using assms by (simp add: clean_style_def js_simps del: split_on.simps)
  have j: "js_join '':'' (split_on CHR '':'' (CHR '' '' # v)) = CHR '' '' # v"
    by (rule join_split_on)
  show ?thesis
    unfolding style_step_def Let_def s list.sel j
    using assms by (simp add: clean_style_def trim_space del: split_on.simps)
qed

lemma style_steps:
  assumes "\<forall>kv \<in> set sty. clean_style kv"
  shows "fold style_step (split_on CHR '';'' (joinStyles sty)) acc = object_spread acc sty"
  using assms unfolding joinStyles_concat
proof (induction sty arbitrary: acc)
  case Nil
  then show ?case by (simp add: style_step_def)
next
  case (Cons kv sty)
  obtain k v where kv: "kv = (k, v)" by (cases kv)
  have c: "clean_style (k, v)" using Cons.prems by (simp add: kv)
  have "CHR '';'' \<notin> set (k @ '': '' @ v)" using c by (simp add: clean_style_def)
  then have "split_on CHR '';'' (concat (map (\<lambda>(name, v). name @ '': '' @ v @ '';'') (kv # sty))) =
      (k @ '': '' @ v) # split_on CHR '';'' (concat (map (\<lambda>(name, v). name @ '': '' @ v @ '';'') sty))"
    using split_on_append [of "CHR '';''" "k @ '': '' @ v"] by (simp add: kv)
  then show ?case
    using Cons style_step_entry [OF c] by (simp only: fold_simps) (simp add: kv)
qed

text \<open>
  A style object written into a style attribute is read back unchanged, order included,
  for property names and values that cannot be confused with the separators (values may
  contain colons, as in a URL).
\<close>

theorem style_roundtrip:
  assumes "\<forall>kv \<in> set sty. clean_style kv" "distinct (obj_keys sty)"
    and "getAttribute n ''style'' = Some (joinStyles sty)"
  shows "styleParser n = sty"
  using style_steps [OF assms(1), of "[]"] assms(2,3)
  by (cases sty) (auto simp: styleParser_def spread_empty joinStyles_concat)

theorem style_roundtrip_witness:
  "styleParser \<lparr>nattrs = [(''style'', joinStyles [(''color'', ''red''), (''background'', ''url(http://x)'')])],
     has_classList = True, innerText = None\<rparr> = [(''color'', ''red''), (''background'', ''url(http://x)'')]"
proof -
  have "trim ''red'' = ''red''" "trim ''url(http://x)'' = ''url(http://x)''" by code_simp+
  then show ?thesis by (intro style_roundtrip) (simp_all add: clean_style_def)
qed

subsection \<open>Transforms written and read\<close>

datatype directive = Grow int | Shrink int | MoveLeft int | MoveRight int | MoveUp int | MoveDown int
  | Rotate int | FlipH | FlipV

fun directive_text :: "directive \<Rightarrow> string" where
  "directive_text (Grow i) = ''grow-'' @ int_str i"
| "directive_text (Shrink i) = ''shrink-'' @ int_str i"
| "directive_text (MoveLeft i) = ''left-'' @ int_str i"
| "directive_text (MoveRight i) = ''right-'' @ int_str i"
| "directive_text (MoveUp i) = ''up-'' @ int_str i"
| "directive_text (MoveDown i) = ''down-'' @ int_str i"
| "directive_text (Rotate i) = ''rotate-'' @ int_str i"
| "directive_text FlipH = ''flip-h''"
| "directive_text FlipV = ''flip-v''"

text \<open>The transform meant: sums of integers.\<close>

record int_transform =
  isize :: int
  ix :: int
  iy :: int
  irotate :: int
  iflipX :: bool
  iflipY :: bool

fun directive_apply :: "directive \<Rightarrow> int_transform \<Rightarrow> int_transform" where
  "directive_apply (Grow i) t = t\<lparr>isize := isize t + i\<rparr>"
| "directive_apply (Shrink i) t = t\<lparr>isize := isize t - i\<rparr>"
| "directive_apply (MoveLeft i) t = t\<lparr>ix := ix t - i\<rparr>"
| "directive_apply (MoveRight i) t = t\<lparr>ix := ix t + i\<rparr>"
| "directive_apply (MoveUp i) t = t\<lparr>iy := iy t - i\<rparr>"
| "directive_apply (MoveDown i) t = t\<lparr>iy := iy t + i\<rparr>"
| "directive_apply (Rotate i) t = t\<lparr>irotate := irotate t + i\<rparr>"
| "directive_apply FlipH t = t\<lparr>iflipX := True\<rparr>"
| "directive_apply FlipV t = t\<lparr>iflipY := True\<rparr>"

definition to_transform :: "int_transform \<Rightarrow> transform" where
  "to_transform t = \<lparr>tsize = Fin (of_int (isize t)), tx = Fin (of_int (ix t)), ty = Fin (of_int (iy t)),
     trotate = Fin (of_int (irotate t)), flipX = iflipX t, flipY = iflipY t\<rparr>"

definition neutral :: int_transform where
  "neutral = \<lparr>isize = 16, ix = 0, iy = 0, irotate = 0, iflipX = False, iflipY = False\<rparr>"

fun amount :: "directive \<Rightarrow> int" where
  "amount (Grow i) = \<bar>i\<bar>" | "amount (Shrink i) = \<bar>i\<bar>" | "amount (MoveLeft i) = \<bar>i\<bar>"
| "amount (MoveRight i) = \<bar>i\<bar>" | "amount (MoveUp i) = \<bar>i\<bar>" | "amount (MoveDown i) = \<bar>i\<bar>"
| "amount (Rotate i) = \<bar>i\<bar>" | "amount FlipH = 0" | "amount FlipV = 0"

definition extent :: "int_transform \<Rightarrow> int" where
  "extent t = \<bar>isize t\<bar> + \<bar>ix t\<bar> + \<bar>iy t\<bar> + \<bar>irotate t\<bar>"

lemma int_str_chars: "c \<in> set (int_str i) \<Longrightarrow> c = CHR ''-'' \<or> (\<exists>d < 10. c = digit_char d)"
  by (auto simp: int_str_def pos_str_nat_str dest: nat_str_digits split: if_splits)

lemma char_lower_digit: "d < 10 \<Longrightarrow> char_lower (digit_char d) = digit_char d"
  by (simp add: char_lower_def Let_def)

lemma to_lower_int: "to_lower (int_str i) = int_str i"
  unfolding to_lower_def
proof (rule map_idI)
  fix c assume "c \<in> set (int_str i)"
  then consider "c = CHR ''-''" | d where "d < 10" "c = digit_char d" using int_str_chars by blast
  then show "char_lower c = c"
    by cases (simp_all add: char_lower_digit, simp add: char_lower_def)
qed

lemma to_lower_append: "to_lower (s @ t) = to_lower s @ to_lower t"
  by (simp add: to_lower_def)

lemma to_lower_words:
  "to_lower ''grow-'' = ''grow-''" "to_lower ''shrink-'' = ''shrink-''" "to_lower ''left-'' = ''left-''"
  "to_lower ''right-'' = ''right-''" "to_lower ''up-'' = ''up-''" "to_lower ''down-'' = ''down-''"
  "to_lower ''rotate-'' = ''rotate-''" "to_lower ''flip-h'' = ''flip-h''" "to_lower ''flip-v'' = ''flip-v''"
  "to_lower '' '' = '' ''"
  by code_simp+

lemma to_lower_text: "to_lower (directive_text d) = directive_text d"
  by (cases d) (simp_all only: directive_text.simps to_lower_append to_lower_words to_lower_int)

lemma to_lower_join: "to_lower (js_join '' '' (map directive_text ds)) = js_join '' '' (map directive_text ds)"
proof (induction ds)
  case (Cons d ds)
  then show ?case
    by (cases "ds = []") (simp_all only: list.map js_join_Cons to_lower_append to_lower_words to_lower_text
        js_join.simps map_is_Nil_conv not_False_eq_True)
qed (simp add: to_lower_def)

lemma text_no_space: "CHR '' '' \<notin> set (directive_text d)"
proof -
  have i: "CHR '' '' \<notin> set (int_str i)" for i
  proof
    assume "CHR '' '' \<in> set (int_str i)"
    then obtain d where "d < 10" "CHR '' '' = digit_char d" using int_str_chars by blast
    then have "(of_char (CHR '' '') :: nat) = 48 + d" by simp
    then show False by simp
  qed
  then show ?thesis by (cases d) auto
qed

lemma int_str_not_letter: "int_str i \<noteq> ''h''" "int_str i \<noteq> ''v''"
proof -
  have "CHR ''h'' \<notin> set (int_str i) \<and> CHR ''v'' \<notin> set (int_str i)"
  proof (rule conjI; rule notI)
    assume "CHR ''h'' \<in> set (int_str i)"
    then obtain d where "d < 10" "CHR ''h'' = digit_char d" using int_str_chars by blast
    then have "(of_char (CHR ''h'') :: nat) = 48 + d" by simp
    then show False using \<open>d < 10\<close> by simp
  next
    assume "CHR ''v'' \<in> set (int_str i)"
    then obtain d where "d < 10" "CHR ''v'' = digit_char d" using int_str_chars by blast
    then have "(of_char (CHR ''v'') :: nat) = 48 + d" by simp
    then show False using \<open>d < 10\<close> by simp
  qed
  then show "int_str i \<noteq> ''h''" "int_str i \<noteq> ''v''" by auto
qed

lemma transform_step_number:
  assumes "\<bar>i\<bar> < 2 ^ 53" "CHR ''-'' \<notin> set p" "p \<noteq> []" "to_lower (p @ ''-'' @ int_str i) = p @ ''-'' @ int_str i"
  shows "transform_step (p @ ''-'' @ int_str i) acc =
    (let r = Fin (of_int i) in
           if p = ''grow'' then acc\<lparr>tsize := num_add (tsize acc) r\<rparr>
           else if p = ''shrink'' then acc\<lparr>tsize := num_sub (tsize acc) r\<rparr>
           else if p = ''left'' then acc\<lparr>tx := num_sub (tx acc) r\<rparr>
           else if p = ''right'' then acc\<lparr>tx := num_add (tx acc) r\<rparr>
           else if p = ''up'' then acc\<lparr>ty := num_sub (ty acc) r\<rparr>
           else if p = ''down'' then acc\<lparr>ty := num_add (ty acc) r\<rparr>
           else if p = ''rotate'' then acc\<lparr>trotate := num_add (trotate acc) r\<rparr>
           else acc)"
  unfolding transform_step_def Let_def assms(4) icon_parts [OF assms(2)] parseFloat_int_str [OF assms(1)]
  using int_str_not_letter by simp

lemma transform_step_directive:
  assumes "extent t + amount d < 2 ^ 53"
  shows "transform_step (directive_text d) (to_transform t) = to_transform (directive_apply d t)"
proof -
  have num: "transform_step (directive_text d) (to_transform t) = to_transform (directive_apply d t)"
    if "directive_text d = p @ ''-'' @ int_str i" "amount d = \<bar>i\<bar>" "CHR ''-'' \<notin> set p" "p \<noteq> []"
      "(let r = Fin (of_int i); acc = to_transform t in
           if p = ''grow'' then acc\<lparr>tsize := num_add (tsize acc) r\<rparr>
           else if p = ''shrink'' then acc\<lparr>tsize := num_sub (tsize acc) r\<rparr>
           else if p = ''left'' then acc\<lparr>tx := num_sub (tx acc) r\<rparr>
           else if p = ''right'' then acc\<lparr>tx := num_add (tx acc) r\<rparr>
           else if p = ''up'' then acc\<lparr>ty := num_sub (ty acc) r\<rparr>
           else if p = ''down'' then acc\<lparr>ty := num_add (ty acc) r\<rparr>
           else if p = ''rotate'' then acc\<lparr>trotate := num_add (trotate acc) r\<rparr>
           else acc) = to_transform (directive_apply d t)" for p i
  proof -
    have b: "\<bar>i\<bar> < 2 ^ 53" using assms that(2) by (simp add: extent_def)
    show ?thesis
      using transform_step_number [OF b that(3,4) to_lower_text [of d, unfolded that(1)]] that(5)
      by (simp only: Let_def that(1))
  qed
  have sums: "\<bar>a\<bar> + \<bar>b\<bar> < 2 ^ 53 \<Longrightarrow> num_add (Fin (of_int a)) (Fin (of_int b)) = Fin (of_int a + of_int b)"
    "\<bar>a\<bar> + \<bar>b\<bar> < 2 ^ 53 \<Longrightarrow> num_sub (Fin (of_int a)) (Fin (of_int b)) = Fin (of_int a - of_int b)" for a b
    using num_add_int [of a b] num_sub_int [of a b] by simp_all
  show ?thesis
  proof (cases d)
    case FlipH
    have "transform_step ''flip-h'' acc = acc\<lparr>flipX := True\<rparr>" for acc
      unfolding transform_step_def to_lower_words by (simp add: js_simps)
    then show ?thesis using FlipH by (simp add: to_transform_def)
  next
    case FlipV
    have "transform_step ''flip-v'' acc = acc\<lparr>flipY := True\<rparr>" for acc
      unfolding transform_step_def to_lower_words by (simp add: js_simps)
    then show ?thesis using FlipV by (simp add: to_transform_def)
  next
    case (Grow i)
    then show ?thesis
      using assms by (intro num [of "''grow''" i])
        (simp_all add: Let_def to_transform_def extent_def sums del: num_add.simps)
  next
    case (Shrink i)
    then show ?thesis
      using assms by (intro num [of "''shrink''" i])
        (simp_all add: Let_def to_transform_def extent_def sums del: num_add.simps)
  next
    case (MoveLeft i)
    then show ?thesis
      using assms by (intro num [of "''left''" i])
        (simp_all add: Let_def to_transform_def extent_def sums del: num_add.simps)
  next
    case (MoveRight i)
    then show ?thesis
      using assms by (intro num [of "''right''" i])
        (simp_all add: Let_def to_transform_def extent_def sums del: num_add.simps)
  next
    case (MoveUp i)
    then show ?thesis
      using assms by (intro num [of "''up''" i])
        (simp_all add: Let_def to_transform_def extent_def sums del: num_add.simps)
  next
    case (MoveDown i)
    then show ?thesis
      using assms by (intro num [of "''down''" i])
        (simp_all add: Let_def to_transform_def extent_def sums del: num_add.simps)
  next
    case (Rotate i)
    then show ?thesis
      using assms by (intro num [of "''rotate''" i])
        (simp_all add: Let_def to_transform_def extent_def sums del: num_add.simps)
  qed
qed

lemma extent_apply: "extent (directive_apply d t) \<le> extent t + amount d"
  by (cases d) (auto simp: extent_def)

lemma amount_nonneg: "0 \<le> amount d"
  by (cases d) auto

lemma transform_steps:
  assumes "extent t + sum_list (map amount ds) < 2 ^ 53"
  shows "fold transform_step (map directive_text ds) (to_transform t) = to_transform (fold directive_apply ds t)"
  using assms
proof (induction ds arbitrary: t)
  case (Cons d ds)
  have "0 \<le> sum_list (map amount ds)" using amount_nonneg by (intro sum_list_nonneg) auto
  then have d: "extent t + amount d < 2 ^ 53" using Cons.prems by simp
  have "extent (directive_apply d t) + sum_list (map amount ds) < 2 ^ 53"
    using extent_apply [of d t] Cons.prems by simp
  with Cons.IH show ?case by (simp add: transform_step_directive [OF d])
qed simp

text \<open>
  C21: A transform attribute is read as the sum of its directives: any sequence of grow,
  shrink, left, right, up, down and rotate directives with integer amounts (negative ones
  included) and of flips yields exactly the integer transform they describe, as long as the
  total stays below 2^53, where doubles stop being exact.
\<close>

theorem transform_of_directives:
  assumes "16 + sum_list (map amount ds) < 2 ^ 53"
  shows "parseTransformString (Some (js_join '' '' (map directive_text ds))) =
    to_transform (fold directive_apply ds neutral)"
proof (cases "ds = []")
  case True
  then show ?thesis by (simp add: parseTransformString_def given_def to_transform_def neutral_def)
next
  case False
  have t: "directive_text d \<noteq> []" for d by (cases d) auto
  then have "js_join '' '' (map directive_text ds) \<noteq> []"
    using False by (cases ds; cases "tl ds") auto
  then have g: "given (Some (js_join '' '' (map directive_text ds)))" by (simp add: given_def)
  have s: "split_on CHR '' '' (js_join '' '' (map directive_text ds)) = map directive_text ds"
    using False text_no_space by (intro split_join) auto
  have n: "to_transform neutral = \<lparr>tsize = Fin 16, tx = Fin 0, ty = Fin 0, trotate = Fin 0, flipX = False, flipY = False\<rparr>"
    by (simp add: to_transform_def neutral_def)
  have "extent neutral + sum_list (map amount ds) < 2 ^ 53"
    using assms by (simp add: extent_def neutral_def)
  from transform_steps [OF this] show ?thesis
    using g by (simp add: parseTransformString_def to_lower_join s n)
qed

theorem transform_of_directives_witness:
  "parseTransformString (Some (js_join '' '' (map directive_text [Grow 4, MoveLeft 3, Rotate (- 30), FlipV, Shrink 1]))) =
    to_transform (fold directive_apply [Grow 4, MoveLeft 3, Rotate (- 30), FlipV, Shrink 1] neutral)"
  by (rule transform_of_directives) simp

subsection \<open>Hexadecimal code points\<close>

definition hex_value :: "char \<Rightarrow> nat" where
  "hex_value c = (let n = of_char c in if n < 58 then n - 48 else n - 87)"

definition hex_val :: "string \<Rightarrow> nat" where
  "hex_val s = foldl (\<lambda>a c. a * 16 + hex_value c) 0 s"

fun from_hex :: "nat \<Rightarrow> string \<Rightarrow> 16 word list" where
  "from_hex 0 s = []"
| "from_hex (Suc n) s = word_of_nat (hex_val (take 4 s)) # from_hex n (drop 4 s)"

lemma hex_value_digit: "d < 16 \<Longrightarrow> hex_value (hex_digit d) = d"
  by (auto simp: hex_value_def hex_digit_def Let_def)

lemma hex_val_append: "hex_val (s @ [c]) = hex_val s * 16 + hex_value c"
  by (simp add: hex_val_def)

lemma hex_val_hex_str: "hex_val (hex_str n) = n"
proof (induction n rule: hex_str.induct)
  case (1 n)
  show ?case
  proof (cases "n < 16")
    case True
    then show ?thesis by (simp add: hex_str.simps [of n] hex_val_def hex_value_digit)
  next
    case False
    with 1 show ?thesis by (simp add: hex_str.simps [of n] hex_val_append hex_value_digit)
  qed
qed

lemma length_hex_str: "0 < k \<Longrightarrow> n < 16 ^ k \<Longrightarrow> length (hex_str n) \<le> k"
proof (induction n arbitrary: k rule: hex_str.induct)
  case (1 n)
  show ?case
  proof (cases "n < 16")
    case True
    with 1 show ?thesis by (simp add: hex_str.simps [of n])
  next
    case False
    then obtain j where j: "k = Suc j" "0 < j" using 1 by (cases k; cases "k = 1") auto
    have "n div 16 < 16 ^ j" using 1 j by (simp add: less_mult_imp_div_less)
    with 1 False j show ?thesis by (simp add: hex_str.simps [of n])
  qed
qed

lemma hex_str_neq_Nil: "hex_str n \<noteq> []"
  by (subst hex_str.simps) simp

lemma hex_val_zeros: "hex_val (replicate k CHR ''0'' @ s) = hex_val s"
proof -
  have z: "hex_value CHR ''0'' = 0" by (simp add: hex_value_def)
  have "hex_val (replicate k CHR ''0'') = 0"
    by (induction k) (simp_all add: hex_val_def z)
  then show ?thesis by (simp add: hex_val_def)
qed

lemma hex_unit_props: "length (hex_unit u) = 4" "hex_val (hex_unit u) = unat u"
proof -
  have "unat u < 16 ^ 4" using unsigned_less [of u] by simp
  then have l: "length (hex_str (unat u)) \<le> 4" "0 < length (hex_str (unat u))"
    using length_hex_str [of 4 "unat u"] hex_str_neq_Nil by simp_all
  let ?h = "''000'' @ hex_str (unat u)"
  have z: "''000'' = replicate 3 CHR ''0''" by (simp add: numeral_3_eq_3)
  have h: "hex_unit u = replicate (4 - length (hex_str (unat u))) CHR ''0'' @ hex_str (unat u)"
  proof -
    obtain m where "length (hex_str (unat u)) = Suc m" "m \<le> 3"
      using l by (cases "length (hex_str (unat u))") auto
    then show ?thesis by (simp add: hex_unit_def Let_def z del: replicate.simps)
  qed
  show "length (hex_unit u) = 4" using l by (simp add: h)
  show "hex_val (hex_unit u) = unat u" by (simp add: h hex_val_zeros hex_val_hex_str)
qed

lemma toHex_concat: "toHex us = concat (map hex_unit us)"
proof -
  have "foldl (\<lambda>result u. result @ hex_unit u) r us = r @ concat (map hex_unit us)" for r
    by (induction us arbitrary: r) auto
  then show ?thesis by (simp add: toHex_def)
qed

text \<open>
  The hexadecimal key made from a text has exactly four digits per UTF-16 code unit and
  determines the text, so different characters never share an entry of the code point table.
\<close>

theorem toHex_decodes:
  "length (toHex us) = 4 * length us \<and> from_hex (length us) (toHex us) = us"
  by (induction us) (simp_all add: toHex_concat hex_unit_props)

subsection \<open>Reading a rendered icon\<close>

definition svg_node :: "aval obj \<Rightarrow> pnode" where
  "svg_node as = \<lparr>nattrs = map (\<lambda>(k, v). (k, aval_text v)) as, has_classList = True, innerText = None\<rparr>"

lemma getAttribute_svg_node: "getAttribute (svg_node as) k = map_option aval_text (obj_get as k)"
  by (induction as) (auto simp: svg_node_def)

lemma svg_data_attributes:
  "obj_get (snd (fst (svg_content s p draw k))) ''data-prefix'' = Some (str_attr (p_prefix p))"
  "obj_get (snd (fst (svg_content s p draw k))) ''data-icon'' = Some (str_attr (p_iconName p))"
  by (auto simp: svg_content_def Let_def js_simps DATA_FA_I2SVG_def split: prod.splits)

text \<open>
  Parsing the svg element an icon was rendered to yields the prefix and the name the icon
  was rendered for, for icons of every width: the data attributes take precedence over the
  classes.
\<close>

theorem parse_rendered_icon:
  assumes "p_prefix p = Some prefix" "prefix \<noteq> []" "p_iconName p = Some name" "name \<noteq> []"
    and "svg_content s p draw k = ((cs, as), k')"
  shows "\<exists>rest. classParser t (svg_node as) = Inr \<lparr>cprefix = Some prefix, cname = Some name, crest = rest\<rparr> \<and>
    rest = crest (getCanonicalIcon t (node_classes (svg_node as)))"
proof -
  have a: "getAttribute (svg_node as) ''data-prefix'' = Some prefix" "getAttribute (svg_node as) ''data-icon'' = Some name"
    using svg_data_attributes [of s p draw k] assms by (simp_all add: getAttribute_svg_node str_attr_def)
  have i: "innerText (svg_node as) = None" by (simp add: svg_node_def)
  show ?thesis
    using assms(2,4) by (simp add: classParser_def Let_def a i given_def)
qed

theorem parse_rendered_icon_witness:
  "\<exists>as rest. classParser demo_reg (svg_node as) =
     Inr \<lparr>cprefix = Some ''fas'', cname = Some ''font-awesome-logo-full'', crest = rest\<rparr>"
proof -
  obtain cs as k' where c: "svg_content demo_reg logo_params (\<lambda>i. i) 0 = ((cs, as), k')"
    by (metis surj_pair)
  have p: "p_prefix logo_params = Some ''fas''" "p_iconName logo_params = Some ''font-awesome-logo-full''"
    by (simp_all add: logo_params_def demo_params_def)
  show ?thesis
    using parse_rendered_icon [OF p(1) _ p(2) _ c, of demo_reg] by force
qed

subsection \<open>The attributes passed on\<close>

lemma attribute_fold:
  assumes "''name'' \<notin> set (obj_keys as)" "obj_get acc ''name'' = None" "distinct (obj_keys as)"
  shows "obj_get (fold attribute_step as acc) k =
    (case obj_get as k of Some v \<Rightarrow> Some (AStr v) | None \<Rightarrow> obj_get acc k)"
  using assms
proof (induction as arbitrary: acc)
  case (Cons a as)
  obtain n v where a: "a = (n, v)" by (cases a)
  have step: "attribute_step a acc = obj_set n (AStr v) acc"
    using Cons.prems by (simp add: attribute_step_def a)
  have m: "obj_get as n = None" using Cons.prems by (simp add: a map_of_eq_None_iff)
  have "obj_get (fold attribute_step as (obj_set n (AStr v) acc)) k =
      (case obj_get as k of Some w \<Rightarrow> Some (AStr w) | None \<Rightarrow> obj_get (obj_set n (AStr v) acc) k)"
    by (rule Cons.IH) (use Cons.prems a in \<open>auto simp: js_simps\<close>)
  then show ?case using m by (auto simp: step [unfolded a] a js_simps split: option.splits)
qed simp

text \<open>
  The filter that should keep the class and style attributes out of the attributes passed
  on to the rendered icon never fires on a node without an attribute called "name": every
  attribute is passed on, class and style included (the test looks at the attribute
  collected under "name", not at the name of the attribute).
\<close>

theorem attributes_unfiltered:
  assumes "''name'' \<notin> set (obj_keys (nattrs n))" "distinct (obj_keys (nattrs n))"
    and "key \<notin> {''aria-labelledby'', ''aria-hidden'', ''focusable''}"
  shows "obj_get (fst (attributesParser s n draw k)) key = map_option AStr (getAttribute n key)"
proof -
  have "obj_get (fold attribute_step (nattrs n) []) key = map_option AStr (getAttribute n key)"
    using attribute_fold [OF assms(1) _ assms(2), of "[]" key] by (auto split: option.splits)
  then show ?thesis
    using assms(3) by (auto simp: attributesParser_def Let_def js_simps split: prod.splits)
qed

theorem attributes_unfiltered_witness:
  "obj_get (fst (attributesParser demo_reg \<lparr>nattrs = [(''class'', ''fas fa-cog''), (''style'', ''color: red'')],
     has_classList = True, innerText = None\<rparr> (\<lambda>i. i) 0)) ''class'' = Some (AStr ''fas fa-cog'')"
  by (subst attributes_unfiltered) simp_all

end
