(* ===== verification/Fa_Tables.thy ===== *)
theory Fa_Tables
  imports Fa_Library
begin

text \<open>
  The icon packs \<^verbatim>\<open>web-admin/fontawesome/js/{solid,regular,brands}.js\<close> and the version 4 names of
  \<^verbatim>\<open>v4-shims.js\<close>.  A row is the name, width, height, ligatures and code point of an icon; the
  fifth component of the source, the SVG path data, is the parameter \<open>path\<close> of \<open>pack\<close> (a
  function of the icon's name): nothing the code does depends on it.
\<close>

type_synonym icon_row = "string \<times> nat \<times> nat \<times> string list \<times> string"

definition solid_1 :: "icon_row list" where
  "solid_1 = [
    (''ad'', 512, 512, [], ''f641''), (''address-book'', 448, 512, [], ''f2b9''),
    (''address-card'', 576, 512, [], ''f2bb''), (''adjust'', 512, 512, [], ''f042''),
    (''air-freshener'', 384, 512, [], ''f5d0''), (''align-center'', 448, 512, [], ''f037''),
    (''align-justify'', 448, 512, [], ''f039''), (''align-left'', 448, 512, [], ''f036''),
    (''align-right'', 448, 512, [], ''f038''), (''allergies'', 448, 512, [], ''f461''),
    (''ambulance'', 640, 512, [], ''f0f9''),
    (''american-sign-language-interpreting'', 640, 512, [], ''f2a3''),
    (''anchor'', 576, 512, [], ''f13d''), (''angle-double-down'', 320, 512, [], ''f103''),
    (''angle-double-left'', 448, 512, [], ''f100''),
    (''angle-double-right'', 448, 512, [], ''f101''), (''angle-double-up'', 320, 512, [], ''f102''),
    (''angle-down'', 320, 512, [], ''f107''), (''angle-left'', 256, 512, [], ''f104''),
    (''angle-right'', 256, 512, [], ''f105''), (''angle-up'', 320, 512, [], ''f106''),
    (''angry'', 496, 512, [], ''f556''), (''ankh'', 320, 512, [], ''f644''),
    (''apple-alt'', 448, 512, [], ''f5d1''), (''archive'', 512, 512, [], ''f187''),
    (''archway'', 576, 512, [], ''f557''), (''arrow-alt-circle-down'', 512, 512, [], ''f358''),
    (''arrow-alt-circle-left'', 512, 512, [], ''f359''),
    (''arrow-alt-circle-right'', 512, 512, [], ''f35a''),
    (''arrow-alt-circle-up'', 512, 512, [], ''f35b''),
    (''arrow-circle-down'', 512, 512, [], ''f0ab''),
    (''arrow-circle-left'', 512, 512, [], ''f0a8''),
    (''arrow-circle-right'', 512, 512, [], ''f0a9''), (''arrow-circle-up'', 512, 512, [], ''f0aa''),
    (''arrow-down'', 448, 512, [], ''f063''), (''arrow-left'', 448, 512, [], ''f060''),
    (''arrow-right'', 448, 512, [], ''f061''), (''arrow-up'', 448, 512, [], ''f062''),
    (''arrows-alt'', 512, 512, [], ''f0b2''), (''arrows-alt-h'', 512, 512, [], ''f337''),
    (''arrows-alt-v'', 256, 512, [], ''f338''),
    (''assistive-listening-systems'', 512, 512, [], ''f2a2''),
    (''asterisk'', 512, 512, [], ''f069''), (''at'', 512, 512, [], ''f1fa''),
    (''atlas'', 448, 512, [], ''f558''), (''atom'', 448, 512, [], ''f5d2''),
    (''audio-description'', 512, 512, [], ''f29e''), (''award'', 384, 512, [], ''f559''),
    (''baby'', 384, 512, [], ''f77c''), (''baby-carriage'', 512, 512, [], ''f77d''),
    (''backspace'', 640, 512, [], ''f55a''), (''backward'', 512, 512, [], ''f04a''),
    (''bacon'', 576, 512, [], ''f7e5''), (''balance-scale'', 640, 512, [], ''f24e''),
    (''ban'', 512, 512, [], ''f05e''), (''band-aid'', 640, 512, [], ''f462''),
    (''barcode'', 512, 512, [], ''f02a''), (''bars'', 448, 512, [], ''f0c9''),
    (''baseball-ball'', 496, 512, [], ''f433''), (''basketball-ball'', 496, 512, [], ''f434''),
    (''bath'', 512, 512, [], ''f2cd''), (''battery-empty'', 640, 512, [], ''f244''),
    (''battery-full'', 640, 512, [], ''f240''), (''battery-half'', 640, 512, [], ''f242''),
    (''battery-quarter'', 640, 512, [], ''f243''),
    (''battery-three-quarters'', 640, 512, [], ''f241''), (''bed'', 640, 512, [], ''f236''),
    (''beer'', 448, 512, [], ''f0fc''), (''bell'', 448, 512, [], ''f0f3''),
    (''bell-slash'', 640, 512, [], ''f1f6''), (''bezier-curve'', 640, 512, [], ''f55b''),
    (''bible'', 448, 512, [], ''f647''), (''bicycle'', 640, 512, [], ''f206''),
    (''binoculars'', 512, 512, [], ''f1e5''), (''biohazard'', 576, 512, [], ''f780''),
    (''birthday-cake'', 448, 512, [], ''f1fd''), (''blender'', 512, 512, [], ''f517''),
    (''blender-phone'', 576, 512, [], ''f6b6''), (''blind'', 384, 512, [], ''f29d''),
    (''blog'', 512, 512, [], ''f781''), (''bold'', 384, 512, [], ''f032''),
    (''bolt'', 320, 512, [], ''f0e7''), (''bomb'', 512, 512, [], ''f1e2''),
    (''bone'', 640, 512, [], ''f5d7''), (''bong'', 448, 512, [], ''f55c''),
    (''book'', 448, 512, [], ''f02d''), (''book-dead'', 448, 512, [], ''f6b7''),
    (''book-medical'', 448, 512, [], ''f7e6''), (''book-open'', 576, 512, [], ''f518''),
    (''book-reader'', 512, 512, [], ''f5da''), (''bookmark'', 384, 512, [], ''f02e''),
    (''bowling-ball'', 496, 512, [], ''f436''), (''box'', 512, 512, [], ''f466''),
    (''box-open'', 640, 512, [], ''f49e''), (''boxes'', 576, 512, [], ''f468''),
    (''braille'', 640, 512, [], ''f2a1''), (''brain'', 576, 512, [], ''f5dc''),
    (''bread-slice'', 576, 512, [], ''f7ec''), (''briefcase'', 512, 512, [], ''f0b1''),
    (''briefcase-medical'', 512, 512, [], ''f469''), (''broadcast-tower'', 640, 512, [], ''f519''),
    (''broom'', 640, 512, [], ''f51a''), (''brush'', 384, 512, [], ''f55d''),
    (''bug'', 512, 512, [], ''f188''), (''building'', 448, 512, [], ''f1ad''),
    (''bullhorn'', 576, 512, [], ''f0a1''), (''bullseye'', 496, 512, [], ''f140''),
    (''burn'', 384, 512, [], ''f46a''), (''bus'', 512, 512, [], ''f207''),
    (''bus-alt'', 512, 512, [], ''f55e''), (''business-time'', 640, 512, [], ''f64a''),
    (''calculator'', 448, 512, [], ''f1ec''), (''calendar'', 448, 512, [], ''f133''),
    (''calendar-alt'', 448, 512, [], ''f073''), (''calendar-check'', 448, 512, [], ''f274''),
    (''calendar-day'', 448, 512, [], ''f783''), (''calendar-minus'', 448, 512, [], ''f272''),
    (''calendar-plus'', 448, 512, [], ''f271''), (''calendar-times'', 448, 512, [], ''f273''),
    (''calendar-week'', 448, 512, [], ''f784''), (''camera'', 512, 512, [], ''f030''),
    (''camera-retro'', 512, 512, [], ''f083''), (''campground'', 640, 512, [], ''f6bb''),
    (''candy-cane'', 512, 512, [], ''f786''), (''cannabis'', 512, 512, [], ''f55f''),
    (''capsules'', 576, 512, [], ''f46b''), (''car'', 512, 512, [], ''f1b9''),
    (''car-alt'', 480, 512, [], ''f5de''), (''car-battery'', 512, 512, [], ''f5df''),
    (''car-crash'', 640, 512, [], ''f5e1''), (''car-side'', 640, 512, [], ''f5e4''),
    (''caret-down'', 320, 512, [], ''f0d7''), (''caret-left'', 192, 512, [], ''f0d9''),
    (''caret-right'', 192, 512, [], ''f0da''), (''caret-square-down'', 448, 512, [], ''f150'')]"

definition solid_2 :: "icon_row list" where
  "solid_2 = [
    (''caret-square-left'', 448, 512, [], ''f191''),
    (''caret-square-right'', 448, 512, [], ''f152''), (''caret-square-up'', 448, 512, [], ''f151''),
    (''caret-up'', 320, 512, [], ''f0d8''), (''carrot'', 512, 512, [], ''f787''),
    (''cart-arrow-down'', 576, 512, [], ''f218''), (''cart-plus'', 576, 512, [], ''f217''),
    (''cash-register'', 512, 512, [], ''f788''), (''cat'', 512, 512, [], ''f6be''),
    (''certificate'', 512, 512, [], ''f0a3''), (''chair'', 448, 512, [], ''f6c0''),
    (''chalkboard'', 640, 512, [], ''f51b''), (''chalkboard-teacher'', 640, 512, [], ''f51c''),
    (''charging-station'', 576, 512, [], ''f5e7''), (''chart-area'', 512, 512, [], ''f1fe''),
    (''chart-bar'', 512, 512, [], ''f080''), (''chart-line'', 512, 512, [], ''f201''),
    (''chart-pie'', 544, 512, [], ''f200''), (''check'', 512, 512, [], ''f00c''),
    (''check-circle'', 512, 512, [], ''f058''), (''check-double'', 512, 512, [], ''f560''),
    (''check-square'', 448, 512, [], ''f14a''), (''cheese'', 512, 512, [], ''f7ef''),
    (''chess'', 512, 512, [], ''f439''), (''chess-bishop'', 320, 512, [], ''f43a''),
    (''chess-board'', 512, 512, [], ''f43c''), (''chess-king'', 448, 512, [], ''f43f''),
    (''chess-knight'', 384, 512, [], ''f441''), (''chess-pawn'', 320, 512, [], ''f443''),
    (''chess-queen'', 512, 512, [], ''f445''), (''chess-rook'', 384, 512, [], ''f447''),
    (''chevron-circle-down'', 512, 512, [], ''f13a''),
    (''chevron-circle-left'', 512, 512, [], ''f137''),
    (''chevron-circle-right'', 512, 512, [], ''f138''),
    (''chevron-circle-up'', 512, 512, [], ''f139''), (''chevron-down'', 448, 512, [], ''f078''),
    (''chevron-left'', 320, 512, [], ''f053''), (''chevron-right'', 320, 512, [], ''f054''),
    (''chevron-up'', 448, 512, [], ''f077''), (''child'', 384, 512, [], ''f1ae''),
    (''church'', 640, 512, [], ''f51d''), (''circle'', 512, 512, [], ''f111''),
    (''circle-notch'', 512, 512, [], ''f1ce''), (''city'', 640, 512, [], ''f64f''),
    (''clinic-medical'', 576, 512, [], ''f7f2''), (''clipboard'', 384, 512, [], ''f328''),
    (''clipboard-check'', 384, 512, [], ''f46c''), (''clipboard-list'', 384, 512, [], ''f46d''),
    (''clock'', 512, 512, [], ''f017''), (''clone'', 512, 512, [], ''f24d''),
    (''closed-captioning'', 512, 512, [], ''f20a''), (''cloud'', 640, 512, [], ''f0c2''),
    (''cloud-download-alt'', 640, 512, [], ''f381''), (''cloud-meatball'', 512, 512, [], ''f73b''),
    (''cloud-moon'', 576, 512, [], ''f6c3''), (''cloud-moon-rain'', 576, 512, [], ''f73c''),
    (''cloud-rain'', 512, 512, [], ''f73d''), (''cloud-showers-heavy'', 512, 512, [], ''f740''),
    (''cloud-sun'', 640, 512, [], ''f6c4''), (''cloud-sun-rain'', 576, 512, [], ''f743''),
    (''cloud-upload-alt'', 640, 512, [], ''f382''), (''cocktail'', 576, 512, [], ''f561''),
    (''code'', 640, 512, [], ''f121''), (''code-branch'', 384, 512, [], ''f126''),
    (''coffee'', 640, 512, [], ''f0f4''), (''cog'', 512, 512, [], ''f013''),
    (''cogs'', 640, 512, [], ''f085''), (''coins'', 512, 512, [], ''f51e''),
    (''columns'', 512, 512, [], ''f0db''), (''comment'', 512, 512, [], ''f075''),
    (''comment-alt'', 512, 512, [], ''f27a''), (''comment-dollar'', 512, 512, [], ''f651''),
    (''comment-dots'', 512, 512, [], ''f4ad''), (''comment-medical'', 512, 512, [], ''f7f5''),
    (''comment-slash'', 640, 512, [], ''f4b3''), (''comments'', 576, 512, [], ''f086''),
    (''comments-dollar'', 576, 512, [], ''f653''), (''compact-disc'', 496, 512, [], ''f51f''),
    (''compass'', 496, 512, [], ''f14e''), (''compress'', 448, 512, [], ''f066''),
    (''compress-arrows-alt'', 512, 512, [], ''f78c''), (''concierge-bell'', 512, 512, [], ''f562''),
    (''cookie'', 512, 512, [], ''f563''), (''cookie-bite'', 512, 512, [], ''f564''),
    (''copy'', 448, 512, [], ''f0c5''), (''copyright'', 512, 512, [], ''f1f9''),
    (''couch'', 640, 512, [], ''f4b8''), (''credit-card'', 576, 512, [], ''f09d''),
    (''crop'', 512, 512, [], ''f125''), (''crop-alt'', 512, 512, [], ''f565''),
    (''cross'', 384, 512, [], ''f654''), (''crosshairs'', 512, 512, [], ''f05b''),
    (''crow'', 640, 512, [], ''f520''), (''crown'', 640, 512, [], ''f521''),
    (''crutch'', 512, 512, [], ''f7f7''), (''cube'', 512, 512, [], ''f1b2''),
    (''cubes'', 512, 512, [], ''f1b3''), (''cut'', 448, 512, [], ''f0c4''),
    (''database'', 448, 512, [], ''f1c0''), (''deaf'', 512, 512, [], ''f2a4''),
    (''democrat'', 640, 512, [], ''f747''), (''desktop'', 576, 512, [], ''f108''),
    (''dharmachakra'', 512, 512, [], ''f655''), (''diagnoses'', 640, 512, [], ''f470''),
    (''dice'', 640, 512, [], ''f522''), (''dice-d20'', 480, 512, [], ''f6cf''),
    (''dice-d6'', 448, 512, [], ''f6d1''), (''dice-five'', 448, 512, [], ''f523''),
    (''dice-four'', 448, 512, [], ''f524''), (''dice-one'', 448, 512, [], ''f525''),
    (''dice-six'', 448, 512, [], ''f526''), (''dice-three'', 448, 512, [], ''f527''),
    (''dice-two'', 448, 512, [], ''f528''), (''digital-tachograph'', 640, 512, [], ''f566''),
    (''directions'', 512, 512, [], ''f5eb''), (''divide'', 448, 512, [], ''f529''),
    (''dizzy'', 496, 512, [], ''f567''), (''dna'', 448, 512, [], ''f471''),
    (''dog'', 512, 512, [], ''f6d3''), (''dollar-sign'', 288, 512, [], ''f155''),
    (''dolly'', 576, 512, [], ''f472''), (''dolly-flatbed'', 640, 512, [], ''f474''),
    (''donate'', 512, 512, [], ''f4b9''), (''door-closed'', 640, 512, [], ''f52a''),
    (''door-open'', 640, 512, [], ''f52b''), (''dot-circle'', 512, 512, [], ''f192''),
    (''dove'', 512, 512, [], ''f4ba''), (''download'', 512, 512, [], ''f019''),
    (''drafting-compass'', 512, 512, [], ''f568''), (''dragon'', 640, 512, [], ''f6d5''),
    (''draw-polygon'', 448, 512, [], ''f5ee''), (''drum'', 576, 512, [], ''f569''),
    (''drum-steelpan'', 576, 512, [], ''f56a''), (''drumstick-bite'', 512, 512, [], ''f6d7''),
    (''dumbbell'', 640, 512, [], ''f44b'')]"

definition solid_3 :: "icon_row list" where
  "solid_3 = [
    (''dumpster'', 576, 512, [], ''f793''), (''dumpster-fire'', 640, 512, [], ''f794''),
    (''dungeon'', 512, 512, [], ''f6d9''), (''edit'', 576, 512, [], ''f044''),
    (''egg'', 384, 512, [], ''f7fb''), (''eject'', 448, 512, [], ''f052''),
    (''ellipsis-h'', 512, 512, [], ''f141''), (''ellipsis-v'', 192, 512, [], ''f142''),
    (''envelope'', 512, 512, [], ''f0e0''), (''envelope-open'', 512, 512, [], ''f2b6''),
    (''envelope-open-text'', 512, 512, [], ''f658''), (''envelope-square'', 448, 512, [], ''f199''),
    (''equals'', 448, 512, [], ''f52c''), (''eraser'', 512, 512, [], ''f12d''),
    (''ethernet'', 512, 512, [], ''f796''), (''euro-sign'', 320, 512, [], ''f153''),
    (''exchange-alt'', 512, 512, [], ''f362''), (''exclamation'', 192, 512, [], ''f12a''),
    (''exclamation-circle'', 512, 512, [], ''f06a''),
    (''exclamation-triangle'', 576, 512, [], ''f071''), (''expand'', 448, 512, [], ''f065''),
    (''expand-arrows-alt'', 448, 512, [], ''f31e''),
    (''external-link-alt'', 576, 512, [], ''f35d''),
    (''external-link-square-alt'', 448, 512, [], ''f360''), (''eye'', 576, 512, [], ''f06e''),
    (''eye-dropper'', 512, 512, [], ''f1fb''), (''eye-slash'', 640, 512, [], ''f070''),
    (''fast-backward'', 512, 512, [], ''f049''), (''fast-forward'', 512, 512, [], ''f050''),
    (''fax'', 512, 512, [], ''f1ac''), (''feather'', 512, 512, [], ''f52d''),
    (''feather-alt'', 512, 512, [], ''f56b''), (''female'', 256, 512, [], ''f182''),
    (''fighter-jet'', 640, 512, [], ''f0fb''), (''file'', 384, 512, [], ''f15b''),
    (''file-alt'', 384, 512, [], ''f15c''), (''file-archive'', 384, 512, [], ''f1c6''),
    (''file-audio'', 384, 512, [], ''f1c7''), (''file-code'', 384, 512, [], ''f1c9''),
    (''file-contract'', 384, 512, [], ''f56c''), (''file-csv'', 384, 512, [], ''f6dd''),
    (''file-download'', 384, 512, [], ''f56d''), (''file-excel'', 384, 512, [], ''f1c3''),
    (''file-export'', 576, 512, [], ''f56e''), (''file-image'', 384, 512, [], ''f1c5''),
    (''file-import'', 512, 512, [], ''f56f''), (''file-invoice'', 384, 512, [], ''f570''),
    (''file-invoice-dollar'', 384, 512, [], ''f571''), (''file-medical'', 384, 512, [], ''f477''),
    (''file-medical-alt'', 448, 512, [], ''f478''), (''file-pdf'', 384, 512, [], ''f1c1''),
    (''file-powerpoint'', 384, 512, [], ''f1c4''), (''file-prescription'', 384, 512, [], ''f572''),
    (''file-signature'', 576, 512, [], ''f573''), (''file-upload'', 384, 512, [], ''f574''),
    (''file-video'', 384, 512, [], ''f1c8''), (''file-word'', 384, 512, [], ''f1c2''),
    (''fill'', 512, 512, [], ''f575''), (''fill-drip'', 576, 512, [], ''f576''),
    (''film'', 512, 512, [], ''f008''), (''filter'', 512, 512, [], ''f0b0''),
    (''fingerprint'', 512, 512, [], ''f577''), (''fire'', 384, 512, [], ''f06d''),
    (''fire-alt'', 448, 512, [], ''f7e4''), (''fire-extinguisher'', 448, 512, [], ''f134''),
    (''first-aid'', 576, 512, [], ''f479''), (''fish'', 576, 512, [], ''f578''),
    (''fist-raised'', 384, 512, [], ''f6de''), (''flag'', 512, 512, [], ''f024''),
    (''flag-checkered'', 512, 512, [], ''f11e''), (''flag-usa'', 512, 512, [], ''f74d''),
    (''flask'', 448, 512, [], ''f0c3''), (''flushed'', 496, 512, [], ''f579''),
    (''folder'', 512, 512, [], ''f07b''), (''folder-minus'', 512, 512, [], ''f65d''),
    (''folder-open'', 576, 512, [], ''f07c''), (''folder-plus'', 512, 512, [], ''f65e''),
    (''font'', 448, 512, [], ''f031''),
    (''font-awesome-logo-full'', 3992, 512, [''Font Awesome''], ''f4e6''),
    (''football-ball'', 496, 512, [], ''f44e''), (''forward'', 512, 512, [], ''f04e''),
    (''frog'', 576, 512, [], ''f52e''), (''frown'', 496, 512, [], ''f119''),
    (''frown-open'', 496, 512, [], ''f57a''), (''funnel-dollar'', 640, 512, [], ''f662''),
    (''futbol'', 512, 512, [], ''f1e3''), (''gamepad'', 640, 512, [], ''f11b''),
    (''gas-pump'', 512, 512, [], ''f52f''), (''gavel'', 512, 512, [], ''f0e3''),
    (''gem'', 576, 512, [], ''f3a5''), (''genderless'', 288, 512, [], ''f22d''),
    (''ghost'', 384, 512, [], ''f6e2''), (''gift'', 512, 512, [], ''f06b''),
    (''gifts'', 640, 512, [], ''f79c''), (''glass-cheers'', 640, 512, [], ''f79f''),
    (''glass-martini'', 512, 512, [], ''f000''), (''glass-martini-alt'', 512, 512, [], ''f57b''),
    (''glass-whiskey'', 512, 512, [], ''f7a0''), (''glasses'', 576, 512, [], ''f530''),
    (''globe'', 496, 512, [], ''f0ac''), (''globe-africa'', 496, 512, [], ''f57c''),
    (''globe-americas'', 496, 512, [], ''f57d''), (''globe-asia'', 496, 512, [], ''f57e''),
    (''globe-europe'', 496, 512, [], ''f7a2''), (''golf-ball'', 416, 512, [], ''f450''),
    (''gopuram'', 512, 512, [], ''f664''), (''graduation-cap'', 640, 512, [], ''f19d''),
    (''greater-than'', 384, 512, [], ''f531''), (''greater-than-equal'', 448, 512, [], ''f532''),
    (''grimace'', 496, 512, [], ''f57f''), (''grin'', 496, 512, [], ''f580''),
    (''grin-alt'', 496, 512, [], ''f581''), (''grin-beam'', 496, 512, [], ''f582''),
    (''grin-beam-sweat'', 504, 512, [], ''f583''), (''grin-hearts'', 496, 512, [], ''f584''),
    (''grin-squint'', 496, 512, [], ''f585''), (''grin-squint-tears'', 512, 512, [], ''f586''),
    (''grin-stars'', 496, 512, [], ''f587''), (''grin-tears'', 640, 512, [], ''f588''),
    (''grin-tongue'', 496, 512, [], ''f589''), (''grin-tongue-squint'', 496, 512, [], ''f58a''),
    (''grin-tongue-wink'', 496, 512, [], ''f58b''), (''grin-wink'', 496, 512, [], ''f58c''),
    (''grip-horizontal'', 448, 512, [], ''f58d''), (''grip-lines'', 512, 512, [], ''f7a4''),
    (''grip-lines-vertical'', 256, 512, [], ''f7a5''), (''grip-vertical'', 320, 512, [], ''f58e''),
    (''guitar'', 512, 512, [], ''f7a6''), (''h-square'', 448, 512, [], ''f0fd''),
    (''hamburger'', 512, 512, [], ''f805''), (''hammer'', 576, 512, [], ''f6e3''),
    (''hamsa'', 512, 512, [], ''f665''), (''hand-holding'', 576, 512, [], ''f4bd''),
    (''hand-holding-heart'', 576, 512, [], ''f4be''), (''hand-holding-usd'', 544, 512, [], ''f4c0'')]"

definition solid_4 :: "icon_row list" where
  "solid_4 = [
    (''hand-lizard'', 576, 512, [], ''f258''), (''hand-middle-finger'', 512, 512, [], ''f806''),
    (''hand-paper'', 448, 512, [], ''f256''), (''hand-peace'', 448, 512, [], ''f25b''),
    (''hand-point-down'', 384, 512, [], ''f0a7''), (''hand-point-left'', 512, 512, [], ''f0a5''),
    (''hand-point-right'', 512, 512, [], ''f0a4''), (''hand-point-up'', 384, 512, [], ''f0a6''),
    (''hand-pointer'', 448, 512, [], ''f25a''), (''hand-rock'', 512, 512, [], ''f255''),
    (''hand-scissors'', 512, 512, [], ''f257''), (''hand-spock'', 512, 512, [], ''f259''),
    (''hands'', 640, 512, [], ''f4c2''), (''hands-helping'', 640, 512, [], ''f4c4''),
    (''handshake'', 640, 512, [], ''f2b5''), (''hanukiah'', 640, 512, [], ''f6e6''),
    (''hard-hat'', 512, 512, [], ''f807''), (''hashtag'', 448, 512, [], ''f292''),
    (''hat-wizard'', 512, 512, [], ''f6e8''), (''haykal'', 512, 512, [], ''f666''),
    (''hdd'', 576, 512, [], ''f0a0''), (''heading'', 512, 512, [], ''f1dc''),
    (''headphones'', 512, 512, [], ''f025''), (''headphones-alt'', 512, 512, [], ''f58f''),
    (''headset'', 512, 512, [], ''f590''), (''heart'', 512, 512, [], ''f004''),
    (''heart-broken'', 512, 512, [], ''f7a9''), (''heartbeat'', 512, 512, [], ''f21e''),
    (''helicopter'', 640, 512, [], ''f533''), (''highlighter'', 544, 512, [], ''f591''),
    (''hiking'', 384, 512, [], ''f6ec''), (''hippo'', 640, 512, [], ''f6ed''),
    (''history'', 512, 512, [], ''f1da''), (''hockey-puck'', 512, 512, [], ''f453''),
    (''holly-berry'', 448, 512, [], ''f7aa''), (''home'', 576, 512, [], ''f015''),
    (''horse'', 576, 512, [], ''f6f0''), (''horse-head'', 512, 512, [], ''f7ab''),
    (''hospital'', 448, 512, [], ''f0f8''), (''hospital-alt'', 576, 512, [], ''f47d''),
    (''hospital-symbol'', 512, 512, [], ''f47e''), (''hot-tub'', 512, 512, [], ''f593''),
    (''hotdog'', 512, 512, [], ''f80f''), (''hotel'', 576, 512, [], ''f594''),
    (''hourglass'', 384, 512, [], ''f254''), (''hourglass-end'', 384, 512, [], ''f253''),
    (''hourglass-half'', 384, 512, [], ''f252''), (''hourglass-start'', 384, 512, [], ''f251''),
    (''house-damage'', 576, 512, [], ''f6f1''), (''hryvnia'', 384, 512, [], ''f6f2''),
    (''i-cursor'', 256, 512, [], ''f246''), (''ice-cream'', 448, 512, [], ''f810''),
    (''icicles'', 512, 512, [], ''f7ad''), (''id-badge'', 384, 512, [], ''f2c1''),
    (''id-card'', 576, 512, [], ''f2c2''), (''id-card-alt'', 576, 512, [], ''f47f''),
    (''igloo'', 576, 512, [], ''f7ae''), (''image'', 512, 512, [], ''f03e''),
    (''images'', 576, 512, [], ''f302''), (''inbox'', 576, 512, [], ''f01c''),
    (''indent'', 448, 512, [], ''f03c''), (''industry'', 512, 512, [], ''f275''),
    (''infinity'', 640, 512, [], ''f534''), (''info'', 192, 512, [], ''f129''),
    (''info-circle'', 512, 512, [], ''f05a''), (''italic'', 320, 512, [], ''f033''),
    (''jedi'', 544, 512, [], ''f669''), (''joint'', 640, 512, [], ''f595''),
    (''journal-whills'', 448, 512, [], ''f66a''), (''kaaba'', 576, 512, [], ''f66b''),
    (''key'', 512, 512, [], ''f084''), (''keyboard'', 576, 512, [], ''f11c''),
    (''khanda'', 512, 512, [], ''f66d''), (''kiss'', 496, 512, [], ''f596''),
    (''kiss-beam'', 496, 512, [], ''f597''), (''kiss-wink-heart'', 504, 512, [], ''f598''),
    (''kiwi-bird'', 576, 512, [], ''f535''), (''landmark'', 512, 512, [], ''f66f''),
    (''language'', 640, 512, [], ''f1ab''), (''laptop'', 640, 512, [], ''f109''),
    (''laptop-code'', 640, 512, [], ''f5fc''), (''laptop-medical'', 640, 512, [], ''f812''),
    (''laugh'', 496, 512, [], ''f599''), (''laugh-beam'', 496, 512, [], ''f59a''),
    (''laugh-squint'', 496, 512, [], ''f59b''), (''laugh-wink'', 496, 512, [], ''f59c''),
    (''layer-group'', 512, 512, [], ''f5fd''), (''leaf'', 576, 512, [], ''f06c''),
    (''lemon'', 512, 512, [], ''f094''), (''less-than'', 384, 512, [], ''f536''),
    (''less-than-equal'', 448, 512, [], ''f537''), (''level-down-alt'', 320, 512, [], ''f3be''),
    (''level-up-alt'', 320, 512, [], ''f3bf''), (''life-ring'', 512, 512, [], ''f1cd''),
    (''lightbulb'', 352, 512, [], ''f0eb''), (''link'', 512, 512, [], ''f0c1''),
    (''lira-sign'', 384, 512, [], ''f195''), (''list'', 512, 512, [], ''f03a''),
    (''list-alt'', 512, 512, [], ''f022''), (''list-ol'', 512, 512, [], ''f0cb''),
    (''list-ul'', 512, 512, [], ''f0ca''), (''location-arrow'', 512, 512, [], ''f124''),
    (''lock'', 448, 512, [], ''f023''), (''lock-open'', 576, 512, [], ''f3c1''),
    (''long-arrow-alt-down'', 256, 512, [], ''f309''),
    (''long-arrow-alt-left'', 448, 512, [], ''f30a''),
    (''long-arrow-alt-right'', 448, 512, [], ''f30b''),
    (''long-arrow-alt-up'', 256, 512, [], ''f30c''), (''low-vision'', 576, 512, [], ''f2a8''),
    (''luggage-cart'', 640, 512, [], ''f59d''), (''magic'', 512, 512, [], ''f0d0''),
    (''magnet'', 512, 512, [], ''f076''), (''mail-bulk'', 576, 512, [], ''f674''),
    (''male'', 192, 512, [], ''f183''), (''map'', 576, 512, [], ''f279''),
    (''map-marked'', 576, 512, [], ''f59f''), (''map-marked-alt'', 576, 512, [], ''f5a0''),
    (''map-marker'', 384, 512, [], ''f041''), (''map-marker-alt'', 384, 512, [], ''f3c5''),
    (''map-pin'', 288, 512, [], ''f276''), (''map-signs'', 512, 512, [], ''f277''),
    (''marker'', 512, 512, [], ''f5a1''), (''mars'', 384, 512, [], ''f222''),
    (''mars-double'', 512, 512, [], ''f227''), (''mars-stroke'', 384, 512, [], ''f229''),
    (''mars-stroke-h'', 480, 512, [], ''f22b''), (''mars-stroke-v'', 288, 512, [], ''f22a''),
    (''mask'', 640, 512, [], ''f6fa''), (''medal'', 512, 512, [], ''f5a2''),
    (''medkit'', 512, 512, [], ''f0fa''), (''meh'', 496, 512, [], ''f11a''),
    (''meh-blank'', 496, 512, [], ''f5a4''), (''meh-rolling-eyes'', 496, 512, [], ''f5a5''),
    (''memory'', 640, 512, [], ''f538''), (''menorah'', 640, 512, [], ''f676'')]"

definition solid_5 :: "icon_row list" where
  "solid_5 = [
    (''mercury'', 288, 512, [], ''f223''), (''meteor'', 512, 512, [], ''f753''),
    (''microchip'', 512, 512, [], ''f2db''), (''microphone'', 352, 512, [], ''f130''),
    (''microphone-alt'', 352, 512, [], ''f3c9''),
    (''microphone-alt-slash'', 640, 512, [], ''f539''),
    (''microphone-slash'', 640, 512, [], ''f131''), (''microscope'', 512, 512, [], ''f610''),
    (''minus'', 448, 512, [], ''f068''), (''minus-circle'', 512, 512, [], ''f056''),
    (''minus-square'', 448, 512, [], ''f146''), (''mitten'', 448, 512, [], ''f7b5''),
    (''mobile'', 320, 512, [], ''f10b''), (''mobile-alt'', 320, 512, [], ''f3cd''),
    (''money-bill'', 640, 512, [], ''f0d6''), (''money-bill-alt'', 640, 512, [], ''f3d1''),
    (''money-bill-wave'', 640, 512, [], ''f53a''),
    (''money-bill-wave-alt'', 640, 512, [], ''f53b''), (''money-check'', 640, 512, [], ''f53c''),
    (''money-check-alt'', 640, 512, [], ''f53d''), (''monument'', 384, 512, [], ''f5a6''),
    (''moon'', 512, 512, [], ''f186''), (''mortar-pestle'', 512, 512, [], ''f5a7''),
    (''mosque'', 640, 512, [], ''f678''), (''motorcycle'', 640, 512, [], ''f21c''),
    (''mountain'', 640, 512, [], ''f6fc''), (''mouse-pointer'', 320, 512, [], ''f245''),
    (''mug-hot'', 512, 512, [], ''f7b6''), (''music'', 512, 512, [], ''f001''),
    (''network-wired'', 640, 512, [], ''f6ff''), (''neuter'', 288, 512, [], ''f22c''),
    (''newspaper'', 576, 512, [], ''f1ea''), (''not-equal'', 448, 512, [], ''f53e''),
    (''notes-medical'', 384, 512, [], ''f481''), (''object-group'', 512, 512, [], ''f247''),
    (''object-ungroup'', 576, 512, [], ''f248''), (''oil-can'', 640, 512, [], ''f613''),
    (''om'', 512, 512, [], ''f679''), (''otter'', 640, 512, [], ''f700''),
    (''outdent'', 448, 512, [], ''f03b''), (''pager'', 512, 512, [], ''f815''),
    (''paint-brush'', 512, 512, [], ''f1fc''), (''paint-roller'', 512, 512, [], ''f5aa''),
    (''palette'', 512, 512, [], ''f53f''), (''pallet'', 640, 512, [], ''f482''),
    (''paper-plane'', 512, 512, [], ''f1d8''), (''paperclip'', 448, 512, [], ''f0c6''),
    (''parachute-box'', 512, 512, [], ''f4cd''), (''paragraph'', 448, 512, [], ''f1dd''),
    (''parking'', 448, 512, [], ''f540''), (''passport'', 448, 512, [], ''f5ab''),
    (''pastafarianism'', 640, 512, [], ''f67b''), (''paste'', 448, 512, [], ''f0ea''),
    (''pause'', 448, 512, [], ''f04c''), (''pause-circle'', 512, 512, [], ''f28b''),
    (''paw'', 512, 512, [], ''f1b0''), (''peace'', 496, 512, [], ''f67c''),
    (''pen'', 512, 512, [], ''f304''), (''pen-alt'', 512, 512, [], ''f305''),
    (''pen-fancy'', 512, 512, [], ''f5ac''), (''pen-nib'', 512, 512, [], ''f5ad''),
    (''pen-square'', 448, 512, [], ''f14b''), (''pencil-alt'', 512, 512, [], ''f303''),
    (''pencil-ruler'', 512, 512, [], ''f5ae''), (''people-carry'', 640, 512, [], ''f4ce''),
    (''pepper-hot'', 512, 512, [], ''f816''), (''percent'', 448, 512, [], ''f295''),
    (''percentage'', 384, 512, [], ''f541''), (''person-booth'', 576, 512, [], ''f756''),
    (''phone'', 512, 512, [], ''f095''), (''phone-slash'', 640, 512, [], ''f3dd''),
    (''phone-square'', 448, 512, [], ''f098''), (''phone-volume'', 384, 512, [], ''f2a0''),
    (''piggy-bank'', 576, 512, [], ''f4d3''), (''pills'', 576, 512, [], ''f484''),
    (''pizza-slice'', 512, 512, [], ''f818''), (''place-of-worship'', 640, 512, [], ''f67f''),
    (''plane'', 576, 512, [], ''f072''), (''plane-arrival'', 640, 512, [], ''f5af''),
    (''plane-departure'', 640, 512, [], ''f5b0''), (''play'', 448, 512, [], ''f04b''),
    (''play-circle'', 512, 512, [], ''f144''), (''plug'', 384, 512, [], ''f1e6''),
    (''plus'', 448, 512, [], ''f067''), (''plus-circle'', 512, 512, [], ''f055''),
    (''plus-square'', 448, 512, [], ''f0fe''), (''podcast'', 448, 512, [], ''f2ce''),
    (''poll'', 448, 512, [], ''f681''), (''poll-h'', 448, 512, [], ''f682''),
    (''poo'', 512, 512, [], ''f2fe''), (''poo-storm'', 448, 512, [], ''f75a''),
    (''poop'', 512, 512, [], ''f619''), (''portrait'', 384, 512, [], ''f3e0''),
    (''pound-sign'', 320, 512, [], ''f154''), (''power-off'', 512, 512, [], ''f011''),
    (''pray'', 384, 512, [], ''f683''), (''praying-hands'', 640, 512, [], ''f684''),
    (''prescription'', 384, 512, [], ''f5b1''), (''prescription-bottle'', 384, 512, [], ''f485''),
    (''prescription-bottle-alt'', 384, 512, [], ''f486''), (''print'', 512, 512, [], ''f02f''),
    (''procedures'', 640, 512, [], ''f487''), (''project-diagram'', 640, 512, [], ''f542''),
    (''puzzle-piece'', 576, 512, [], ''f12e''), (''qrcode'', 448, 512, [], ''f029''),
    (''question'', 384, 512, [], ''f128''), (''question-circle'', 512, 512, [], ''f059''),
    (''quidditch'', 640, 512, [], ''f458''), (''quote-left'', 512, 512, [], ''f10d''),
    (''quote-right'', 512, 512, [], ''f10e''), (''quran'', 448, 512, [], ''f687''),
    (''radiation'', 496, 512, [], ''f7b9''), (''radiation-alt'', 496, 512, [], ''f7ba''),
    (''rainbow'', 576, 512, [], ''f75b''), (''random'', 512, 512, [], ''f074''),
    (''receipt'', 384, 512, [], ''f543''), (''recycle'', 512, 512, [], ''f1b8''),
    (''redo'', 512, 512, [], ''f01e''), (''redo-alt'', 512, 512, [], ''f2f9''),
    (''registered'', 512, 512, [], ''f25d''), (''reply'', 512, 512, [], ''f3e5''),
    (''reply-all'', 576, 512, [], ''f122''), (''republican'', 640, 512, [], ''f75e''),
    (''restroom'', 640, 512, [], ''f7bd''), (''retweet'', 640, 512, [], ''f079''),
    (''ribbon'', 448, 512, [], ''f4d6''), (''ring'', 512, 512, [], ''f70b''),
    (''road'', 576, 512, [], ''f018''), (''robot'', 640, 512, [], ''f544''),
    (''rocket'', 512, 512, [], ''f135''), (''route'', 512, 512, [], ''f4d7''),
    (''rss'', 448, 512, [], ''f09e''), (''rss-square'', 448, 512, [], ''f143''),
    (''ruble-sign'', 384, 512, [], ''f158''), (''ruler'', 640, 512, [], ''f545'')]"

definition solid_6 :: "icon_row list" where
  "solid_6 = [
    (''ruler-combined'', 512, 512, [], ''f546''), (''ruler-horizontal'', 576, 512, [], ''f547''),
    (''ruler-vertical'', 256, 512, [], ''f548''), (''running'', 416, 512, [], ''f70c''),
    (''rupee-sign'', 320, 512, [], ''f156''), (''sad-cry'', 496, 512, [], ''f5b3''),
    (''sad-tear'', 496, 512, [], ''f5b4''), (''satellite'', 512, 512, [], ''f7bf''),
    (''satellite-dish'', 512, 512, [], ''f7c0''), (''save'', 448, 512, [], ''f0c7''),
    (''school'', 640, 512, [], ''f549''), (''screwdriver'', 512, 512, [], ''f54a''),
    (''scroll'', 640, 512, [], ''f70e''), (''sd-card'', 384, 512, [], ''f7c2''),
    (''search'', 512, 512, [], ''f002''), (''search-dollar'', 512, 512, [], ''f688''),
    (''search-location'', 512, 512, [], ''f689''), (''search-minus'', 512, 512, [], ''f010''),
    (''search-plus'', 512, 512, [], ''f00e''), (''seedling'', 512, 512, [], ''f4d8''),
    (''server'', 512, 512, [], ''f233''), (''shapes'', 512, 512, [], ''f61f''),
    (''share'', 512, 512, [], ''f064''), (''share-alt'', 448, 512, [], ''f1e0''),
    (''share-alt-square'', 448, 512, [], ''f1e1''), (''share-square'', 576, 512, [], ''f14d''),
    (''shekel-sign'', 448, 512, [], ''f20b''), (''shield-alt'', 512, 512, [], ''f3ed''),
    (''ship'', 640, 512, [], ''f21a''), (''shipping-fast'', 640, 512, [], ''f48b''),
    (''shoe-prints'', 640, 512, [], ''f54b''), (''shopping-bag'', 448, 512, [], ''f290''),
    (''shopping-basket'', 576, 512, [], ''f291''), (''shopping-cart'', 576, 512, [], ''f07a''),
    (''shower'', 512, 512, [], ''f2cc''), (''shuttle-van'', 640, 512, [], ''f5b6''),
    (''sign'', 512, 512, [], ''f4d9''), (''sign-in-alt'', 512, 512, [], ''f2f6''),
    (''sign-language'', 448, 512, [], ''f2a7''), (''sign-out-alt'', 512, 512, [], ''f2f5''),
    (''signal'', 640, 512, [], ''f012''), (''signature'', 640, 512, [], ''f5b7''),
    (''sim-card'', 384, 512, [], ''f7c4''), (''sitemap'', 640, 512, [], ''f0e8''),
    (''skating'', 448, 512, [], ''f7c5''), (''skiing'', 512, 512, [], ''f7c9''),
    (''skiing-nordic'', 576, 512, [], ''f7ca''), (''skull'', 512, 512, [], ''f54c''),
    (''skull-crossbones'', 448, 512, [], ''f714''), (''slash'', 640, 512, [], ''f715''),
    (''sleigh'', 640, 512, [], ''f7cc''), (''sliders-h'', 512, 512, [], ''f1de''),
    (''smile'', 496, 512, [], ''f118''), (''smile-beam'', 496, 512, [], ''f5b8''),
    (''smile-wink'', 496, 512, [], ''f4da''), (''smog'', 640, 512, [], ''f75f''),
    (''smoking'', 640, 512, [], ''f48d''), (''smoking-ban'', 512, 512, [], ''f54d''),
    (''sms'', 512, 512, [], ''f7cd''), (''snowboarding'', 512, 512, [], ''f7ce''),
    (''snowflake'', 448, 512, [], ''f2dc''), (''snowman'', 512, 512, [], ''f7d0''),
    (''snowplow'', 640, 512, [], ''f7d2''), (''socks'', 512, 512, [], ''f696''),
    (''solar-panel'', 640, 512, [], ''f5ba''), (''sort'', 320, 512, [], ''f0dc''),
    (''sort-alpha-down'', 448, 512, [], ''f15d''), (''sort-alpha-up'', 448, 512, [], ''f15e''),
    (''sort-amount-down'', 512, 512, [], ''f160''), (''sort-amount-up'', 512, 512, [], ''f161''),
    (''sort-down'', 320, 512, [], ''f0dd''), (''sort-numeric-down'', 448, 512, [], ''f162''),
    (''sort-numeric-up'', 448, 512, [], ''f163''), (''sort-up'', 320, 512, [], ''f0de''),
    (''spa'', 576, 512, [], ''f5bb''), (''space-shuttle'', 640, 512, [], ''f197''),
    (''spider'', 576, 512, [], ''f717''), (''spinner'', 512, 512, [], ''f110''),
    (''splotch'', 512, 512, [], ''f5bc''), (''spray-can'', 512, 512, [], ''f5bd''),
    (''square'', 448, 512, [], ''f0c8''), (''square-full'', 512, 512, [], ''f45c''),
    (''square-root-alt'', 576, 512, [], ''f698''), (''stamp'', 512, 512, [], ''f5bf''),
    (''star'', 576, 512, [], ''f005''), (''star-and-crescent'', 512, 512, [], ''f699''),
    (''star-half'', 576, 512, [], ''f089''), (''star-half-alt'', 536, 512, [], ''f5c0''),
    (''star-of-david'', 464, 512, [], ''f69a''), (''star-of-life'', 480, 512, [], ''f621''),
    (''step-backward'', 448, 512, [], ''f048''), (''step-forward'', 448, 512, [], ''f051''),
    (''stethoscope'', 512, 512, [], ''f0f1''), (''sticky-note'', 448, 512, [], ''f249''),
    (''stop'', 448, 512, [], ''f04d''), (''stop-circle'', 512, 512, [], ''f28d''),
    (''stopwatch'', 448, 512, [], ''f2f2''), (''store'', 616, 512, [], ''f54e''),
    (''store-alt'', 640, 512, [], ''f54f''), (''stream'', 512, 512, [], ''f550''),
    (''street-view'', 512, 512, [], ''f21d''), (''strikethrough'', 512, 512, [], ''f0cc''),
    (''stroopwafel'', 512, 512, [], ''f551''), (''subscript'', 512, 512, [], ''f12c''),
    (''subway'', 448, 512, [], ''f239''), (''suitcase'', 512, 512, [], ''f0f2''),
    (''suitcase-rolling'', 384, 512, [], ''f5c1''), (''sun'', 512, 512, [], ''f185''),
    (''superscript'', 512, 512, [], ''f12b''), (''surprise'', 496, 512, [], ''f5c2''),
    (''swatchbook'', 511, 512, [], ''f5c3''), (''swimmer'', 640, 512, [], ''f5c4''),
    (''swimming-pool'', 640, 512, [], ''f5c5''), (''synagogue'', 640, 512, [], ''f69b''),
    (''sync'', 512, 512, [], ''f021''), (''sync-alt'', 512, 512, [], ''f2f1''),
    (''syringe'', 512, 512, [], ''f48e''), (''table'', 512, 512, [], ''f0ce''),
    (''table-tennis'', 512, 512, [], ''f45d''), (''tablet'', 448, 512, [], ''f10a''),
    (''tablet-alt'', 448, 512, [], ''f3fa''), (''tablets'', 640, 512, [], ''f490''),
    (''tachometer-alt'', 576, 512, [], ''f3fd''), (''tag'', 512, 512, [], ''f02b''),
    (''tags'', 640, 512, [], ''f02c''), (''tape'', 640, 512, [], ''f4db''),
    (''tasks'', 512, 512, [], ''f0ae''), (''taxi'', 512, 512, [], ''f1ba''),
    (''teeth'', 640, 512, [], ''f62e''), (''teeth-open'', 640, 512, [], ''f62f''),
    (''temperature-high'', 512, 512, [], ''f769''), (''temperature-low'', 512, 512, [], ''f76b''),
    (''tenge'', 384, 512, [], ''f7d7''), (''terminal'', 640, 512, [], ''f120''),
    (''text-height'', 576, 512, [], ''f034'')]"

definition solid_7 :: "icon_row list" where
  "solid_7 = [
    (''text-width'', 448, 512, [], ''f035''), (''th'', 512, 512, [], ''f00a''),
    (''th-large'', 512, 512, [], ''f009''), (''th-list'', 512, 512, [], ''f00b''),
    (''theater-masks'', 640, 512, [], ''f630''), (''thermometer'', 512, 512, [], ''f491''),
    (''thermometer-empty'', 256, 512, [], ''f2cb''), (''thermometer-full'', 256, 512, [], ''f2c7''),
    (''thermometer-half'', 256, 512, [], ''f2c9''),
    (''thermometer-quarter'', 256, 512, [], ''f2ca''),
    (''thermometer-three-quarters'', 256, 512, [], ''f2c8''),
    (''thumbs-down'', 512, 512, [], ''f165''), (''thumbs-up'', 512, 512, [], ''f164''),
    (''thumbtack'', 384, 512, [], ''f08d''), (''ticket-alt'', 576, 512, [], ''f3ff''),
    (''times'', 352, 512, [], ''f00d''), (''times-circle'', 512, 512, [], ''f057''),
    (''tint'', 352, 512, [], ''f043''), (''tint-slash'', 640, 512, [], ''f5c7''),
    (''tired'', 496, 512, [], ''f5c8''), (''toggle-off'', 576, 512, [], ''f204''),
    (''toggle-on'', 576, 512, [], ''f205''), (''toilet'', 384, 512, [], ''f7d8''),
    (''toilet-paper'', 576, 512, [], ''f71e''), (''toolbox'', 512, 512, [], ''f552''),
    (''tools'', 512, 512, [], ''f7d9''), (''tooth'', 448, 512, [], ''f5c9''),
    (''torah'', 640, 512, [], ''f6a0''), (''torii-gate'', 512, 512, [], ''f6a1''),
    (''tractor'', 640, 512, [], ''f722''), (''trademark'', 640, 512, [], ''f25c''),
    (''traffic-light'', 384, 512, [], ''f637''), (''train'', 448, 512, [], ''f238''),
    (''tram'', 512, 512, [], ''f7da''), (''transgender'', 384, 512, [], ''f224''),
    (''transgender-alt'', 480, 512, [], ''f225''), (''trash'', 448, 512, [], ''f1f8''),
    (''trash-alt'', 448, 512, [], ''f2ed''), (''trash-restore'', 448, 512, [], ''f829''),
    (''trash-restore-alt'', 448, 512, [], ''f82a''), (''tree'', 384, 512, [], ''f1bb''),
    (''trophy'', 576, 512, [], ''f091''), (''truck'', 640, 512, [], ''f0d1''),
    (''truck-loading'', 640, 512, [], ''f4de''), (''truck-monster'', 640, 512, [], ''f63b''),
    (''truck-moving'', 640, 512, [], ''f4df''), (''truck-pickup'', 640, 512, [], ''f63c''),
    (''tshirt'', 640, 512, [], ''f553''), (''tty'', 512, 512, [], ''f1e4''),
    (''tv'', 640, 512, [], ''f26c''), (''umbrella'', 576, 512, [], ''f0e9''),
    (''umbrella-beach'', 640, 512, [], ''f5ca''), (''underline'', 448, 512, [], ''f0cd''),
    (''undo'', 512, 512, [], ''f0e2''), (''undo-alt'', 512, 512, [], ''f2ea''),
    (''universal-access'', 512, 512, [], ''f29a''), (''university'', 512, 512, [], ''f19c''),
    (''unlink'', 512, 512, [], ''f127''), (''unlock'', 448, 512, [], ''f09c''),
    (''unlock-alt'', 448, 512, [], ''f13e''), (''upload'', 512, 512, [], ''f093''),
    (''user'', 448, 512, [], ''f007''), (''user-alt'', 512, 512, [], ''f406''),
    (''user-alt-slash'', 640, 512, [], ''f4fa''), (''user-astronaut'', 448, 512, [], ''f4fb''),
    (''user-check'', 640, 512, [], ''f4fc''), (''user-circle'', 496, 512, [], ''f2bd''),
    (''user-clock'', 640, 512, [], ''f4fd''), (''user-cog'', 640, 512, [], ''f4fe''),
    (''user-edit'', 640, 512, [], ''f4ff''), (''user-friends'', 640, 512, [], ''f500''),
    (''user-graduate'', 448, 512, [], ''f501''), (''user-injured'', 448, 512, [], ''f728''),
    (''user-lock'', 640, 512, [], ''f502''), (''user-md'', 448, 512, [], ''f0f0''),
    (''user-minus'', 640, 512, [], ''f503''), (''user-ninja'', 448, 512, [], ''f504''),
    (''user-nurse'', 448, 512, [], ''f82f''), (''user-plus'', 640, 512, [], ''f234''),
    (''user-secret'', 448, 512, [], ''f21b''), (''user-shield'', 640, 512, [], ''f505''),
    (''user-slash'', 640, 512, [], ''f506''), (''user-tag'', 640, 512, [], ''f507''),
    (''user-tie'', 448, 512, [], ''f508''), (''user-times'', 640, 512, [], ''f235''),
    (''users'', 640, 512, [], ''f0c0''), (''users-cog'', 640, 512, [], ''f509''),
    (''utensil-spoon'', 512, 512, [], ''f2e5''), (''utensils'', 416, 512, [], ''f2e7''),
    (''vector-square'', 512, 512, [], ''f5cb''), (''venus'', 288, 512, [], ''f221''),
    (''venus-double'', 512, 512, [], ''f226''), (''venus-mars'', 576, 512, [], ''f228''),
    (''vial'', 480, 512, [], ''f492''), (''vials'', 640, 512, [], ''f493''),
    (''video'', 576, 512, [], ''f03d''), (''video-slash'', 640, 512, [], ''f4e2''),
    (''vihara'', 640, 512, [], ''f6a7''), (''volleyball-ball'', 495, 512, [], ''f45f''),
    (''volume-down'', 384, 512, [], ''f027''), (''volume-mute'', 512, 512, [], ''f6a9''),
    (''volume-off'', 257, 512, [], ''f026''), (''volume-up'', 576, 512, [], ''f028''),
    (''vote-yea'', 640, 512, [], ''f772''), (''vr-cardboard'', 640, 512, [], ''f729''),
    (''walking'', 320, 512, [], ''f554''), (''wallet'', 512, 512, [], ''f555''),
    (''warehouse'', 640, 512, [], ''f494''), (''water'', 576, 512, [], ''f773''),
    (''weight'', 512, 512, [], ''f496''), (''weight-hanging'', 512, 512, [], ''f5cd''),
    (''wheelchair'', 512, 512, [], ''f193''), (''wifi'', 640, 512, [], ''f1eb''),
    (''wind'', 512, 512, [], ''f72e''), (''window-close'', 512, 512, [], ''f410''),
    (''window-maximize'', 512, 512, [], ''f2d0''), (''window-minimize'', 512, 512, [], ''f2d1''),
    (''window-restore'', 512, 512, [], ''f2d2''), (''wine-bottle'', 512, 512, [], ''f72f''),
    (''wine-glass'', 288, 512, [], ''f4e3''), (''wine-glass-alt'', 288, 512, [], ''f5ce''),
    (''won-sign'', 576, 512, [], ''f159''), (''wrench'', 512, 512, [], ''f0ad''),
    (''x-ray'', 640, 512, [], ''f497''), (''yen-sign'', 384, 512, [], ''f157''),
    (''yin-yang'', 496, 512, [], ''f6ad'')]"

definition solid_rows :: "icon_row list" where
  "solid_rows = solid_1 @ solid_2 @ solid_3 @ solid_4 @ solid_5 @ solid_6 @ solid_7"

definition regular_1 :: "icon_row list" where
  "regular_1 = [
    (''address-book'', 448, 512, [], ''f2b9''), (''address-card'', 576, 512, [], ''f2bb''),
    (''angry'', 496, 512, [], ''f556''), (''arrow-alt-circle-down'', 512, 512, [], ''f358''),
    (''arrow-alt-circle-left'', 512, 512, [], ''f359''),
    (''arrow-alt-circle-right'', 512, 512, [], ''f35a''),
    (''arrow-alt-circle-up'', 512, 512, [], ''f35b''), (''bell'', 448, 512, [], ''f0f3''),
    (''bell-slash'', 640, 512, [], ''f1f6''), (''bookmark'', 384, 512, [], ''f02e''),
    (''building'', 448, 512, [], ''f1ad''), (''calendar'', 448, 512, [], ''f133''),
    (''calendar-alt'', 448, 512, [], ''f073''), (''calendar-check'', 448, 512, [], ''f274''),
    (''calendar-minus'', 448, 512, [], ''f272''), (''calendar-plus'', 448, 512, [], ''f271''),
    (''calendar-times'', 448, 512, [], ''f273''), (''caret-square-down'', 448, 512, [], ''f150''),
    (''caret-square-left'', 448, 512, [], ''f191''),
    (''caret-square-right'', 448, 512, [], ''f152''), (''caret-square-up'', 448, 512, [], ''f151''),
    (''chart-bar'', 512, 512, [], ''f080''), (''check-circle'', 512, 512, [], ''f058''),
    (''check-square'', 448, 512, [], ''f14a''), (''circle'', 512, 512, [], ''f111''),
    (''clipboard'', 384, 512, [], ''f328''), (''clock'', 512, 512, [], ''f017''),
    (''clone'', 512, 512, [], ''f24d''), (''closed-captioning'', 512, 512, [], ''f20a''),
    (''comment'', 512, 512, [], ''f075''), (''comment-alt'', 512, 512, [], ''f27a''),
    (''comment-dots'', 512, 512, [], ''f4ad''), (''comments'', 576, 512, [], ''f086''),
    (''compass'', 496, 512, [], ''f14e''), (''copy'', 448, 512, [], ''f0c5''),
    (''copyright'', 512, 512, [], ''f1f9''), (''credit-card'', 576, 512, [], ''f09d''),
    (''dizzy'', 496, 512, [], ''f567''), (''dot-circle'', 512, 512, [], ''f192''),
    (''edit'', 576, 512, [], ''f044''), (''envelope'', 512, 512, [], ''f0e0''),
    (''envelope-open'', 512, 512, [], ''f2b6''), (''eye'', 576, 512, [], ''f06e''),
    (''eye-slash'', 640, 512, [], ''f070''), (''file'', 384, 512, [], ''f15b''),
    (''file-alt'', 384, 512, [], ''f15c''), (''file-archive'', 384, 512, [], ''f1c6''),
    (''file-audio'', 384, 512, [], ''f1c7''), (''file-code'', 384, 512, [], ''f1c9''),
    (''file-excel'', 384, 512, [], ''f1c3''), (''file-image'', 384, 512, [], ''f1c5''),
    (''file-pdf'', 384, 512, [], ''f1c1''), (''file-powerpoint'', 384, 512, [], ''f1c4''),
    (''file-video'', 384, 512, [], ''f1c8''), (''file-word'', 384, 512, [], ''f1c2''),
    (''flag'', 512, 512, [], ''f024''), (''flushed'', 496, 512, [], ''f579''),
    (''folder'', 512, 512, [], ''f07b''), (''folder-open'', 576, 512, [], ''f07c''),
    (''font-awesome-logo-full'', 3992, 512, [''Font Awesome''], ''f4e6''),
    (''frown'', 496, 512, [], ''f119''), (''frown-open'', 496, 512, [], ''f57a''),
    (''futbol'', 496, 512, [], ''f1e3''), (''gem'', 576, 512, [], ''f3a5''),
    (''grimace'', 496, 512, [], ''f57f''), (''grin'', 496, 512, [], ''f580''),
    (''grin-alt'', 496, 512, [], ''f581''), (''grin-beam'', 496, 512, [], ''f582''),
    (''grin-beam-sweat'', 496, 512, [], ''f583''), (''grin-hearts'', 496, 512, [], ''f584''),
    (''grin-squint'', 496, 512, [], ''f585''), (''grin-squint-tears'', 512, 512, [], ''f586''),
    (''grin-stars'', 496, 512, [], ''f587''), (''grin-tears'', 640, 512, [], ''f588''),
    (''grin-tongue'', 496, 512, [], ''f589''), (''grin-tongue-squint'', 496, 512, [], ''f58a''),
    (''grin-tongue-wink'', 496, 512, [], ''f58b''), (''grin-wink'', 496, 512, [], ''f58c''),
    (''hand-lizard'', 576, 512, [], ''f258''), (''hand-paper'', 448, 512, [], ''f256''),
    (''hand-peace'', 448, 512, [], ''f25b''), (''hand-point-down'', 448, 512, [], ''f0a7''),
    (''hand-point-left'', 512, 512, [], ''f0a5''), (''hand-point-right'', 512, 512, [], ''f0a4''),
    (''hand-point-up'', 448, 512, [], ''f0a6''), (''hand-pointer'', 448, 512, [], ''f25a''),
    (''hand-rock'', 512, 512, [], ''f255''), (''hand-scissors'', 512, 512, [], ''f257''),
    (''hand-spock'', 512, 512, [], ''f259''), (''handshake'', 640, 512, [], ''f2b5''),
    (''hdd'', 576, 512, [], ''f0a0''), (''heart'', 512, 512, [], ''f004''),
    (''hospital'', 448, 512, [], ''f0f8''), (''hourglass'', 384, 512, [], ''f254''),
    (''id-badge'', 384, 512, [], ''f2c1''), (''id-card'', 576, 512, [], ''f2c2''),
    (''image'', 512, 512, [], ''f03e''), (''images'', 576, 512, [], ''f302''),
    (''keyboard'', 576, 512, [], ''f11c''), (''kiss'', 496, 512, [], ''f596''),
    (''kiss-beam'', 496, 512, [], ''f597''), (''kiss-wink-heart'', 504, 512, [], ''f598''),
    (''laugh'', 496, 512, [], ''f599''), (''laugh-beam'', 496, 512, [], ''f59a''),
    (''laugh-squint'', 496, 512, [], ''f59b''), (''laugh-wink'', 496, 512, [], ''f59c''),
    (''lemon'', 512, 512, [], ''f094''), (''life-ring'', 512, 512, [], ''f1cd''),
    (''lightbulb'', 352, 512, [], ''f0eb''), (''list-alt'', 512, 512, [], ''f022''),
    (''map'', 576, 512, [], ''f279''), (''meh'', 496, 512, [], ''f11a''),
    (''meh-blank'', 496, 512, [], ''f5a4''), (''meh-rolling-eyes'', 496, 512, [], ''f5a5''),
    (''minus-square'', 448, 512, [], ''f146''), (''money-bill-alt'', 640, 512, [], ''f3d1''),
    (''moon'', 512, 512, [], ''f186''), (''newspaper'', 576, 512, [], ''f1ea''),
    (''object-group'', 512, 512, [], ''f247''), (''object-ungroup'', 576, 512, [], ''f248''),
    (''paper-plane'', 512, 512, [], ''f1d8''), (''pause-circle'', 512, 512, [], ''f28b''),
    (''play-circle'', 512, 512, [], ''f144''), (''plus-square'', 448, 512, [], ''f0fe''),
    (''question-circle'', 512, 512, [], ''f059''), (''registered'', 512, 512, [], ''f25d''),
    (''sad-cry'', 496, 512, [], ''f5b3''), (''sad-tear'', 496, 512, [], ''f5b4''),
    (''save'', 448, 512, [], ''f0c7''), (''share-square'', 576, 512, [], ''f14d''),
    (''smile'', 496, 512, [], ''f118''), (''smile-beam'', 496, 512, [], ''f5b8''),
    (''smile-wink'', 496, 512, [], ''f4da''), (''snowflake'', 448, 512, [], ''f2dc''),
    (''square'', 448, 512, [], ''f0c8'')]"

definition regular_2 :: "icon_row list" where
  "regular_2 = [
    (''star'', 576, 512, [], ''f005''), (''star-half'', 576, 512, [], ''f089''),
    (''sticky-note'', 448, 512, [], ''f249''), (''stop-circle'', 512, 512, [], ''f28d''),
    (''sun'', 512, 512, [], ''f185''), (''surprise'', 496, 512, [], ''f5c2''),
    (''thumbs-down'', 512, 512, [], ''f165''), (''thumbs-up'', 512, 512, [], ''f164''),
    (''times-circle'', 512, 512, [], ''f057''), (''tired'', 496, 512, [], ''f5c8''),
    (''trash-alt'', 448, 512, [], ''f2ed''), (''user'', 448, 512, [], ''f007''),
    (''user-circle'', 496, 512, [], ''f2bd''), (''window-close'', 512, 512, [], ''f410''),
    (''window-maximize'', 512, 512, [], ''f2d0''), (''window-minimize'', 512, 512, [], ''f2d1''),
    (''window-restore'', 512, 512, [], ''f2d2'')]"

definition regular_rows :: "icon_row list" where
  "regular_rows = regular_1 @ regular_2"

definition brands_1 :: "icon_row list" where
  "brands_1 = [
    (''500px'', 448, 512, [], ''f26e''), (''accessible-icon'', 448, 512, [], ''f368''),
    (''accusoft'', 640, 512, [], ''f369''), (''acquisitions-incorporated'', 344, 512, [], ''f6af''),
    (''adn'', 496, 512, [], ''f170''), (''adobe'', 460, 512, [], ''f778''),
    (''adversal'', 512, 512, [], ''f36a''), (''affiliatetheme'', 512, 512, [], ''f36b''),
    (''algolia'', 448, 512, [], ''f36c''), (''alipay'', 448, 512, [], ''f642''),
    (''amazon'', 448, 512, [], ''f270''), (''amazon-pay'', 611, 512, [], ''f42c''),
    (''amilia'', 448, 512, [], ''f36d''), (''android'', 448, 512, [], ''f17b''),
    (''angellist'', 448, 512, [], ''f209''), (''angrycreative'', 640, 512, [], ''f36e''),
    (''angular'', 415, 512, [], ''f420''), (''app-store'', 512, 512, [], ''f36f''),
    (''app-store-ios'', 448, 512, [], ''f370''), (''apper'', 640, 512, [], ''f371''),
    (''apple'', 376, 512, [], ''f179''), (''apple-pay'', 640, 512, [], ''f415''),
    (''artstation'', 508, 512, [], ''f77a''), (''asymmetrik'', 576, 512, [], ''f372''),
    (''atlassian'', 512, 512, [], ''f77b''), (''audible'', 640, 512, [], ''f373''),
    (''autoprefixer'', 640, 512, [], ''f41c''), (''avianex'', 512, 512, [], ''f374''),
    (''aviato'', 640, 512, [], ''f421''), (''aws'', 640, 512, [], ''f375''),
    (''bandcamp'', 496, 512, [], ''f2d5''), (''behance'', 576, 512, [], ''f1b4''),
    (''behance-square'', 448, 512, [], ''f1b5''), (''bimobject'', 448, 512, [], ''f378''),
    (''bitbucket'', 499, 512, [], ''f171''), (''bitcoin'', 512, 512, [], ''f379''),
    (''bity'', 496, 512, [], ''f37a''), (''black-tie'', 448, 512, [], ''f27e''),
    (''blackberry'', 512, 512, [], ''f37b''), (''blogger'', 448, 512, [], ''f37c''),
    (''blogger-b'', 448, 512, [], ''f37d''), (''bluetooth'', 448, 512, [], ''f293''),
    (''bluetooth-b'', 320, 512, [], ''f294''), (''btc'', 384, 512, [], ''f15a''),
    (''buromobelexperte'', 448, 512, [], ''f37f''), (''buysellads'', 448, 512, [], ''f20d''),
    (''canadian-maple-leaf'', 465, 512, [], ''f785''), (''cc-amazon-pay'', 576, 512, [], ''f42d''),
    (''cc-amex'', 576, 512, [], ''f1f3''), (''cc-apple-pay'', 576, 512, [], ''f416''),
    (''cc-diners-club'', 576, 512, [], ''f24c''), (''cc-discover'', 576, 512, [], ''f1f2''),
    (''cc-jcb'', 576, 512, [], ''f24b''), (''cc-mastercard'', 576, 512, [], ''f1f1''),
    (''cc-paypal'', 576, 512, [], ''f1f4''), (''cc-stripe'', 576, 512, [], ''f1f5''),
    (''cc-visa'', 576, 512, [], ''f1f0''), (''centercode'', 512, 512, [], ''f380''),
    (''centos'', 447, 512, [], ''f789''), (''chrome'', 496, 512, [], ''f268''),
    (''cloudscale'', 448, 512, [], ''f383''), (''cloudsmith'', 332, 512, [], ''f384''),
    (''cloudversify'', 616, 512, [], ''f385''), (''codepen'', 512, 512, [], ''f1cb''),
    (''codiepie'', 472, 512, [], ''f284''), (''confluence'', 512, 512, [], ''f78d''),
    (''connectdevelop'', 576, 512, [], ''f20e''), (''contao'', 512, 512, [], ''f26d''),
    (''cpanel'', 640, 512, [], ''f388''), (''creative-commons'', 496, 512, [], ''f25e''),
    (''creative-commons-by'', 496, 512, [], ''f4e7''),
    (''creative-commons-nc'', 496, 512, [], ''f4e8''),
    (''creative-commons-nc-eu'', 496, 512, [], ''f4e9''),
    (''creative-commons-nc-jp'', 496, 512, [], ''f4ea''),
    (''creative-commons-nd'', 496, 512, [], ''f4eb''),
    (''creative-commons-pd'', 496, 512, [], ''f4ec''),
    (''creative-commons-pd-alt'', 496, 512, [], ''f4ed''),
    (''creative-commons-remix'', 496, 512, [], ''f4ee''),
    (''creative-commons-sa'', 496, 512, [], ''f4ef''),
    (''creative-commons-sampling'', 496, 512, [], ''f4f0''),
    (''creative-commons-sampling-plus'', 496, 512, [], ''f4f1''),
    (''creative-commons-share'', 496, 512, [], ''f4f2''),
    (''creative-commons-zero'', 496, 512, [], ''f4f3''),
    (''critical-role'', 445, 512, [], ''f6c9''), (''css3'', 512, 512, [], ''f13c''),
    (''css3-alt'', 384, 512, [], ''f38b''), (''cuttlefish'', 440, 512, [], ''f38c''),
    (''d-and-d'', 576, 512, [], ''f38d''), (''d-and-d-beyond'', 640, 512, [], ''f6ca''),
    (''dashcube'', 448, 512, [], ''f210''), (''delicious'', 448, 512, [], ''f1a5''),
    (''deploydog'', 512, 512, [], ''f38e''), (''deskpro'', 480, 512, [], ''f38f''),
    (''dev'', 448, 512, [], ''f6cc''), (''deviantart'', 320, 512, [], ''f1bd''),
    (''dhl'', 640, 512, [], ''f790''), (''diaspora'', 462, 512, [], ''f791''),
    (''digg'', 512, 512, [], ''f1a6''), (''digital-ocean'', 512, 512, [], ''f391''),
    (''discord'', 448, 512, [], ''f392''), (''discourse'', 448, 512, [], ''f393''),
    (''dochub'', 416, 512, [], ''f394''), (''docker'', 640, 512, [], ''f395''),
    (''draft2digital'', 480, 512, [], ''f396''), (''dribbble'', 512, 512, [], ''f17d''),
    (''dribbble-square'', 448, 512, [], ''f397''), (''dropbox'', 528, 512, [], ''f16b''),
    (''drupal'', 448, 512, [], ''f1a9''), (''dyalog'', 416, 512, [], ''f399''),
    (''earlybirds'', 480, 512, [], ''f39a''), (''ebay'', 640, 512, [], ''f4f4''),
    (''edge'', 512, 512, [], ''f282''), (''elementor'', 448, 512, [], ''f430''),
    (''ello'', 496, 512, [], ''f5f1''), (''ember'', 640, 512, [], ''f423''),
    (''empire'', 496, 512, [], ''f1d1''), (''envira'', 448, 512, [], ''f299''),
    (''erlang'', 640, 512, [], ''f39d''), (''ethereum'', 320, 512, [], ''f42e''),
    (''etsy'', 384, 512, [], ''f2d7''), (''expeditedssl'', 496, 512, [], ''f23e''),
    (''facebook'', 448, 512, [], ''f09a''), (''facebook-f'', 264, 512, [], ''f39e''),
    (''facebook-messenger'', 448, 512, [], ''f39f''), (''facebook-square'', 448, 512, [], ''f082''),
    (''fantasy-flight-games'', 512, 512, [], ''f6dc''), (''fedex'', 640, 512, [], ''f797''),
    (''fedora'', 448, 512, [], ''f798''), (''figma'', 341, 512, [], ''f799''),
    (''firefox'', 480, 512, [], ''f269''), (''first-order'', 448, 512, [], ''f2b0''),
    (''first-order-alt'', 496, 512, [], ''f50a''), (''firstdraft'', 384, 512, [], ''f3a1''),
    (''flickr'', 448, 512, [], ''f16e''), (''flipboard'', 448, 512, [], ''f44d'')]"

definition brands_2 :: "icon_row list" where
  "brands_2 = [
    (''fly'', 384, 512, [], ''f417''), (''font-awesome'', 448, 512, [], ''f2b4''),
    (''font-awesome-alt'', 448, 512, [], ''f35c''), (''font-awesome-flag'', 448, 512, [], ''f425''),
    (''font-awesome-logo-full'', 3992, 512, [''Font Awesome''], ''f4e6''),
    (''fonticons'', 448, 512, [], ''f280''), (''fonticons-fi'', 384, 512, [], ''f3a2''),
    (''fort-awesome'', 512, 512, [], ''f286''), (''fort-awesome-alt'', 512, 512, [], ''f3a3''),
    (''forumbee'', 448, 512, [], ''f211''), (''foursquare'', 368, 512, [], ''f180''),
    (''free-code-camp'', 576, 512, [], ''f2c5''), (''freebsd'', 448, 512, [], ''f3a4''),
    (''fulcrum'', 269, 512, [], ''f50b''), (''galactic-republic'', 496, 512, [], ''f50c''),
    (''galactic-senate'', 512, 512, [], ''f50d''), (''get-pocket'', 448, 512, [], ''f265''),
    (''gg'', 512, 512, [], ''f260''), (''gg-circle'', 512, 512, [], ''f261''),
    (''git'', 448, 512, [], ''f1d3''), (''git-square'', 448, 512, [], ''f1d2''),
    (''github'', 496, 512, [], ''f09b''), (''github-alt'', 480, 512, [], ''f113''),
    (''github-square'', 448, 512, [], ''f092''), (''gitkraken'', 592, 512, [], ''f3a6''),
    (''gitlab'', 512, 512, [], ''f296''), (''gitter'', 384, 512, [], ''f426''),
    (''glide'', 448, 512, [], ''f2a5''), (''glide-g'', 448, 512, [], ''f2a6''),
    (''gofore'', 400, 512, [], ''f3a7''), (''goodreads'', 448, 512, [], ''f3a8''),
    (''goodreads-g'', 384, 512, [], ''f3a9''), (''google'', 488, 512, [], ''f1a0''),
    (''google-drive'', 512, 512, [], ''f3aa''), (''google-play'', 512, 512, [], ''f3ab''),
    (''google-plus'', 496, 512, [], ''f2b3''), (''google-plus-g'', 640, 512, [], ''f0d5''),
    (''google-plus-square'', 448, 512, [], ''f0d4''), (''google-wallet'', 448, 512, [], ''f1ee''),
    (''gratipay'', 496, 512, [], ''f184''), (''grav'', 512, 512, [], ''f2d6''),
    (''gripfire'', 384, 512, [], ''f3ac''), (''grunt'', 384, 512, [], ''f3ad''),
    (''gulp'', 256, 512, [], ''f3ae''), (''hacker-news'', 448, 512, [], ''f1d4''),
    (''hacker-news-square'', 448, 512, [], ''f3af''), (''hackerrank'', 464, 512, [], ''f5f7''),
    (''hips'', 640, 512, [], ''f452''), (''hire-a-helper'', 512, 512, [], ''f3b0''),
    (''hooli'', 640, 512, [], ''f427''), (''hornbill'', 509, 512, [], ''f592''),
    (''hotjar'', 448, 512, [], ''f3b1''), (''houzz'', 414, 512, [], ''f27c''),
    (''html5'', 384, 512, [], ''f13b''), (''hubspot'', 512, 512, [], ''f3b2''),
    (''imdb'', 448, 512, [], ''f2d8''), (''instagram'', 448, 512, [], ''f16d''),
    (''intercom'', 448, 512, [], ''f7af''), (''internet-explorer'', 512, 512, [], ''f26b''),
    (''invision'', 448, 512, [], ''f7b0''), (''ioxhost'', 640, 512, [], ''f208''),
    (''itunes'', 448, 512, [], ''f3b4''), (''itunes-note'', 384, 512, [], ''f3b5''),
    (''java'', 377, 512, [], ''f4e4''), (''jedi-order'', 448, 512, [], ''f50e''),
    (''jenkins'', 512, 512, [], ''f3b6''), (''jira'', 496, 512, [], ''f7b1''),
    (''joget'', 496, 512, [], ''f3b7''), (''joomla'', 448, 512, [], ''f1aa''),
    (''js'', 448, 512, [], ''f3b8''), (''js-square'', 448, 512, [], ''f3b9''),
    (''jsfiddle'', 576, 512, [], ''f1cc''), (''kaggle'', 291, 512, [], ''f5fa''),
    (''keybase'', 412, 512, [], ''f4f5''), (''keycdn'', 512, 512, [], ''f3ba''),
    (''kickstarter'', 448, 512, [], ''f3bb''), (''kickstarter-k'', 384, 512, [], ''f3bc''),
    (''korvue'', 446, 512, [], ''f42f''), (''laravel'', 640, 512, [], ''f3bd''),
    (''lastfm'', 512, 512, [], ''f202''), (''lastfm-square'', 448, 512, [], ''f203''),
    (''leanpub'', 576, 512, [], ''f212''), (''less'', 640, 512, [], ''f41d''),
    (''line'', 448, 512, [], ''f3c0''), (''linkedin'', 448, 512, [], ''f08c''),
    (''linkedin-in'', 448, 512, [], ''f0e1''), (''linode'', 448, 512, [], ''f2b8''),
    (''linux'', 448, 512, [], ''f17c''), (''lyft'', 512, 512, [], ''f3c3''),
    (''magento'', 448, 512, [], ''f3c4''), (''mailchimp'', 428, 512, [], ''f59e''),
    (''mandalorian'', 390, 512, [], ''f50f''), (''markdown'', 640, 512, [], ''f60f''),
    (''mastodon'', 417, 512, [], ''f4f6''), (''maxcdn'', 512, 512, [], ''f136''),
    (''medapps'', 320, 512, [], ''f3c6''), (''medium'', 448, 512, [], ''f23a''),
    (''medium-m'', 512, 512, [], ''f3c7''), (''medrt'', 544, 512, [], ''f3c8''),
    (''meetup'', 512, 512, [], ''f2e0''), (''megaport'', 496, 512, [], ''f5a3''),
    (''mendeley'', 640, 512, [], ''f7b3''), (''microsoft'', 448, 512, [], ''f3ca''),
    (''mix'', 448, 512, [], ''f3cb''), (''mixcloud'', 640, 512, [], ''f289''),
    (''mizuni'', 496, 512, [], ''f3cc''), (''modx'', 448, 512, [], ''f285''),
    (''monero'', 496, 512, [], ''f3d0''), (''napster'', 496, 512, [], ''f3d2''),
    (''neos'', 456, 512, [], ''f612''), (''nimblr'', 355, 512, [], ''f5a8''),
    (''nintendo-switch'', 448, 512, [], ''f418''), (''node'', 640, 512, [], ''f419''),
    (''node-js'', 448, 512, [], ''f3d3''), (''npm'', 576, 512, [], ''f3d4''),
    (''ns8'', 640, 512, [], ''f3d5''), (''nutritionix'', 400, 512, [], ''f3d6''),
    (''odnoklassniki'', 320, 512, [], ''f263''), (''odnoklassniki-square'', 448, 512, [], ''f264''),
    (''old-republic'', 496, 512, [], ''f510''), (''opencart'', 640, 512, [], ''f23d''),
    (''openid'', 448, 512, [], ''f19b''), (''opera'', 496, 512, [], ''f26a''),
    (''optin-monster'', 576, 512, [], ''f23c''), (''osi'', 495, 512, [], ''f41a''),
    (''page4'', 496, 512, [], ''f3d7''), (''pagelines'', 384, 512, [], ''f18c''),
    (''palfed'', 576, 512, [], ''f3d8''), (''patreon'', 512, 512, [], ''f3d9''),
    (''paypal'', 384, 512, [], ''f1ed''), (''penny-arcade'', 640, 512, [], ''f704''),
    (''periscope'', 448, 512, [], ''f3da''), (''phabricator'', 496, 512, [], ''f3db''),
    (''phoenix-framework'', 640, 512, [], ''f3dc''), (''phoenix-squadron'', 513, 512, [], ''f511'')]"

definition brands_3 :: "icon_row list" where
  "brands_3 = [
    (''php'', 640, 512, [], ''f457''), (''pied-piper'', 448, 512, [], ''f2ae''),
    (''pied-piper-alt'', 576, 512, [], ''f1a8''), (''pied-piper-hat'', 640, 512, [], ''f4e5''),
    (''pied-piper-pp'', 448, 512, [], ''f1a7''), (''pinterest'', 496, 512, [], ''f0d2''),
    (''pinterest-p'', 384, 512, [], ''f231''), (''pinterest-square'', 448, 512, [], ''f0d3''),
    (''playstation'', 576, 512, [], ''f3df''), (''product-hunt'', 512, 512, [], ''f288''),
    (''pushed'', 432, 512, [], ''f3e1''), (''python'', 448, 512, [], ''f3e2''),
    (''qq'', 448, 512, [], ''f1d6''), (''quinscape'', 489, 512, [], ''f459''),
    (''quora'', 448, 512, [], ''f2c4''), (''r-project'', 581, 512, [], ''f4f7''),
    (''raspberry-pi'', 407, 512, [], ''f7bb''), (''ravelry'', 512, 512, [], ''f2d9''),
    (''react'', 512, 512, [], ''f41b''), (''reacteurope'', 570, 512, [], ''f75d''),
    (''readme'', 576, 512, [], ''f4d5''), (''rebel'', 512, 512, [], ''f1d0''),
    (''red-river'', 448, 512, [], ''f3e3''), (''reddit'', 512, 512, [], ''f1a1''),
    (''reddit-alien'', 512, 512, [], ''f281''), (''reddit-square'', 448, 512, [], ''f1a2''),
    (''redhat'', 512, 512, [], ''f7bc''), (''renren'', 512, 512, [], ''f18b''),
    (''replyd'', 448, 512, [], ''f3e6''), (''researchgate'', 448, 512, [], ''f4f8''),
    (''resolving'', 496, 512, [], ''f3e7''), (''rev'', 410, 512, [], ''f5b2''),
    (''rocketchat'', 582, 512, [], ''f3e8''), (''rockrms'', 496, 512, [], ''f3e9''),
    (''safari'', 512, 512, [], ''f267''), (''sass'', 640, 512, [], ''f41e''),
    (''schlix'', 448, 512, [], ''f3ea''), (''scribd'', 384, 512, [], ''f28a''),
    (''searchengin'', 460, 512, [], ''f3eb''), (''sellcast'', 448, 512, [], ''f2da''),
    (''sellsy'', 640, 512, [], ''f213''), (''servicestack'', 496, 512, [], ''f3ec''),
    (''shirtsinbulk'', 448, 512, [], ''f214''), (''shopware'', 495, 512, [], ''f5b5''),
    (''simplybuilt'', 512, 512, [], ''f215''), (''sistrix'', 448, 512, [], ''f3ee''),
    (''sith'', 448, 512, [], ''f512''), (''sketch'', 494, 512, [], ''f7c6''),
    (''skyatlas'', 640, 512, [], ''f216''), (''skype'', 448, 512, [], ''f17e''),
    (''slack'', 448, 512, [], ''f198''), (''slack-hash'', 448, 512, [], ''f3ef''),
    (''slideshare'', 512, 512, [], ''f1e7''), (''snapchat'', 496, 512, [], ''f2ab''),
    (''snapchat-ghost'', 512, 512, [], ''f2ac''), (''snapchat-square'', 448, 512, [], ''f2ad''),
    (''soundcloud'', 640, 512, [], ''f1be''), (''sourcetree'', 406, 512, [], ''f7d3''),
    (''speakap'', 430, 512, [], ''f3f3''), (''spotify'', 496, 512, [], ''f1bc''),
    (''squarespace'', 512, 512, [], ''f5be''), (''stack-exchange'', 448, 512, [], ''f18d''),
    (''stack-overflow'', 384, 512, [], ''f16c''), (''staylinked'', 440, 512, [], ''f3f5''),
    (''steam'', 496, 512, [], ''f1b6''), (''steam-square'', 448, 512, [], ''f1b7''),
    (''steam-symbol'', 448, 512, [], ''f3f6''), (''sticker-mule'', 576, 512, [], ''f3f7''),
    (''strava'', 369, 512, [], ''f428''), (''stripe'', 640, 512, [], ''f429''),
    (''stripe-s'', 362, 512, [], ''f42a''), (''studiovinari'', 512, 512, [], ''f3f8''),
    (''stumbleupon'', 512, 512, [], ''f1a4''), (''stumbleupon-circle'', 496, 512, [], ''f1a3''),
    (''superpowers'', 448, 512, [], ''f2dd''), (''supple'', 640, 512, [], ''f3f9''),
    (''suse'', 631, 512, [], ''f7d6''), (''teamspeak'', 511, 512, [], ''f4f9''),
    (''telegram'', 496, 512, [], ''f2c6''), (''telegram-plane'', 448, 512, [], ''f3fe''),
    (''tencent-weibo'', 384, 512, [], ''f1d5''), (''the-red-yeti'', 505, 512, [], ''f69d''),
    (''themeco'', 441, 512, [], ''f5c6''), (''themeisle'', 512, 512, [], ''f2b2''),
    (''think-peaks'', 529, 512, [], ''f731''), (''trade-federation'', 496, 512, [], ''f513''),
    (''trello'', 448, 512, [], ''f181''), (''tripadvisor'', 576, 512, [], ''f262''),
    (''tumblr'', 320, 512, [], ''f173''), (''tumblr-square'', 448, 512, [], ''f174''),
    (''twitch'', 448, 512, [], ''f1e8''), (''twitter'', 512, 512, [], ''f099''),
    (''twitter-square'', 448, 512, [], ''f081''), (''typo3'', 433, 512, [], ''f42b''),
    (''uber'', 448, 512, [], ''f402''), (''ubuntu'', 496, 512, [], ''f7df''),
    (''uikit'', 448, 512, [], ''f403''), (''uniregistry'', 384, 512, [], ''f404''),
    (''untappd'', 640, 512, [], ''f405''), (''ups'', 375, 512, [], ''f7e0''),
    (''usb'', 640, 512, [], ''f287''), (''usps'', 522, 512, [], ''f7e1''),
    (''ussunnah'', 512, 512, [], ''f407''), (''vaadin'', 448, 512, [], ''f408''),
    (''viacoin'', 384, 512, [], ''f237''), (''viadeo'', 448, 512, [], ''f2a9''),
    (''viadeo-square'', 448, 512, [], ''f2aa''), (''viber'', 512, 512, [], ''f409''),
    (''vimeo'', 448, 512, [], ''f40a''), (''vimeo-square'', 448, 512, [], ''f194''),
    (''vimeo-v'', 448, 512, [], ''f27d''), (''vine'', 384, 512, [], ''f1ca''),
    (''vk'', 576, 512, [], ''f189''), (''vnv'', 640, 512, [], ''f40b''),
    (''vuejs'', 448, 512, [], ''f41f''), (''weebly'', 512, 512, [], ''f5cc''),
    (''weibo'', 512, 512, [], ''f18a''), (''weixin'', 576, 512, [], ''f1d7''),
    (''whatsapp'', 448, 512, [], ''f232''), (''whatsapp-square'', 448, 512, [], ''f40c''),
    (''whmcs'', 448, 512, [], ''f40d''), (''wikipedia-w'', 640, 512, [], ''f266''),
    (''windows'', 448, 512, [], ''f17a''), (''wix'', 640, 512, [], ''f5cf''),
    (''wizards-of-the-coast'', 640, 512, [], ''f730''),
    (''wolf-pack-battalion'', 456, 512, [], ''f514''), (''wordpress'', 512, 512, [], ''f19a''),
    (''wordpress-simple'', 512, 512, [], ''f411''), (''wpbeginner'', 512, 512, [], ''f297''),
    (''wpexplorer'', 512, 512, [], ''f2de''), (''wpforms'', 448, 512, [], ''f298''),
    (''wpressr'', 496, 512, [], ''f3e4''), (''xbox'', 512, 512, [], ''f412''),
    (''xing'', 384, 512, [], ''f168''), (''xing-square'', 448, 512, [], ''f169'')]"

definition brands_4 :: "icon_row list" where
  "brands_4 = [
    (''y-combinator'', 448, 512, [], ''f23b''), (''yahoo'', 448, 512, [], ''f19e''),
    (''yandex'', 256, 512, [], ''f413''), (''yandex-international'', 320, 512, [], ''f414''),
    (''yarn'', 496, 512, [], ''f7e3''), (''yelp'', 381, 512, [], ''f1e9''),
    (''yoast'', 448, 512, [], ''f2b1''), (''youtube'', 576, 512, [], ''f167''),
    (''youtube-square'', 448, 512, [], ''f431''), (''zhihu'', 640, 512, [], ''f63f'')]"

definition brands_rows :: "icon_row list" where
  "brands_rows = brands_1 @ brands_2 @ brands_3 @ brands_4"

definition v4_shims :: "shim list" where
  "v4_shims = [
    (''glass'', None, Some ''glass-martini''), (''meetup'', Some ''fab'', None),
    (''star-o'', Some ''far'', Some ''star''), (''remove'', None, Some ''times''),
    (''close'', None, Some ''times''), (''gear'', None, Some ''cog''),
    (''trash-o'', Some ''far'', Some ''trash-alt''), (''file-o'', Some ''far'', Some ''file''),
    (''clock-o'', Some ''far'', Some ''clock''),
    (''arrow-circle-o-down'', Some ''far'', Some ''arrow-alt-circle-down''),
    (''arrow-circle-o-up'', Some ''far'', Some ''arrow-alt-circle-up''),
    (''play-circle-o'', Some ''far'', Some ''play-circle''), (''repeat'', None, Some ''redo''),
    (''rotate-right'', None, Some ''redo''), (''refresh'', None, Some ''sync''),
    (''list-alt'', Some ''far'', None), (''dedent'', None, Some ''outdent''),
    (''video-camera'', None, Some ''video''), (''picture-o'', Some ''far'', Some ''image''),
    (''photo'', Some ''far'', Some ''image''), (''image'', Some ''far'', Some ''image''),
    (''pencil'', None, Some ''pencil-alt''), (''map-marker'', None, Some ''map-marker-alt''),
    (''pencil-square-o'', Some ''far'', Some ''edit''),
    (''share-square-o'', Some ''far'', Some ''share-square''),
    (''check-square-o'', Some ''far'', Some ''check-square''),
    (''arrows'', None, Some ''arrows-alt''),
    (''times-circle-o'', Some ''far'', Some ''times-circle''),
    (''check-circle-o'', Some ''far'', Some ''check-circle''),
    (''mail-forward'', None, Some ''share''), (''eye'', Some ''far'', None),
    (''eye-slash'', Some ''far'', None), (''warning'', None, Some ''exclamation-triangle''),
    (''calendar'', None, Some ''calendar-alt''), (''arrows-v'', None, Some ''arrows-alt-v''),
    (''arrows-h'', None, Some ''arrows-alt-h''), (''bar-chart'', Some ''far'', Some ''chart-bar''),
    (''bar-chart-o'', Some ''far'', Some ''chart-bar''), (''twitter-square'', Some ''fab'', None),
    (''facebook-square'', Some ''fab'', None), (''gears'', None, Some ''cogs''),
    (''thumbs-o-up'', Some ''far'', Some ''thumbs-up''),
    (''thumbs-o-down'', Some ''far'', Some ''thumbs-down''),
    (''heart-o'', Some ''far'', Some ''heart''), (''sign-out'', None, Some ''sign-out-alt''),
    (''linkedin-square'', Some ''fab'', Some ''linkedin''),
    (''thumb-tack'', None, Some ''thumbtack''),
    (''external-link'', None, Some ''external-link-alt''),
    (''sign-in'', None, Some ''sign-in-alt''), (''github-square'', Some ''fab'', None),
    (''lemon-o'', Some ''far'', Some ''lemon''), (''square-o'', Some ''far'', Some ''square''),
    (''bookmark-o'', Some ''far'', Some ''bookmark''), (''twitter'', Some ''fab'', None),
    (''facebook'', Some ''fab'', Some ''facebook-f''),
    (''facebook-f'', Some ''fab'', Some ''facebook-f''), (''github'', Some ''fab'', None),
    (''credit-card'', Some ''far'', None), (''feed'', None, Some ''rss''),
    (''hdd-o'', Some ''far'', Some ''hdd''),
    (''hand-o-right'', Some ''far'', Some ''hand-point-right''),
    (''hand-o-left'', Some ''far'', Some ''hand-point-left''),
    (''hand-o-up'', Some ''far'', Some ''hand-point-up''),
    (''hand-o-down'', Some ''far'', Some ''hand-point-down''),
    (''arrows-alt'', None, Some ''expand-arrows-alt''), (''group'', None, Some ''users''),
    (''chain'', None, Some ''link''), (''scissors'', None, Some ''cut''),
    (''files-o'', Some ''far'', Some ''copy''), (''floppy-o'', Some ''far'', Some ''save''),
    (''navicon'', None, Some ''bars''), (''reorder'', None, Some ''bars''),
    (''pinterest'', Some ''fab'', None), (''pinterest-square'', Some ''fab'', None),
    (''google-plus-square'', Some ''fab'', None),
    (''google-plus'', Some ''fab'', Some ''google-plus-g''),
    (''money'', Some ''far'', Some ''money-bill-alt''), (''unsorted'', None, Some ''sort''),
    (''sort-desc'', None, Some ''sort-down''), (''sort-asc'', None, Some ''sort-up''),
    (''linkedin'', Some ''fab'', Some ''linkedin-in''), (''rotate-left'', None, Some ''undo''),
    (''legal'', None, Some ''gavel''), (''tachometer'', None, Some ''tachometer-alt''),
    (''dashboard'', None, Some ''tachometer-alt''), (''comment-o'', Some ''far'', Some ''comment''),
    (''comments-o'', Some ''far'', Some ''comments''), (''flash'', None, Some ''bolt''),
    (''clipboard'', Some ''far'', None), (''paste'', Some ''far'', Some ''clipboard''),
    (''lightbulb-o'', Some ''far'', Some ''lightbulb''),
    (''exchange'', None, Some ''exchange-alt''),
    (''cloud-download'', None, Some ''cloud-download-alt''),
    (''cloud-upload'', None, Some ''cloud-upload-alt''), (''bell-o'', Some ''far'', Some ''bell''),
    (''cutlery'', None, Some ''utensils''), (''file-text-o'', Some ''far'', Some ''file-alt''),
    (''building-o'', Some ''far'', Some ''building''),
    (''hospital-o'', Some ''far'', Some ''hospital''), (''tablet'', None, Some ''tablet-alt''),
    (''mobile'', None, Some ''mobile-alt''), (''mobile-phone'', None, Some ''mobile-alt''),
    (''circle-o'', Some ''far'', Some ''circle''), (''mail-reply'', None, Some ''reply''),
    (''github-alt'', Some ''fab'', None), (''folder-o'', Some ''far'', Some ''folder''),
    (''folder-open-o'', Some ''far'', Some ''folder-open''),
    (''smile-o'', Some ''far'', Some ''smile''), (''frown-o'', Some ''far'', Some ''frown''),
    (''meh-o'', Some ''far'', Some ''meh''), (''keyboard-o'', Some ''far'', Some ''keyboard''),
    (''flag-o'', Some ''far'', Some ''flag''), (''mail-reply-all'', None, Some ''reply-all''),
    (''star-half-o'', Some ''far'', Some ''star-half''),
    (''star-half-empty'', Some ''far'', Some ''star-half''),
    (''star-half-full'', Some ''far'', Some ''star-half''),
    (''code-fork'', None, Some ''code-branch''), (''chain-broken'', None, Some ''unlink''),
    (''shield'', None, Some ''shield-alt''), (''calendar-o'', Some ''far'', Some ''calendar''),
    (''maxcdn'', Some ''fab'', None), (''html5'', Some ''fab'', None),
    (''css3'', Some ''fab'', None), (''ticket'', None, Some ''ticket-alt''),
    (''minus-square-o'', Some ''far'', Some ''minus-square''),
    (''level-up'', None, Some ''level-up-alt''), (''level-down'', None, Some ''level-down-alt''),
    (''pencil-square'', None, Some ''pen-square''),
    (''external-link-square'', None, Some ''external-link-square-alt''),
    (''compass'', Some ''far'', None),
    (''caret-square-o-down'', Some ''far'', Some ''caret-square-down''),
    (''toggle-down'', Some ''far'', Some ''caret-square-down''),
    (''caret-square-o-up'', Some ''far'', Some ''caret-square-up''),
    (''toggle-up'', Some ''far'', Some ''caret-square-up''),
    (''caret-square-o-right'', Some ''far'', Some ''caret-square-right''),
    (''toggle-right'', Some ''far'', Some ''caret-square-right''),
    (''eur'', None, Some ''euro-sign''), (''euro'', None, Some ''euro-sign''),
    (''gbp'', None, Some ''pound-sign''), (''usd'', None, Some ''dollar-sign''),
    (''dollar'', None, Some ''dollar-sign''), (''inr'', None, Some ''rupee-sign''),
    (''rupee'', None, Some ''rupee-sign''), (''jpy'', None, Some ''yen-sign''),
    (''cny'', None, Some ''yen-sign''), (''rmb'', None, Some ''yen-sign''),
    (''yen'', None, Some ''yen-sign''), (''rub'', None, Some ''ruble-sign''),
    (''ruble'', None, Some ''ruble-sign''), (''rouble'', None, Some ''ruble-sign''),
    (''krw'', None, Some ''won-sign''), (''won'', None, Some ''won-sign''),
    (''btc'', Some ''fab'', None), (''bitcoin'', Some ''fab'', Some ''btc''),
    (''file-text'', None, Some ''file-alt''), (''sort-alpha-asc'', None, Some ''sort-alpha-down''),
    (''sort-alpha-desc'', None, Some ''sort-alpha-up''),
    (''sort-amount-asc'', None, Some ''sort-amount-down''),
    (''sort-amount-desc'', None, Some ''sort-amount-up''),
    (''sort-numeric-asc'', None, Some ''sort-numeric-down''),
    (''sort-numeric-desc'', None, Some ''sort-numeric-up''),
    (''youtube-square'', Some ''fab'', None), (''youtube'', Some ''fab'', None),
    (''xing'', Some ''fab'', None), (''xing-square'', Some ''fab'', None),
    (''youtube-play'', Some ''fab'', Some ''youtube''), (''dropbox'', Some ''fab'', None),
    (''stack-overflow'', Some ''fab'', None), (''instagram'', Some ''fab'', None),
    (''flickr'', Some ''fab'', None), (''adn'', Some ''fab'', None),
    (''bitbucket'', Some ''fab'', None), (''bitbucket-square'', Some ''fab'', Some ''bitbucket''),
    (''tumblr'', Some ''fab'', None), (''tumblr-square'', Some ''fab'', None),
    (''long-arrow-down'', None, Some ''long-arrow-alt-down''),
    (''long-arrow-up'', None, Some ''long-arrow-alt-up''),
    (''long-arrow-left'', None, Some ''long-arrow-alt-left''),
    (''long-arrow-right'', None, Some ''long-arrow-alt-right''), (''apple'', Some ''fab'', None),
    (''windows'', Some ''fab'', None), (''android'', Some ''fab'', None),
    (''linux'', Some ''fab'', None), (''dribbble'', Some ''fab'', None),
    (''skype'', Some ''fab'', None), (''foursquare'', Some ''fab'', None),
    (''trello'', Some ''fab'', None), (''gratipay'', Some ''fab'', None),
    (''gittip'', Some ''fab'', Some ''gratipay''), (''sun-o'', Some ''far'', Some ''sun''),
    (''moon-o'', Some ''far'', Some ''moon''), (''vk'', Some ''fab'', None),
    (''weibo'', Some ''fab'', None), (''renren'', Some ''fab'', None),
    (''pagelines'', Some ''fab'', None), (''stack-exchange'', Some ''fab'', None),
    (''arrow-circle-o-right'', Some ''far'', Some ''arrow-alt-circle-right''),
    (''arrow-circle-o-left'', Some ''far'', Some ''arrow-alt-circle-left''),
    (''caret-square-o-left'', Some ''far'', Some ''caret-square-left''),
    (''toggle-left'', Some ''far'', Some ''caret-square-left''),
    (''dot-circle-o'', Some ''far'', Some ''dot-circle''), (''vimeo-square'', Some ''fab'', None),
    (''try'', None, Some ''lira-sign''), (''turkish-lira'', None, Some ''lira-sign''),
    (''plus-square-o'', Some ''far'', Some ''plus-square''), (''slack'', Some ''fab'', None),
    (''wordpress'', Some ''fab'', None), (''openid'', Some ''fab'', None),
    (''institution'', None, Some ''university''), (''bank'', None, Some ''university''),
    (''mortar-board'', None, Some ''graduation-cap''), (''yahoo'', Some ''fab'', None),
    (''google'', Some ''fab'', None), (''reddit'', Some ''fab'', None),
    (''reddit-square'', Some ''fab'', None), (''stumbleupon-circle'', Some ''fab'', None),
    (''stumbleupon'', Some ''fab'', None), (''delicious'', Some ''fab'', None),
    (''digg'', Some ''fab'', None), (''pied-piper-pp'', Some ''fab'', None),
    (''pied-piper-alt'', Some ''fab'', None), (''drupal'', Some ''fab'', None),
    (''joomla'', Some ''fab'', None), (''spoon'', None, Some ''utensil-spoon''),
    (''behance'', Some ''fab'', None), (''behance-square'', Some ''fab'', None),
    (''steam'', Some ''fab'', None), (''steam-square'', Some ''fab'', None),
    (''automobile'', None, Some ''car''), (''cab'', None, Some ''taxi''),
    (''envelope-o'', Some ''far'', Some ''envelope''), (''deviantart'', Some ''fab'', None),
    (''soundcloud'', Some ''fab'', None), (''file-pdf-o'', Some ''far'', Some ''file-pdf''),
    (''file-word-o'', Some ''far'', Some ''file-word''),
    (''file-excel-o'', Some ''far'', Some ''file-excel''),
    (''file-powerpoint-o'', Some ''far'', Some ''file-powerpoint''),
    (''file-image-o'', Some ''far'', Some ''file-image''),
    (''file-photo-o'', Some ''far'', Some ''file-image''),
    (''file-picture-o'', Some ''far'', Some ''file-image''),
    (''file-archive-o'', Some ''far'', Some ''file-archive''),
    (''file-zip-o'', Some ''far'', Some ''file-archive''),
    (''file-audio-o'', Some ''far'', Some ''file-audio''),
    (''file-sound-o'', Some ''far'', Some ''file-audio''),
    (''file-video-o'', Some ''far'', Some ''file-video''),
    (''file-movie-o'', Some ''far'', Some ''file-video''),
    (''file-code-o'', Some ''far'', Some ''file-code''), (''vine'', Some ''fab'', None),
    (''codepen'', Some ''fab'', None), (''jsfiddle'', Some ''fab'', None),
    (''life-ring'', Some ''far'', None), (''life-bouy'', Some ''far'', Some ''life-ring''),
    (''life-buoy'', Some ''far'', Some ''life-ring''),
    (''life-saver'', Some ''far'', Some ''life-ring''),
    (''support'', Some ''far'', Some ''life-ring''),
    (''circle-o-notch'', None, Some ''circle-notch''), (''rebel'', Some ''fab'', None),
    (''ra'', Some ''fab'', Some ''rebel''), (''resistance'', Some ''fab'', Some ''rebel''),
    (''empire'', Some ''fab'', None), (''ge'', Some ''fab'', Some ''empire''),
    (''git-square'', Some ''fab'', None), (''git'', Some ''fab'', None),
    (''hacker-news'', Some ''fab'', None),
    (''y-combinator-square'', Some ''fab'', Some ''hacker-news''),
    (''yc-square'', Some ''fab'', Some ''hacker-news''), (''tencent-weibo'', Some ''fab'', None),
    (''qq'', Some ''fab'', None), (''weixin'', Some ''fab'', None),
    (''wechat'', Some ''fab'', Some ''weixin''), (''send'', None, Some ''paper-plane''),
    (''paper-plane-o'', Some ''far'', Some ''paper-plane''),
    (''send-o'', Some ''far'', Some ''paper-plane''),
    (''circle-thin'', Some ''far'', Some ''circle''), (''header'', None, Some ''heading''),
    (''sliders'', None, Some ''sliders-h''), (''futbol-o'', Some ''far'', Some ''futbol''),
    (''soccer-ball-o'', Some ''far'', Some ''futbol''), (''slideshare'', Some ''fab'', None),
    (''twitch'', Some ''fab'', None), (''yelp'', Some ''fab'', None),
    (''newspaper-o'', Some ''far'', Some ''newspaper''), (''paypal'', Some ''fab'', None),
    (''google-wallet'', Some ''fab'', None), (''cc-visa'', Some ''fab'', None),
    (''cc-mastercard'', Some ''fab'', None), (''cc-discover'', Some ''fab'', None),
    (''cc-amex'', Some ''fab'', None), (''cc-paypal'', Some ''fab'', None),
    (''cc-stripe'', Some ''fab'', None), (''bell-slash-o'', Some ''far'', Some ''bell-slash''),
    (''trash'', None, Some ''trash-alt''), (''copyright'', Some ''far'', None),
    (''eyedropper'', None, Some ''eye-dropper''), (''area-chart'', None, Some ''chart-area''),
    (''pie-chart'', None, Some ''chart-pie''), (''line-chart'', None, Some ''chart-line''),
    (''lastfm'', Some ''fab'', None), (''lastfm-square'', Some ''fab'', None),
    (''ioxhost'', Some ''fab'', None), (''angellist'', Some ''fab'', None),
    (''cc'', Some ''far'', Some ''closed-captioning''), (''ils'', None, Some ''shekel-sign''),
    (''shekel'', None, Some ''shekel-sign''), (''sheqel'', None, Some ''shekel-sign''),
    (''meanpath'', Some ''fab'', Some ''font-awesome''), (''buysellads'', Some ''fab'', None),
    (''connectdevelop'', Some ''fab'', None), (''dashcube'', Some ''fab'', None),
    (''forumbee'', Some ''fab'', None), (''leanpub'', Some ''fab'', None),
    (''sellsy'', Some ''fab'', None), (''shirtsinbulk'', Some ''fab'', None),
    (''simplybuilt'', Some ''fab'', None), (''skyatlas'', Some ''fab'', None),
    (''diamond'', Some ''far'', Some ''gem''), (''intersex'', None, Some ''transgender''),
    (''facebook-official'', Some ''fab'', Some ''facebook''), (''pinterest-p'', Some ''fab'', None),
    (''whatsapp'', Some ''fab'', None), (''hotel'', None, Some ''bed''),
    (''viacoin'', Some ''fab'', None), (''medium'', Some ''fab'', None),
    (''y-combinator'', Some ''fab'', None), (''yc'', Some ''fab'', Some ''y-combinator''),
    (''optin-monster'', Some ''fab'', None), (''opencart'', Some ''fab'', None),
    (''expeditedssl'', Some ''fab'', None), (''battery-4'', None, Some ''battery-full''),
    (''battery'', None, Some ''battery-full''),
    (''battery-3'', None, Some ''battery-three-quarters''),
    (''battery-2'', None, Some ''battery-half''), (''battery-1'', None, Some ''battery-quarter''),
    (''battery-0'', None, Some ''battery-empty''), (''object-group'', Some ''far'', None),
    (''object-ungroup'', Some ''far'', None),
    (''sticky-note-o'', Some ''far'', Some ''sticky-note''), (''cc-jcb'', Some ''fab'', None),
    (''cc-diners-club'', Some ''fab'', None), (''clone'', Some ''far'', None),
    (''hourglass-o'', Some ''far'', Some ''hourglass''),
    (''hourglass-1'', None, Some ''hourglass-start''),
    (''hourglass-2'', None, Some ''hourglass-half''),
    (''hourglass-3'', None, Some ''hourglass-end''),
    (''hand-rock-o'', Some ''far'', Some ''hand-rock''),
    (''hand-grab-o'', Some ''far'', Some ''hand-rock''),
    (''hand-paper-o'', Some ''far'', Some ''hand-paper''),
    (''hand-stop-o'', Some ''far'', Some ''hand-paper''),
    (''hand-scissors-o'', Some ''far'', Some ''hand-scissors''),
    (''hand-lizard-o'', Some ''far'', Some ''hand-lizard''),
    (''hand-spock-o'', Some ''far'', Some ''hand-spock''),
    (''hand-pointer-o'', Some ''far'', Some ''hand-pointer''),
    (''hand-peace-o'', Some ''far'', Some ''hand-peace''), (''registered'', Some ''far'', None),
    (''creative-commons'', Some ''fab'', None), (''gg'', Some ''fab'', None),
    (''gg-circle'', Some ''fab'', None), (''tripadvisor'', Some ''fab'', None),
    (''odnoklassniki'', Some ''fab'', None), (''odnoklassniki-square'', Some ''fab'', None),
    (''get-pocket'', Some ''fab'', None), (''wikipedia-w'', Some ''fab'', None),
    (''safari'', Some ''fab'', None), (''chrome'', Some ''fab'', None),
    (''firefox'', Some ''fab'', None), (''opera'', Some ''fab'', None),
    (''internet-explorer'', Some ''fab'', None), (''television'', None, Some ''tv''),
    (''contao'', Some ''fab'', None), (''500px'', Some ''fab'', None),
    (''amazon'', Some ''fab'', None), (''calendar-plus-o'', Some ''far'', Some ''calendar-plus''),
    (''calendar-minus-o'', Some ''far'', Some ''calendar-minus''),
    (''calendar-times-o'', Some ''far'', Some ''calendar-times''),
    (''calendar-check-o'', Some ''far'', Some ''calendar-check''),
    (''map-o'', Some ''far'', Some ''map''), (''commenting'', None, Some ''comment-dots''),
    (''commenting-o'', Some ''far'', Some ''comment-dots''), (''houzz'', Some ''fab'', None),
    (''vimeo'', Some ''fab'', Some ''vimeo-v''), (''black-tie'', Some ''fab'', None),
    (''fonticons'', Some ''fab'', None), (''reddit-alien'', Some ''fab'', None),
    (''edge'', Some ''fab'', None), (''credit-card-alt'', None, Some ''credit-card''),
    (''codiepie'', Some ''fab'', None), (''modx'', Some ''fab'', None),
    (''fort-awesome'', Some ''fab'', None), (''usb'', Some ''fab'', None),
    (''product-hunt'', Some ''fab'', None), (''mixcloud'', Some ''fab'', None),
    (''scribd'', Some ''fab'', None), (''pause-circle-o'', Some ''far'', Some ''pause-circle''),
    (''stop-circle-o'', Some ''far'', Some ''stop-circle''), (''bluetooth'', Some ''fab'', None),
    (''bluetooth-b'', Some ''fab'', None), (''gitlab'', Some ''fab'', None),
    (''wpbeginner'', Some ''fab'', None), (''wpforms'', Some ''fab'', None),
    (''envira'', Some ''fab'', None), (''wheelchair-alt'', Some ''fab'', Some ''accessible-icon''),
    (''question-circle-o'', Some ''far'', Some ''question-circle''),
    (''volume-control-phone'', None, Some ''phone-volume''),
    (''asl-interpreting'', None, Some ''american-sign-language-interpreting''),
    (''deafness'', None, Some ''deaf''), (''hard-of-hearing'', None, Some ''deaf''),
    (''glide'', Some ''fab'', None), (''glide-g'', Some ''fab'', None),
    (''signing'', None, Some ''sign-language''), (''viadeo'', Some ''fab'', None),
    (''viadeo-square'', Some ''fab'', None), (''snapchat'', Some ''fab'', None),
    (''snapchat-ghost'', Some ''fab'', None), (''snapchat-square'', Some ''fab'', None),
    (''pied-piper'', Some ''fab'', None), (''first-order'', Some ''fab'', None),
    (''yoast'', Some ''fab'', None), (''themeisle'', Some ''fab'', None),
    (''google-plus-official'', Some ''fab'', Some ''google-plus''),
    (''google-plus-circle'', Some ''fab'', Some ''google-plus''),
    (''font-awesome'', Some ''fab'', None), (''fa'', Some ''fab'', Some ''font-awesome''),
    (''handshake-o'', Some ''far'', Some ''handshake''),
    (''envelope-open-o'', Some ''far'', Some ''envelope-open''), (''linode'', Some ''fab'', None),
    (''address-book-o'', Some ''far'', Some ''address-book''),
    (''vcard'', None, Some ''address-card''),
    (''address-card-o'', Some ''far'', Some ''address-card''),
    (''vcard-o'', Some ''far'', Some ''address-card''),
    (''user-circle-o'', Some ''far'', Some ''user-circle''),
    (''user-o'', Some ''far'', Some ''user''), (''id-badge'', Some ''far'', None),
    (''drivers-license'', None, Some ''id-card''), (''id-card-o'', Some ''far'', Some ''id-card''),
    (''drivers-license-o'', Some ''far'', Some ''id-card''), (''quora'', Some ''fab'', None),
    (''free-code-camp'', Some ''fab'', None), (''telegram'', Some ''fab'', None),
    (''thermometer-4'', None, Some ''thermometer-full''),
    (''thermometer'', None, Some ''thermometer-full''),
    (''thermometer-3'', None, Some ''thermometer-three-quarters''),
    (''thermometer-2'', None, Some ''thermometer-half''),
    (''thermometer-1'', None, Some ''thermometer-quarter''),
    (''thermometer-0'', None, Some ''thermometer-empty''), (''bathtub'', None, Some ''bath''),
    (''s15'', None, Some ''bath''), (''window-maximize'', Some ''far'', None),
    (''window-restore'', Some ''far'', None), (''times-rectangle'', None, Some ''window-close''),
    (''window-close-o'', Some ''far'', Some ''window-close''),
    (''times-rectangle-o'', Some ''far'', Some ''window-close''),
    (''bandcamp'', Some ''fab'', None), (''grav'', Some ''fab'', None),
    (''etsy'', Some ''fab'', None), (''imdb'', Some ''fab'', None),
    (''ravelry'', Some ''fab'', None), (''eercast'', Some ''fab'', Some ''sellcast''),
    (''snowflake-o'', Some ''far'', Some ''snowflake''), (''superpowers'', Some ''fab'', None),
    (''wpexplorer'', Some ''fab'', None), (''spotify'', Some ''fab'', None)]"
definition pack :: "(string \<Rightarrow> string) \<Rightarrow> icon_row list \<Rightarrow> icon_entry obj" where
  "pack path rows = map (\<lambda>(n, w, h, l, u).
     (n, Plain \<lparr>iwidth = w, iheight = h, ligatures = l, unicode = u, ipath = path n\<rparr>)) rows"

end
