(* ===== verification/Fa_Packs.thy ===== *)
theory Fa_Packs
  imports Fa_Parse Fa_Tables
begin

text \<open>
  Loading \<^verbatim>\<open>web-admin/fontawesome/js/all.js\<close> (which concatenates brands.js, regular.js, solid.js
  and fontawesome.js) and \<^verbatim>\<open>v4-shims.js\<close>, and facts about the whole of the icon tables.
\<close>

subsection \<open>The scripts\<close>

definition load_solid :: "(string \<Rightarrow> string) \<Rightarrow> fa_state \<Rightarrow> fa_state" where
  "load_solid path s = defineIcons False ''fas'' (pack path solid_rows) s"

definition load_regular :: "(string \<Rightarrow> string) \<Rightarrow> fa_state \<Rightarrow> fa_state" where
  "load_regular path s = defineIcons False ''far'' (pack path regular_rows) s"

definition load_brands :: "(string \<Rightarrow> string) \<Rightarrow> fa_state \<Rightarrow> fa_state" where
  "load_brands path s = defineIcons False ''fab'' (pack path brands_rows) s"

text \<open>Without the core's hook the shims are only appended.\<close>

definition load_shims :: "fa_state \<Rightarrow> fa_state" where
  "load_shims s = (if hooks s then addShims v4_shims s else s\<lparr>shims := shims s @ v4_shims\<rparr>)"

text \<open>The core builds its tables when it loads and then installs its hooks.\<close>

definition load_all :: "(string \<Rightarrow> string) \<Rightarrow> fa_state \<Rightarrow> fa_state" where
  "load_all path s = install_hooks (build (load_solid path (load_regular path (load_brands path s))))"

subsection \<open>What is registered\<close>

definition fresh_state :: "fa_state \<Rightarrow> bool" where
  "fresh_state s \<longleftrightarrow> styles s = [] \<and> \<not> hooks s \<and> shims s = []"

definition row_def :: "(string \<Rightarrow> string) \<Rightarrow> icon_row \<Rightarrow> icon_def" where
  "row_def path = (\<lambda>(n, w, h, l, u). \<lparr>iwidth = w, iheight = h, ligatures = l, unicode = u, ipath = path n\<rparr>)"

lemma normalize_pack:
  "normalize_icons (pack path rows) = fold (\<lambda>r. obj_set (fst r) (row_def path r)) rows []"
proof -
  have "fold (\<lambda>(iconName, e) acc. case e of Expanded n i \<Rightarrow> obj_set n i acc | Plain i \<Rightarrow> obj_set iconName i acc)
      (pack path rows) acc = fold (\<lambda>r. obj_set (fst r) (row_def path r)) rows acc" for acc
    by (induction rows arbitrary: acc) (auto simp: pack_def row_def_def)
  then show ?thesis by (simp add: normalize_icons_def)
qed

lemma get_fold_rows:
  "obj_get (fold (\<lambda>r. obj_set (fst r) (f r)) rows acc) n =
     (case find (\<lambda>r. fst r = n) (rev rows) of Some r \<Rightarrow> Some (f r) | None \<Rightarrow> obj_get acc n)"
proof (induction rows arbitrary: acc rule: rev_induct)
  case (snoc r rows)
  then show ?case by (simp add: js_simps)
qed simp

lemma find_row: "n \<in> fst ` set rows \<Longrightarrow> \<exists>r \<in> set rows. find (\<lambda>r. fst r = n) (rev rows) = Some r \<and> fst r = n"
proof -
  assume "n \<in> fst ` set rows"
  then have "find (\<lambda>r. fst r = n) (rev rows) \<noteq> None" by (auto simp: find_None_iff)
  then obtain r where "find (\<lambda>r. fst r = n) (rev rows) = Some r" by auto
  moreover from this have "r \<in> set (rev rows) \<and> fst r = n"
    by (metis (mono_tags, lifting) find_Some_iff nth_mem)
  ultimately show ?thesis by auto
qed

lemma get_normalize_pack:
  assumes "n \<in> fst ` set rows"
  shows "\<exists>r \<in> set rows. fst r = n \<and> obj_get (normalize_icons (pack path rows)) n = Some (row_def path r)"
  using find_row [OF assms] by (auto simp: normalize_pack get_fold_rows)

lemma distinct_normalize: "distinct (obj_keys (normalize_icons (pack path rows)))"
proof -
  have "distinct (obj_keys (fold (\<lambda>r. obj_set (fst r) (f r)) rows acc))" if "distinct (obj_keys acc)"
    for f :: "icon_row \<Rightarrow> icon_def" and acc
    using that by (induction rows arbitrary: acc) (auto simp: distinct_update)
  then show ?thesis by (simp add: normalize_pack)
qed

lemma load_all_styles:
  assumes "fresh_state s"
  shows "styles (load_all path s) =
    [(''fab'', normalize_icons (pack path brands_rows)), (''far'', normalize_icons (pack path regular_rows)),
     (''fas'', normalize_icons (pack path solid_rows)), (''fa'', normalize_icons (pack path solid_rows))]"
proof -
  have r: "register_icons skip p (pack path rows) t = t\<lparr>styles := obj_set p (normalize_icons (pack path rows)) (styles t)\<rparr>"
    if "\<not> hooks t" "obj_get (styles t) p = None" for skip p rows t
    using that by (simp add: register_icons_def put_style_def get_or_empty_def spread_empty distinct_normalize)
  show ?thesis
    using assms
    by (simp add: load_all_def load_solid_def load_regular_def load_brands_def install_hooks_def
        defineIcons_def Let_def fresh_state_def r)
qed

lemma load_all_config [simp]: "config (load_all path s) = config s"
  if "fresh_state s"
  using that
  by (simp add: load_all_def load_solid_def load_regular_def load_brands_def install_hooks_def build_def
      defineIcons_def Let_def fresh_state_def register_icons_def put_style_def)

subsection \<open>Widths\<close>

definition all_rows :: "icon_row list" where
  "all_rows = solid_rows @ regular_rows @ brands_rows"

definition row_ok :: "icon_row \<Rightarrow> bool" where
  "row_ok = (\<lambda>(n, w, h, l, u). h = 512 \<and> 0 < w \<and> (w \<le> 640 \<or> w = 3992 \<and> n = ''font-awesome-logo-full''))"

lemmas row_lists = solid_1_def solid_2_def solid_3_def solid_4_def solid_5_def solid_6_def solid_7_def
  regular_1_def regular_2_def brands_1_def brands_2_def brands_3_def brands_4_def

lemma rows_ok: "\<forall>r \<in> set all_rows. row_ok r"
  unfolding all_rows_def solid_rows_def regular_rows_def brands_rows_def row_lists row_ok_def
  by (simp only: set_append list.set ball_Un ball_simps prod.case) simp

definition width_units :: "nat \<Rightarrow> int" where
  "width_units w = \<lceil>(of_nat w :: rat) / 32\<rceil>"

lemma icon_width_exact:
  assumes "w < 2 ^ 20"
  shows "num_ceil (num_mul (num_div (Fin (of_nat w)) (Fin 512)) (Fin 16)) = Fin (of_int (width_units w))"
proof -
  have "int w < int (2 ^ 20)" using assms by (simp only: of_nat_less_iff)
  then have b: "\<bar>int w\<bar> < 2 ^ 53" by simp
  have "dbl (of_nat w / 512) = Fin (of_nat w / 512)"
    using dbl_dyadic [OF b, of 9] by simp
  moreover have "dbl (of_nat w / 32) = Fin (of_nat w / 32)"
    using dbl_dyadic [OF b, of 5] by simp
  ultimately show ?thesis by (simp add: width_units_def)
qed

lemma width_units_bounds: "0 < w \<Longrightarrow> w \<le> 640 \<Longrightarrow> 1 \<le> width_units w \<and> width_units w \<le> 20"
  by (auto simp: width_units_def ceiling_le_iff le_ceiling_iff field_simps)

lemma small_num_str: "\<forall>n \<in> set oneToTwenty. num_str (Fin (of_nat n)) = nat_str n"
proof -
  have "\<forall>n \<in> set oneToTen. num_str (Fin (of_int (int n))) = nat_str n" by code_simp
  moreover have "\<forall>n \<in> {11, 12, 13, 14, 15, 16, 17, 18, 19, 20}. num_str (Fin (of_int (int n))) = nat_str n"
    by code_simp
  ultimately show ?thesis by (auto simp: oneToTwenty_def)
qed

text \<open>
  C40: For every icon of the three packs except the full Font Awesome logo, the width class
  of the rendered icon is one of the twenty reserved width classes, so that it is never
  taken for the name of an icon.
\<close>

theorem icon_width_classes:
  assumes "(n, w, h, l, u) \<in> set all_rows" "n \<noteq> ''font-awesome-logo-full''" "\<not> found msk"
  shows "\<exists>k. width_class (prepIcon (row_def path (n, w, h, l, u))) msk = ''fa-w-'' @ nat_str k \<and>
    1 \<le> k \<and> k \<le> 20 \<and> isReserved (''w-'' @ nat_str k)"
proof -
  have r: "h = 512" "0 < w" "w \<le> 640"
    using rows_ok assms(1,2) by (fastforce simp: row_ok_def)+
  define k where "k = nat (width_units w)"
  have k: "1 \<le> k" "k \<le> 20" "int k = width_units w"
    using width_units_bounds [OF r(2,3)] by (auto simp: k_def)
  then have m: "k \<in> set oneToTwenty" by (simp add: oneToTwenty_iff)
  have "num_ceil (num_mul (num_div (Fin (of_nat w)) (Fin 512)) (Fin 16)) = Fin (of_nat k)"
    using icon_width_exact [of w] r(3) by (simp flip: k(3))
  then have "width_class (prepIcon (row_def path (n, w, h, l, u))) msk = ''fa-w-'' @ nat_str k"
    using assms(3) m small_num_str r(1) by (simp add: width_class_def prepIcon_def row_def_def)
  then show ?thesis using k m reserved_width by blast
qed

theorem icon_width_classes_witness:
  "\<exists>k. width_class (prepIcon (row_def (\<lambda>n. []) (''address-book'', 448, 512, [], ''f2b9''))) (prepIcon (demo_icon [])\<lparr>found := False\<rparr>)
     = ''fa-w-'' @ nat_str k \<and> 1 \<le> k \<and> k \<le> 20 \<and> isReserved (''w-'' @ nat_str k)"
proof (rule icon_width_classes)
  show "(''address-book'', 448, 512, [], ''f2b9'') \<in> set all_rows"
    unfolding all_rows_def solid_rows_def solid_1_def set_append list.set by blast
qed simp_all

end
