(* ===== verification/Web_Icons.thy ===== *)
theory Web_Icons
  imports Web_Common Web_TableSort Web_Header Fa_Packs
begin

text \<open>
  The pages and Font Awesome together: every icon class the scripts of the pages write is an
  icon of the packs that ship with them.
\<close>

text \<open>The style prefix and icon name of each class list in \<open>icons\<close>, in the header and in the sort indicators.\<close>

definition page_icons :: "(string \<times> string) list" where
  "page_icons = [(''fas'', ''info-circle''), (''fa'', ''tachometer-alt''), (''fa'', ''rss''), (''fa'', ''tags''),
     (''fa'', ''tags''), (''fa'', ''cloud-upload-alt''), (''fa'', ''download''), (''far'', ''object-group''),
     (''far'', ''calendar-alt''), (''fa'', ''cogs''), (''fa'', ''link''), (''fa'', ''unlink''), (''fa'', ''rss''),
     (''fas'', ''square''), (''fas'', ''chart-line''), (''fa'', ''calendar''), (''fa'', ''bars''),
     (''fa'', ''sort-up''), (''fa'', ''sort-down'')]"

definition icon_markup :: "string \<times> string \<Rightarrow> string" where
  "icon_markup = (\<lambda>(p, n). p @ '' fa-'' @ n)"

definition page_classes :: "string list" where
  "page_classes = map snd icons @ [''fa fa-bars'', ''fa fa-sort-up'', ''fa fa-sort-down'']"

lemma page_classes_eq: "page_classes = map icon_markup page_icons"
  by (simp add: page_classes_def icons_def page_icons_def icon_markup_def)

lemma indicator_icons:
  "indicator_html ASC = ''<i id=\"col_0_sort_up\" class=\"'' @ ''fa fa-sort-up'' @ ''\"></i>''"
  "indicator_html DES = ''<i id=\"col_0_sort_up\" class=\"'' @ ''fa fa-sort-down'' @ ''\"></i>''"
  by (simp_all add: indicator_html_def)

lemma solid_names:
  "{''info-circle'', ''tachometer-alt'', ''rss'', ''tags'', ''cloud-upload-alt'', ''download'', ''cogs'', ''link'',
    ''unlink'', ''square'', ''chart-line'', ''calendar'', ''bars'', ''sort-up'', ''sort-down''} \<subseteq> fst ` set solid_rows"
  unfolding solid_rows_def solid_1_def solid_2_def solid_3_def solid_4_def solid_5_def solid_6_def
    solid_7_def
  by (simp only: set_append image_Un list.set image_insert image_empty fst_conv insert_subset
      empty_subsetI simp_thms Un_iff) simp

lemma regular_names: "{''object-group'', ''calendar-alt''} \<subseteq> fst ` set regular_rows"
  unfolding regular_rows_def regular_1_def regular_2_def
  by (simp only: set_append image_Un list.set image_insert image_empty fst_conv insert_subset
      empty_subsetI simp_thms Un_iff) simp

lemma page_icon_names: "\<forall>(p, n) \<in> set page_icons. n \<in> fst ` set (if p = ''far'' then regular_rows else solid_rows)"
  using solid_names regular_names unfolding page_icons_def by simp

lemma reserved_list:
  "RESERVED_CLASSES = [''xs'', ''sm'', ''lg'', ''fw'', ''ul'', ''li'', ''border'', ''pull-left'', ''pull-right'',
     ''spin'', ''pulse'', ''rotate-90'', ''rotate-180'', ''rotate-270'', ''flip-horizontal'', ''flip-vertical'', ''stack'', ''stack-1x'',
     ''stack-2x'', ''inverse'', ''layers'', ''layers-text'', ''layers-counter'', ''1x'', ''2x'', ''3x'', ''4x'',
     ''5x'', ''6x'', ''7x'', ''8x'', ''9x'', ''10x'', ''w-1'', ''w-2'', ''w-3'',
     ''w-4'', ''w-5'', ''w-6'', ''w-7'', ''w-8'', ''w-9'', ''w-10'', ''w-11'', ''w-12'',
     ''w-13'', ''w-14'', ''w-15'', ''w-16'', ''w-17'', ''w-18'', ''w-19'', ''w-20'']"
  by code_simp

lemma page_icons_unreserved: "\<forall>(p, n) \<in> set page_icons. \<not> isReserved n"
  unfolding page_icons_def isReserved_def reserved_list by simp

lemma page_icons_named: "\<forall>(p, n) \<in> set page_icons. p \<in> {''fas'', ''far'', ''fa''} \<and> n \<noteq> []"
  unfolding page_icons_def by simp

lemma page_icons_tokens: "\<forall>(p, n) \<in> set page_icons. token (''fa-'' @ n)"
  unfolding page_icons_def token_def is_space_code by simp

lemma loaded_prefix:
  assumes "fresh_state s" "config s = default_config"
  shows "is_prefix_class (load_all path s) c \<longleftrightarrow> c \<in> {''fab'', ''far'', ''fas'', ''fa''}"
  unfolding is_prefix_class_def load_all_styles [OF assms(1)] load_all_config [OF assms(1)] assms(2)
  by (auto simp: default_config_def)

lemma loaded_style:
  assumes "fresh_state s" "p \<in> {''fas'', ''far'', ''fa''}"
  shows "obj_get (styles (load_all path s)) p =
    Some (normalize_icons (pack path (if p = ''far'' then regular_rows else solid_rows)))"
  unfolding load_all_styles [OF assms(1)] using assms(2) by auto

lemma styles_of_defines [simp]:
  "shims (defineIcons skip p entries s) = shims s"
  by (simp add: defineIcons_def Let_def register_icons_def addPack_def)

lemma loaded_old_names:
  assumes "fresh_state s"
  shows "byOldName (load_all path s) n = (None, None)"
  using assms
  by (simp add: byOldName_def load_all_def install_hooks_def build_def load_solid_def
      load_regular_def load_brands_def fresh_state_def)

lemma icon_classes:
  assumes "p \<in> {''fas'', ''far'', ''fa''}" "token (''fa-'' @ n)"
  shows "classArray True (Some (p @ '' fa-'' @ n)) = [p, ''fa-'' @ n]"
proof -
  have "token p" using assms(1) by (auto simp: token_def is_space_def)
  moreover have "p \<noteq> ''fa-'' @ n" using assms(1) by auto
  ultimately show ?thesis using classArray_join [of "[p, ''fa-'' @ n]"] assms(2) by simp
qed

lemma loaded_canonical:
  assumes "fresh_state s" "config s = default_config" "p \<in> {''fas'', ''far'', ''fa''}"
    and "\<not> isReserved n" "n \<noteq> []"
  shows "getCanonicalIcon (load_all path s) [p, ''fa-'' @ n] = \<lparr>cprefix = Some p, cname = Some n, crest = []\<rparr>"
proof -
  let ?S = "load_all path s"
  have "getCanonicalIcon ?S ([] @ [p] @ [] @ [''fa'' @ ''-'' @ n] @ []) =
      \<lparr>cprefix = fst (resolved ?S p n), cname = snd (resolved ?S p n), crest = filter (plain_class ?S) ([] @ [] @ [])\<rparr>"
  proof (rule canonical_icon)
    show "is_prefix_class ?S p" "\<not> is_prefix_class ?S (''fa'' @ ''-'' @ n)"
      unfolding loaded_prefix [OF assms(1,2)] using assms(3) by auto
    show "cfg ''familyPrefix'' ?S = Some (CStr ''fa'')"
      unfolding load_all_config [OF assms(1)] assms(2)
      by (simp add: default_config_def DEFAULT_FAMILY_PREFIX_def)
  qed (use assms(4,5) in simp_all)
  moreover have "resolved ?S p n = (Some p, Some n)" by (simp add: resolved_def loaded_old_names [OF assms(1)])
  ultimately show ?thesis by simp
qed

lemma loaded_icon:
  assumes "fresh_state s" "p \<in> {''fas'', ''far'', ''fa''}" "n \<noteq> []"
    and "n \<in> fst ` set (if p = ''far'' then regular_rows else solid_rows)"
  shows "\<exists>v. findIcon (load_all path s) (Some n) (Some p) = Inr v \<and> found v"
proof -
  obtain i where "obj_get (normalize_icons (pack path (if p = ''far'' then regular_rows else solid_rows))) n = Some i"
    using get_normalize_pack [OF assms(4)] by blast
  moreover have "p \<noteq> []" using assms(2) by auto
  ultimately have "findIcon (load_all path s) (Some n) (Some p) = Inr (prepIcon i)"
    unfolding findIcon_def Let_def given_def using assms(3) by (simp add: loaded_style [OF assms(1,2)])
  then show ?thesis by (simp add: prepIcon_def)
qed

text \<open>
  Every icon class the pages write (the shared icon table, the menu button and the sort
  indicators) names an icon of the packs that ship with the pages: with all packs loaded it
  is recognised completely, leaves no other class behind, and the icon is found.
\<close>

theorem page_icons_resolve:
  assumes "fresh_state s" "config s = default_config" "cls \<in> set page_classes"
  shows "\<exists>p n v. getCanonicalIcon (load_all path s) (classArray True (Some cls)) =
      \<lparr>cprefix = Some p, cname = Some n, crest = []\<rparr> \<and>
    findIcon (load_all path s) (Some n) (Some p) = Inr v \<and> found v"
proof -
  obtain p n where pn: "(p, n) \<in> set page_icons" "cls = p @ '' fa-'' @ n"
    using assms(3) unfolding page_classes_eq icon_markup_def by auto
  have n: "n \<in> fst ` set (if p = ''far'' then regular_rows else solid_rows)" "\<not> isReserved n"
    "p \<in> {''fas'', ''far'', ''fa''}" "n \<noteq> []" "token (''fa-'' @ n)"
    using bspec [OF page_icon_names pn(1)] bspec [OF page_icons_unreserved pn(1)]
      bspec [OF page_icons_named pn(1)] bspec [OF page_icons_tokens pn(1)] by simp_all
  show ?thesis
    using loaded_icon [OF assms(1) n(3,4,1), of path] loaded_canonical [OF assms(1,2) n(3,2,4), of path]
    unfolding pn(2) icon_classes [OF n(3,5)] by blast
qed

theorem page_icons_resolve_witness:
  "\<exists>p n v. getCanonicalIcon (load_all (\<lambda>n. []) demo_fa) (classArray True (Some ''far fa-object-group'')) =
      \<lparr>cprefix = Some p, cname = Some n, crest = []\<rparr> \<and>
    findIcon (load_all (\<lambda>n. []) demo_fa) (Some n) (Some p) = Inr v \<and> found v"
  by (rule page_icons_resolve) (simp_all add: fresh_state_def demo_fa_def page_classes_def icons_def)

end
