(* ===== verification/Fa_Promise.thy ===== *)
theory Fa_Promise
  imports Js_Prelude
begin

text \<open>
  The promise implementation of fontawesome.js (\<open>P\<close>, picked where the browser has no
  \<open>Promise\<close>): the asynchronous queue, settling, subscription, adoption of thenables, and the
  combinators \<open>all\<close>, \<open>race\<close>, \<open>resolve\<close> and \<open>reject\<close>.

  Objects are mutable and shared, so the state is an explicit store: a promise is an address
  into a table of records whose unallocated entries hold the fields of a promise that has just
  been made (the prototype's values and an empty \<open>_then\<close>), and the variables captured by the
  closures of the code (\<open>resolved\<close> in \<open>handleThenable\<close>; \<open>results\<close> and \<open>remaining\<close> in
  \<open>P.all\<close>) are cells with addresses of their own.  A function value is one of the closures the
  code makes, with what it captures, or a function of the client.
\<close>

subsection \<open>Values, closures, promises\<close>

text \<open>
  A value is a primitive (or an object without a \<open>then\<close>), an array made by \<open>P.all\<close>, a promise,
  or an object of somebody else's with a \<open>then\<close>: \<open>VThen\<close> carries its identity, the calls its
  \<open>then\<close> makes of the two functions it is given before it returns, and what it throws;
  \<open>VBadThen\<close> is an object whose property \<open>then\<close> throws when it is read.
\<close>

datatype pval =
    VUndef
  | VData string
  | VTypeError
  | VArr nat
  | VProm nat
  | VThen nat "tcall list" "pval option"
  | VBadThen pval
and tcall = OnFulfilled pval | OnSelf | OnRejected pval

datatype fn =
    Client nat
  | ResolveP nat
  | RejectP nat
  | Adopt nat nat pval
  | AdoptReject nat nat
  | AllResolver nat nat

datatype pstatus = PENDING | SETTLED | FULFILLED | REJECTED

record subscriber =
  owner :: nat
  target :: nat
  fulfilled :: "fn option"
  rejected :: "fn option"

record promise =
  status :: pstatus
  thens :: "subscriber list option"
  data :: pval
  handled :: bool

definition new_promise :: promise where
  "new_promise = \<lparr>status = PENDING, thens = Some [], data = VUndef, handled = False\<rparr>"

record all_cell =
  results :: "pval option list"
  remaining :: int
  all_target :: nat

datatype job =
    PublishFulfillment nat
  | PublishRejection nat
  | InvokeCallback subscriber
  | NotifyHandled nat

datatype node_event = UnhandledRejection nat | RejectionHandled nat

text \<open>
  \<open>timers\<close> counts the timers set for \<open>asyncFlush\<close> that have not fired.  \<open>emitted\<close> is what
  \<open>global.process.emit\<close> was called with.  \<open>held\<close> are the pairs of closures that foreign
  \<open>then\<close> methods received and may call at any later time.  \<open>invoked\<close> records the subscribers in
  the order in which \<open>invokeCallback\<close> ran; the code does not read it.
\<close>

record engine =
  isNode :: bool
  promises :: "nat \<Rightarrow> promise"
  next_promise :: nat
  flags :: "nat \<Rightarrow> bool"
  next_flag :: nat
  alls :: "nat \<Rightarrow> all_cell"
  next_all :: nat
  asyncQueue :: "job list"
  asyncTimer :: bool
  timers :: nat
  emitted :: "node_event list"
  held :: "(fn \<times> fn) list"
  invoked :: "subscriber list"

definition start_engine :: "bool \<Rightarrow> engine" where
  "start_engine node = \<lparr>isNode = node, promises = (\<lambda>_. new_promise), next_promise = 0,
     flags = (\<lambda>_. False), next_flag = 0,
     alls = (\<lambda>_. \<lparr>results = [], remaining = 0, all_target = 0\<rparr>), next_all = 0,
     asyncQueue = [], asyncTimer = False, timers = 0, emitted = [], held = [], invoked = []\<rparr>"

definition upd_promise :: "nat \<Rightarrow> (promise \<Rightarrow> promise) \<Rightarrow> engine \<Rightarrow> engine" where
  "upd_promise p f s = s\<lparr>promises := (promises s)(p := f (promises s p))\<rparr>"

abbreviation statusOf :: "engine \<Rightarrow> nat \<Rightarrow> pstatus" where
  "statusOf s p \<equiv> status (promises s p)"

abbreviation dataOf :: "engine \<Rightarrow> nat \<Rightarrow> pval" where
  "dataOf s p \<equiv> data (promises s p)"

subsection \<open>The asynchronous queue, settling, subscribing\<close>

definition asyncCall :: "job \<Rightarrow> engine \<Rightarrow> engine" where
  "asyncCall j s = (let s1 = s\<lparr>asyncQueue := asyncQueue s @ [j]\<rparr> in
     if asyncTimer s1 then s1 else s1\<lparr>asyncTimer := True, timers := Suc (timers s1)\<rparr>)"

definition fulfill :: "nat \<Rightarrow> pval \<Rightarrow> engine \<Rightarrow> engine" where
  "fulfill p v s = (if statusOf s p = PENDING
     then asyncCall (PublishFulfillment p) (upd_promise p (\<lambda>r. r\<lparr>status := SETTLED, data := v\<rparr>) s)
     else s)"

definition reject :: "nat \<Rightarrow> pval \<Rightarrow> engine \<Rightarrow> engine" where
  "reject p e s = (if statusOf s p = PENDING
     then asyncCall (PublishRejection p) (upd_promise p (\<lambda>r. r\<lparr>status := SETTLED, data := e\<rparr>) s)
     else s)"

text \<open>\<open>new this.constructor(NOOP)\<close>: the next address.\<close>

definition alloc :: "engine \<Rightarrow> engine" where
  "alloc s = s\<lparr>next_promise := Suc (next_promise s)\<rparr>"

text \<open>The two halves of \<open>then\<close>: the flag \<open>_handled\<close>, and the subscription.\<close>

definition mark_handled :: "nat \<Rightarrow> bool \<Rightarrow> engine \<Rightarrow> engine" where
  "mark_handled p given s = (if given \<and> \<not> handled (promises s p)
     then (let s1 = upd_promise p (\<lambda>r. r\<lparr>handled := True\<rparr>) s in
       if statusOf s1 p = REJECTED \<and> isNode s1 then asyncCall (NotifyHandled p) s1 else s1)
     else s)"

definition subscribe :: "subscriber \<Rightarrow> engine \<Rightarrow> engine" where
  "subscribe x s = (if statusOf s (owner x) = FULFILLED \<or> statusOf s (owner x) = REJECTED
     then asyncCall (InvokeCallback x) s
     else upd_promise (owner x) (\<lambda>r. r\<lparr>thens := map_option (\<lambda>xs. xs @ [x]) (thens r)\<rparr>) s)"

definition promise_then :: "nat \<Rightarrow> fn option \<Rightarrow> fn option \<Rightarrow> engine \<Rightarrow> nat \<times> engine" where
  "promise_then p onFulfillment onRejection s =
     (let d = next_promise s;
          x = \<lparr>owner = p, target = d, fulfilled = onFulfillment, rejected = onRejection\<rparr>
      in (d, subscribe x (mark_handled p (onRejection \<noteq> None \<or> onFulfillment \<noteq> None) (alloc s))))"

definition promise_catch :: "nat \<Rightarrow> fn option \<Rightarrow> engine \<Rightarrow> nat \<times> engine" where
  "promise_catch p onRejection s = promise_then p None onRejection s"

subsection \<open>Adopting thenables\<close>

text \<open>A fresh variable \<open>resolved\<close>, and its assignment.\<close>

definition new_flag :: "engine \<Rightarrow> nat \<times> engine" where
  "new_flag s = (next_flag s, s\<lparr>next_flag := Suc (next_flag s)\<rparr>)"

definition set_flag :: "nat \<Rightarrow> engine \<Rightarrow> engine" where
  "set_flag c s = s\<lparr>flags := (flags s)(c := True)\<rparr>"

definition hold :: "fn \<Rightarrow> fn \<Rightarrow> engine \<Rightarrow> engine" where
  "hold f g s = s\<lparr>held := held s @ [(f, g)]\<rparr>"

text \<open>
  \<open>handleThenable\<close> answers whether it dealt with the value.  A promise is subscribed to; the
  \<open>then\<close> of a foreign object runs at once and may call back before it returns, which is the
  recursion of \<open>run_calls\<close>; it keeps the two functions.  An exception after one of the calls is
  dropped.
\<close>

function (sequential)
  handleThenable :: "nat \<Rightarrow> pval \<Rightarrow> engine \<Rightarrow> bool \<times> engine"
  and resolve :: "nat \<Rightarrow> pval \<Rightarrow> engine \<Rightarrow> engine"
  and run_calls :: "nat \<Rightarrow> nat \<Rightarrow> pval \<Rightarrow> tcall list \<Rightarrow> engine \<Rightarrow> engine" where
  "handleThenable p (VProm q) s =
     (if q = p then (True, reject p VTypeError s)
      else (let (c, s1) = new_flag s in
        (True, snd (promise_then q (Some (Adopt p c (VProm q))) (Some (AdoptReject p c)) s1))))"
| "handleThenable p (VBadThen e) s = (True, reject p e s)"
| "handleThenable p (VThen i calls exn) s =
     (let (c, s1) = new_flag s;
          v = VThen i calls exn;
          s2 = run_calls p c v calls (hold (Adopt p c v) (AdoptReject p c) s1)
      in (True, case exn of None \<Rightarrow> s2 | Some e \<Rightarrow> if flags s2 c then s2 else reject p e s2))"
| "handleThenable p v s = (False, s)"
| "resolve p v s = (if v = VProm p then fulfill p v s
     else (let (h, s1) = handleThenable p v s in if h then s1 else fulfill p v s1))"
| "run_calls p c v [] s = s"
| "run_calls p c v (OnFulfilled w # cs) s = run_calls p c v cs
     (if flags s c then s else resolve p w (set_flag c s))"
| "run_calls p c v (OnSelf # cs) s = run_calls p c v cs
     (if flags s c then s else fulfill p v (set_flag c s))"
| "run_calls p c v (OnRejected e # cs) s = run_calls p c v cs
     (if flags s c then s else reject p e (set_flag c s))"
  by pat_completeness auto
termination
  by (relation "measure (\<lambda>x. case x of Inl (p, v, s) \<Rightarrow> 2 * size v
        | Inr (Inl (p, v, s)) \<Rightarrow> 2 * size v + 1
        | Inr (Inr (p, c, v, cs, s)) \<Rightarrow> 2 * size_list size cs)") auto

declare resolve.simps [simp del]

subsection \<open>Calling a function\<close>

text \<open>\<open>results[index] = value\<close> on an array: the places before the index stay holes.\<close>

definition array_set :: "nat \<Rightarrow> 'a \<Rightarrow> 'a option list \<Rightarrow> 'a option list" where
  "array_set i x xs = (if i < length xs then xs[i := Some x]
     else xs @ replicate (i - length xs) None @ [Some x])"

definition upd_all :: "nat \<Rightarrow> (all_cell \<Rightarrow> all_cell) \<Rightarrow> engine \<Rightarrow> engine" where
  "upd_all a f s = s\<lparr>alls := (alls s)(a := f (alls s a))\<rparr>"

definition set_result :: "nat \<Rightarrow> nat \<Rightarrow> pval \<Rightarrow> engine \<Rightarrow> engine" where
  "set_result a i v = upd_all a (\<lambda>c. c\<lparr>results := array_set i v (results c)\<rparr>)"

definition all_resolver :: "nat \<Rightarrow> nat \<Rightarrow> pval \<Rightarrow> engine \<Rightarrow> engine" where
  "all_resolver a i v s =
     (let s1 = upd_all a (\<lambda>c. c\<lparr>remaining := remaining c - 1\<rparr>) (set_result a i v s) in
      if remaining (alls s1 a) = 0 then resolve (all_target (alls s1 a)) (VArr a) s1 else s1)"

text \<open>The closures the library itself makes return nothing and do not throw.\<close>

fun call_closure :: "fn \<Rightarrow> pval \<Rightarrow> engine \<Rightarrow> engine" where
  "call_closure (ResolveP p) v s = resolve p v s"
| "call_closure (RejectP p) v s = reject p v s"
| "call_closure (Adopt p c w) v s = (if flags s c then s else
     if w = v then fulfill p v (set_flag c s) else resolve p v (set_flag c s))"
| "call_closure (AdoptReject p c) v s = (if flags s c then s else reject p v (set_flag c s))"
| "call_closure (AllResolver a i) v s = all_resolver a i v s"
| "call_closure (Client k) v s = s"

subsection \<open>The combinators\<close>

text \<open>The checks of the constructor \<open>P\<close>.\<close>

definition P_checks :: "bool \<Rightarrow> bool \<Rightarrow> js_error + unit" where
  "P_checks resolver_is_function this_is_P =
     (if \<not> resolver_is_function then Inl TypeError
      else if \<not> this_is_P then Inl TypeError else Inr ())"

text \<open>\<open>invokeResolver\<close>: what the resolver throws rejects the promise.\<close>

definition invokeResolver :: "(engine \<Rightarrow> pval option \<times> engine) \<Rightarrow> nat \<Rightarrow> engine \<Rightarrow> engine" where
  "invokeResolver resolver p s = (case resolver s of
     (None, s1) \<Rightarrow> s1 | (Some e, s1) \<Rightarrow> call_closure (RejectP p) e s1)"

definition new_P :: "(nat \<Rightarrow> engine \<Rightarrow> pval option \<times> engine) \<Rightarrow> engine \<Rightarrow> nat \<times> engine" where
  "new_P resolver s = (let p = next_promise s in (p, invokeResolver (resolver p) p (alloc s)))"

text \<open>
  The calls a foreign \<open>then\<close> makes of two functions it is given directly (in \<open>all\<close> and \<open>race\<close>).
\<close>

fun direct_calls :: "fn \<Rightarrow> fn \<Rightarrow> pval \<Rightarrow> tcall list \<Rightarrow> engine \<Rightarrow> engine" where
  "direct_calls f g v [] s = s"
| "direct_calls f g v (OnFulfilled w # cs) s = direct_calls f g v cs (call_closure f w s)"
| "direct_calls f g v (OnSelf # cs) s = direct_calls f g v cs (call_closure f v s)"
| "direct_calls f g v (OnRejected e # cs) s = direct_calls f g v cs (call_closure g e s)"

definition all_enter :: "nat \<Rightarrow> engine \<Rightarrow> engine" where
  "all_enter a = upd_all a (\<lambda>c. c\<lparr>remaining := remaining c + 1\<rparr>)"

fun all_loop :: "nat \<Rightarrow> nat \<Rightarrow> nat \<Rightarrow> pval list \<Rightarrow> engine \<Rightarrow> pval option \<times> engine" where
  "all_loop p a i [] s = (None,
     if remaining (alls s a) = 0 then call_closure (ResolveP p) (VArr a) s else s)"
| "all_loop p a i (VProm q # vs) s = all_loop p a (Suc i) vs
     (snd (promise_then q (Some (AllResolver a i)) (Some (RejectP p)) (all_enter a s)))"
| "all_loop p a i (VBadThen e # vs) s = (Some e, s)"
| "all_loop p a i (VThen j calls exn # vs) s =
     (let s1 = direct_calls (AllResolver a i) (RejectP p) (VThen j calls exn) calls
                 (hold (AllResolver a i) (RejectP p) (all_enter a s))
      in case exn of None \<Rightarrow> all_loop p a (Suc i) vs s1 | Some e \<Rightarrow> (Some e, s1))"
| "all_loop p a i (v # vs) s = all_loop p a (Suc i) vs (set_result a i v s)"

definition new_all :: "nat \<Rightarrow> engine \<Rightarrow> nat \<times> engine" where
  "new_all p s = (next_all s, s\<lparr>next_all := Suc (next_all s),
     alls := (alls s)(next_all s := \<lparr>results = [], remaining = 0, all_target = p\<rparr>)\<rparr>)"

definition P_all :: "pval list \<Rightarrow> engine \<Rightarrow> nat \<times> engine" where
  "P_all vs = new_P (\<lambda>p s. let (a, s1) = new_all p s in all_loop p a 0 vs s1)"

fun race_loop :: "nat \<Rightarrow> pval list \<Rightarrow> engine \<Rightarrow> pval option \<times> engine" where
  "race_loop p [] s = (None, s)"
| "race_loop p (VProm q # vs) s = race_loop p vs
     (snd (promise_then q (Some (ResolveP p)) (Some (RejectP p)) s))"
| "race_loop p (VBadThen e # vs) s = (Some e, s)"
| "race_loop p (VThen j calls exn # vs) s =
     (let s1 = direct_calls (ResolveP p) (RejectP p) (VThen j calls exn) calls
                 (hold (ResolveP p) (RejectP p) s)
      in case exn of None \<Rightarrow> race_loop p vs s1 | Some e \<Rightarrow> (Some e, s1))"
| "race_loop p (v # vs) s = race_loop p vs (call_closure (ResolveP p) v s)"

definition P_race :: "pval list \<Rightarrow> engine \<Rightarrow> nat \<times> engine" where
  "P_race vs = new_P (\<lambda>p s. race_loop p vs s)"

definition P_resolve :: "pval \<Rightarrow> engine \<Rightarrow> nat \<times> engine" where
  "P_resolve v s = (case v of VProm q \<Rightarrow> (q, s)
     | _ \<Rightarrow> new_P (\<lambda>p s1. (None, call_closure (ResolveP p) v s1)) s)"

definition P_reject :: "pval \<Rightarrow> engine \<Rightarrow> nat \<times> engine" where
  "P_reject e = new_P (\<lambda>p s1. (None, call_closure (RejectP p) e s1))"

subsection \<open>The client\<close>

text \<open>
  What client code can do with the library: subscribe, construct promises (the resolver's body
  runs inside the constructor and may throw), use the combinators, and call functions of the
  library it holds: the pair of a \<open>new P\<close>, or the pairs a foreign \<open>then\<close> was given.
\<close>

datatype act =
    Then nat "fn option" "fn option"
  | New "act list" "pval option"
  | All "pval list"
  | Race "pval list"
  | ResolveOf pval
  | RejectOf pval
  | Call fn pval

fun run_act :: "act \<Rightarrow> engine \<Rightarrow> engine"
  and run_acts :: "act list \<Rightarrow> engine \<Rightarrow> engine" where
  "run_act (Then p f g) s = snd (promise_then p f g s)"
| "run_act (New body exn) s = snd (new_P (\<lambda>p s1. (exn, run_acts body s1)) s)"
| "run_act (All vs) s = snd (P_all vs s)"
| "run_act (Race vs) s = snd (P_race vs s)"
| "run_act (ResolveOf v) s = snd (P_resolve v s)"
| "run_act (RejectOf e) s = snd (P_reject e s)"
| "run_act (Call f v) s = call_closure f v s"
| "run_acts [] s = s"
| "run_acts (a # as) s = run_acts as (run_act a s)"

text \<open>
  A client function is given by its \<open>script\<close>: for the number of the function, its argument and
  the state in which it is called, what it does and what it returns (\<open>Inr\<close>) or throws (\<open>Inl\<close>).
\<close>

type_synonym script = "nat \<Rightarrow> pval \<Rightarrow> engine \<Rightarrow> act list \<times> (pval + pval)"

fun call_fn :: "script \<Rightarrow> fn \<Rightarrow> pval \<Rightarrow> engine \<Rightarrow> (pval + pval) \<times> engine" where
  "call_fn script (Client k) v s = (let (body, out) = script k v s in (out, run_acts body s))"
| "call_fn script f v s = (Inr VUndef, call_closure f v s)"

subsection \<open>The jobs of the queue\<close>

text \<open>\<open>subscriber[settled]\<close>.\<close>

fun callback_of :: "subscriber \<Rightarrow> pstatus \<Rightarrow> fn option" where
  "callback_of x FULFILLED = fulfilled x"
| "callback_of x REJECTED = rejected x"
| "callback_of x _ = None"

text \<open>The end of \<open>invokeCallback\<close>: the value is adopted, or settles the derived promise.\<close>

definition settle_with :: "nat \<Rightarrow> pstatus \<Rightarrow> pval \<Rightarrow> engine \<Rightarrow> engine" where
  "settle_with p settled v s = (let (h, s1) = handleThenable p v s in
     if h then s1
     else if settled = FULFILLED then resolve p v s1
     else if settled = REJECTED then reject p v s1 else s1)"

definition invokeCallback :: "script \<Rightarrow> subscriber \<Rightarrow> engine \<Rightarrow> engine" where
  "invokeCallback script x s0 =
     (let s = s0\<lparr>invoked := invoked s0 @ [x]\<rparr>;
          settled = statusOf s (owner x);
          v = dataOf s (owner x) in
      case callback_of x settled of
        None \<Rightarrow> settle_with (target x) settled v s
      | Some f \<Rightarrow> (case call_fn script f v s of
            (Inr w, s1) \<Rightarrow> settle_with (target x) FULFILLED w s1
          | (Inl e, s1) \<Rightarrow> settle_with (target x) FULFILLED v (reject (target x) e s1)))"

text \<open>\<open>promise._then.forEach(invokeCallback)\<close>, whose result \<open>undefined\<close> becomes \<open>_then\<close>.\<close>

definition publish :: "script \<Rightarrow> nat \<Rightarrow> engine \<Rightarrow> js_error + engine" where
  "publish script p s = (case thens (promises s p) of
     None \<Rightarrow> Inl TypeError
   | Some xs \<Rightarrow> Inr (upd_promise p (\<lambda>r. r\<lparr>thens := None\<rparr>) (fold (invokeCallback script) xs s)))"

definition publishFulfillment :: "script \<Rightarrow> nat \<Rightarrow> engine \<Rightarrow> js_error + engine" where
  "publishFulfillment script p s = publish script p (upd_promise p (\<lambda>r. r\<lparr>status := FULFILLED\<rparr>) s)"

definition emit :: "node_event \<Rightarrow> engine \<Rightarrow> engine" where
  "emit e s = s\<lparr>emitted := emitted s @ [e]\<rparr>"

definition publishRejection :: "script \<Rightarrow> nat \<Rightarrow> engine \<Rightarrow> js_error + engine" where
  "publishRejection script p s =
     js_bind (publish script p (upd_promise p (\<lambda>r. r\<lparr>status := REJECTED\<rparr>) s)) (\<lambda>s1. Inr
       (if \<not> handled (promises s1 p) \<and> isNode s1 then emit (UnhandledRejection p) s1 else s1))"

definition notifyRejectionHandled :: "nat \<Rightarrow> engine \<Rightarrow> engine" where
  "notifyRejectionHandled p s = emit (RejectionHandled p) s"

fun run_job :: "script \<Rightarrow> job \<Rightarrow> engine \<Rightarrow> js_error + engine" where
  "run_job script (PublishFulfillment p) s = publishFulfillment script p s"
| "run_job script (PublishRejection p) s = publishRejection script p s"
| "run_job script (InvokeCallback x) s = Inr (invokeCallback script x s)"
| "run_job script (NotifyHandled p) s = Inr (notifyRejectionHandled p s)"

text \<open>
  \<open>asyncFlush\<close>: the loop reads the length of the queue anew, so jobs added meanwhile run in the
  same flush; it need not end (\<open>None\<close>).  An exception leaves the loop with the queue and the
  flag \<open>asyncTimer\<close> as they are.
\<close>

partial_function (option) flush_loop :: "script \<Rightarrow> nat \<Rightarrow> engine \<Rightarrow> (js_error + engine) option" where
  "flush_loop script i s = (if i < length (asyncQueue s)
     then (case run_job script (asyncQueue s ! i) s of
         Inl e \<Rightarrow> Some (Inl e) | Inr s1 \<Rightarrow> flush_loop script (Suc i) s1)
     else Some (Inr (s\<lparr>asyncQueue := [], asyncTimer := False\<rparr>)))"

definition asyncFlush :: "script \<Rightarrow> engine \<Rightarrow> (js_error + engine) option" where
  "asyncFlush script s = flush_loop script 0 s"

declare flush_loop.simps [code]

subsection \<open>Properties of every operation\<close>

text \<open>
  Whatever a client does is made of a few primitive changes of the store.  A preorder that
  contains them contains every operation; the locale proves this once, and the invariants below
  are interpretations of it.
\<close>

definition same_core :: "engine \<Rightarrow> engine \<Rightarrow> bool" where
  "same_core s t \<longleftrightarrow> isNode t = isNode s \<and> promises t = promises s \<and> next_promise t = next_promise s
     \<and> asyncQueue t = asyncQueue s \<and> asyncTimer t = asyncTimer s \<and> timers t = timers s
     \<and> emitted t = emitted s \<and> invoked t = invoked s"

locale engine_relation =
  fixes R :: "engine \<Rightarrow> engine \<Rightarrow> bool"
  assumes trans: "R s t \<Longrightarrow> R t u \<Longrightarrow> R s u"
    and aux: "same_core s t \<Longrightarrow> R s t"
    and allocated: "R s (alloc s)"
    and fulfilling: "R s (fulfill p v s)"
    and rejecting: "R s (reject p v s)"
    and subscribing: "R s (snd (promise_then p f g s))"
begin

lemma reflexive: "R s s"
  by (rule aux) (simp add: same_core_def)

lemma aux_steps:
  "R s (snd (new_flag s))" "R s (set_flag c s)" "R s (hold f g s)" "R s (upd_all a F s)"
  "R s (snd (new_all p s))"
  by (auto intro!: aux simp: same_core_def new_flag_def set_flag_def hold_def upd_all_def new_all_def)

lemma aux_result: "R s (set_result a i v s)"
  unfolding set_result_def by (rule aux_steps)

lemma after_flag: "R (set_flag c s) t \<Longrightarrow> R s t"
  by (rule trans [OF aux_steps(2)])

lemma after_new_flag: "R (s\<lparr>next_flag := n\<rparr>) t \<Longrightarrow> R s t"
  by (rule trans [OF aux]) (auto simp: same_core_def)

lemma after_hold: "R (hold f g s) t \<Longrightarrow> R s t"
  by (rule trans [OF aux_steps(3)])

lemma adopting: "R s (snd (promise_then q f g (snd (new_flag s))))"
  by (rule trans [OF aux_steps(1) subscribing])

lemma held_calls: "R (hold f g (snd (new_flag s))) t \<Longrightarrow> R s t"
  by (rule trans [OF trans [OF aux_steps(1) aux_steps(3)]])

lemma then_reject: "R s t \<Longrightarrow> R s (reject p e t)"
  by (rule trans [OF _ rejecting])

lemma then_fulfill: "R s t \<Longrightarrow> R s (fulfill p e t)"
  by (rule trans [OF _ fulfilling])

lemma resolving_all:
  "R s (snd (handleThenable p v s))"
  "R s (resolve p v s)"
  "R s (run_calls p c v cs s)"
proof (induction p v s and p v s and p c v cs s rule: handleThenable_resolve_run_calls.induct)
  case (1 p q s)
  show ?case
    by (auto simp: rejecting split: prod.splits) (metis adopting snd_conv)
next
  case (3 p i calls exn s)
  obtain c s1 where c: "new_flag s = (c, s1)" by fastforce
  let ?s2 = "run_calls p c (VThen i calls exn) calls
    (hold (Adopt p c (VThen i calls exn)) (AdoptReject p c) s1)"
  have "R s ?s2"
    using held_calls [of _ _ s] 3 [OF c [symmetric] refl] c by simp
  then show ?case
    by (auto simp: c Let_def split: option.splits intro: then_reject)
next
  case (5 p v s)
  obtain h s1 where h: "handleThenable p v s = (h, s1)" by fastforce
  show ?case
    using 5 h by (auto simp: resolve.simps fulfilling then_fulfill)
next
  case (7 p c v w cs s)
  then show ?case by (cases "flags s c") (auto intro: trans [OF after_flag])
next
  case (8 p c v cs s)
  then show ?case by (cases "flags s c") (auto intro: trans [OF after_flag] fulfilling)
next
  case (9 p c v e cs s)
  then show ?case by (cases "flags s c") (auto intro: trans [OF after_flag] rejecting)
qed (auto intro: rejecting reflexive)

lemmas resolving = resolving_all(2)

lemma then_resolve: "R s t \<Longrightarrow> R s (resolve p v t)"
  by (rule trans [OF _ resolving])

lemma all_resolving: "R s (all_resolver a i v s)"
  using trans [OF aux_result aux_steps(4)] by (auto simp: all_resolver_def Let_def intro!: then_resolve)

lemma closure_step: "R s (call_closure f v s)"
  by (cases f) (auto intro: resolving rejecting fulfilling reflexive after_flag all_resolving)

lemma direct_step: "R s (direct_calls f g v cs s)"
  by (induction f g v cs s rule: direct_calls.induct) (auto intro: reflexive closure_step trans)

lemma constructing:
  assumes "\<And>s. R s (snd (resolver (next_promise s0) s))"
  shows "R s0 (snd (new_P resolver s0))"
proof -
  let ?p = "next_promise s0"
  obtain e s1 where r: "resolver ?p (alloc s0) = (e, s1)" by fastforce
  have 1: "R s0 s1"
    using trans [OF allocated [of s0] assms [of "alloc s0"]] r by simp
  show ?thesis
    using 1 r trans [OF 1 rejecting]
    by (auto simp: new_P_def invokeResolver_def Let_def split: option.splits)
qed

lemma entering: "R s (all_enter a s)"
  unfolding all_enter_def by (rule aux_steps)

lemma all_looping: "R s (snd (all_loop p a i vs s))"
proof (induction p a i vs s rule: all_loop.induct)
  case (2 p a i q vs s)
  show ?case
    using trans [OF trans [OF entering subscribing] "2.IH"] by simp
next
  case (4 p a i j calls exn vs s)
  show ?case
    using 4 trans [OF trans [OF entering aux_steps(3)] direct_step]
    by (cases exn) (auto simp: Let_def intro: trans [OF trans [OF trans [OF entering aux_steps(3)] direct_step]])
next
  case (1 p a i s)
  then show ?case by (simp add: reflexive resolving)
qed (auto intro: reflexive resolving trans [OF aux_result])

lemma racing: "R s (snd (race_loop p vs s))"
proof (induction p vs s rule: race_loop.induct)
  case (4 p j calls exn vs s)
  then show ?case
    using trans [OF aux_steps(3) direct_step]
    by (cases exn) (auto simp: Let_def intro: trans [OF trans [OF aux_steps(3) direct_step]])
qed (auto intro: reflexive trans [OF resolving] trans [OF subscribing])

lemma combinators:
  "R s (snd (P_all vs s))" "R s (snd (P_race vs s))" "R s (snd (P_resolve v s))"
  "R s (snd (P_reject v s))"
proof -
  show "R s (snd (P_all vs s))"
    unfolding P_all_def
    by (rule constructing) (auto simp: new_all_def intro!: trans [OF aux all_looping] simp: same_core_def)
  show "R s (snd (P_race vs s))"
    unfolding P_race_def by (rule constructing) (rule racing)
  have "R s (snd (new_P (\<lambda>p s1. (None, call_closure (ResolveP p) v s1)) s))"
    by (rule constructing) (simp add: resolving)
  then show "R s (snd (P_resolve v s))"
    by (auto simp: P_resolve_def reflexive split: pval.splits)
  show "R s (snd (P_reject v s))"
    unfolding P_reject_def by (rule constructing) (simp add: rejecting)
qed

lemma acting:
  "R s (run_act a s)"
  "R s (run_acts as s)"
proof (induction a s and as s rule: run_act_run_acts.induct)
  case (2 body exn s)
  then show ?case by (auto intro: constructing)
next
  case (9 a as s)
  then show ?case by (auto intro: trans)
qed (auto intro: reflexive subscribing combinators closure_step)

lemma calling: "R s (snd (call_fn script f v s))"
  by (cases f) (auto simp: acting closure_step simp del: call_closure.simps split: prod.splits)

lemma settling: "R s (settle_with p st v s)"
  using resolving_all(1) [of s p v]
  by (auto simp: settle_with_def split: prod.splits intro: then_resolve then_reject)

lemma invoking: "R (s\<lparr>invoked := invoked s @ [x]\<rparr>) (invokeCallback script x s)"
proof -
  let ?s = "s\<lparr>invoked := invoked s @ [x]\<rparr>"
  have "R ?s t \<Longrightarrow> R ?s (settle_with p st v t)" for t p st v
    using settling by (rule trans [rotated])
  moreover have "R ?s (snd (call_fn script f v ?s))" for f v
    by (rule calling)
  moreover have "R t (reject p e t)" for t p e by (rule rejecting)
  ultimately show ?thesis
    by (auto simp: invokeCallback_def Let_def settling split: option.splits prod.splits sum.splits)
      (metis snd_conv trans)+
qed

end

end
