(* ===== verification/Fa_Promise_Run.thy ===== *)
theory Fa_Promise_Run
  imports Fa_Promise
begin

text \<open>
  The runs of the promise implementation: the invariant of the store, the specification it
  refines, settling once, callbacks once and in order, flushes that do not fail and that end, and
  where the promises differ from those of the language.
\<close>

subsection \<open>The invariant\<close>

text \<open>
  \<open>i\<close> is the position of the running flush (0 outside), \<open>h\<close> the subscribers that the running
  \<open>forEach\<close> has still to visit.  The subscribers of a promise form a line, from those that have
  been invoked over those in \<open>h\<close> and in the jobs that have not run to those in the list of the
  unpublished promise; the line only grows, at its end.
\<close>

definition published :: "pstatus \<Rightarrow> bool" where
  "published st \<longleftrightarrow> st = FULFILLED \<or> st = REJECTED"

lemma published_simps [simp]:
  "published FULFILLED" "published REJECTED" "\<not> published PENDING" "\<not> published SETTLED"
  by (simp_all add: published_def)

definition waiting :: "engine \<Rightarrow> nat \<Rightarrow> subscriber list" where
  "waiting s p = (if published (statusOf s p) then [] else
     case thens (promises s p) of None \<Rightarrow> [] | Some xs \<Rightarrow> xs)"

definition todo :: "nat \<Rightarrow> engine \<Rightarrow> job list" where
  "todo i s = drop i (asyncQueue s)"

fun job_subs :: "job list \<Rightarrow> subscriber list" where
  "job_subs [] = []"
| "job_subs (InvokeCallback x # js) = x # job_subs js"
| "job_subs (j # js) = job_subs js"

lemma job_subs_append [simp]: "job_subs (js @ ks) = job_subs js @ job_subs ks"
  by (induction js rule: job_subs.induct) simp_all

definition line :: "nat \<Rightarrow> subscriber list \<Rightarrow> engine \<Rightarrow> nat \<Rightarrow> subscriber list" where
  "line i h s p = filter (\<lambda>x. owner x = p) (invoked s @ h @ job_subs (todo i s)) @ waiting s p"

definition publications :: "nat \<Rightarrow> engine \<Rightarrow> nat \<Rightarrow> nat" where
  "publications i s p =
     count_list (todo i s) (PublishFulfillment p) + count_list (todo i s) (PublishRejection p)"

definition engine_inv :: "nat \<Rightarrow> subscriber list \<Rightarrow> engine \<Rightarrow> bool" where
  "engine_inv i h s \<longleftrightarrow> i \<le> length (asyncQueue s)
     \<and> (asyncTimer s \<longleftrightarrow> asyncQueue s \<noteq> [])
     \<and> (\<forall>p. publications i s p = (if statusOf s p = SETTLED then 1 else 0))
     \<and> (\<forall>p. published (statusOf s p) \<or> thens (promises s p) \<noteq> None)
     \<and> (\<forall>p. \<forall>x \<in> set (waiting s p). owner x = p)
     \<and> (\<forall>p. sorted_wrt (<) (map target (line i h s p)))
     \<and> (\<forall>p. \<forall>x \<in> set (line i h s p). target x < next_promise s)
     \<and> (\<forall>x \<in> set (invoked s @ h @ job_subs (todo i s)). published (statusOf s (owner x)))"

lemmas engine_invD = engine_inv_def [THEN iffD1]

lemma engine_inv_start: "engine_inv 0 [] (start_engine node)"
  by (simp add: engine_inv_def start_engine_def publications_def line_def todo_def waiting_def
      new_promise_def)

subsection \<open>The specification of a promise\<close>

text \<open>
  What a client may rely on: a promise has no outcome or one that stays; a subscriber that has
  been registered is delivered at most once, and only after its promise has an outcome.
\<close>

record spec =
  outcomes :: "nat \<Rightarrow> (pval + pval) option"
  registered :: "subscriber set"
  delivered :: "subscriber list"

inductive spec_step :: "spec \<Rightarrow> spec \<Rightarrow> bool" where
  settle: "outcomes a p = None \<Longrightarrow> spec_step a (a\<lparr>outcomes := (outcomes a)(p \<mapsto> out)\<rparr>)"
| register: "x \<notin> registered a \<Longrightarrow> spec_step a (a\<lparr>registered := insert x (registered a)\<rparr>)"
| deliver: "x \<in> registered a \<Longrightarrow> x \<notin> set (delivered a) \<Longrightarrow> outcomes a (owner x) \<noteq> None \<Longrightarrow>
    spec_step a (a\<lparr>delivered := delivered a @ [x]\<rparr>)"

definition outcome :: "nat \<Rightarrow> engine \<Rightarrow> nat \<Rightarrow> (pval + pval) option" where
  "outcome i s p = (case statusOf s p of
     PENDING \<Rightarrow> None
   | SETTLED \<Rightarrow> Some (if PublishFulfillment p \<in> set (todo i s) then Inr (dataOf s p) else Inl (dataOf s p))
   | FULFILLED \<Rightarrow> Some (Inr (dataOf s p))
   | REJECTED \<Rightarrow> Some (Inl (dataOf s p)))"

definition abs_engine :: "nat \<Rightarrow> subscriber list \<Rightarrow> engine \<Rightarrow> spec" where
  "abs_engine i h s = \<lparr>outcomes = outcome i s, registered = {x. x \<in> set (line i h s (owner x))},
     delivered = invoked s\<rparr>"

text \<open>One timer at most is started, and only when the flag says there is none.\<close>

abbreviation timer_kept :: "engine \<Rightarrow> engine \<Rightarrow> bool" where
  "timer_kept s t \<equiv> (asyncTimer s \<longrightarrow> asyncTimer t) \<and>
     timers t + (if asyncTimer s then 1 else 0) = timers s + (if asyncTimer t then 1 else 0)"

definition refines :: "nat \<Rightarrow> subscriber list \<Rightarrow> engine \<Rightarrow> engine \<Rightarrow> bool" where
  "refines i h s t \<longleftrightarrow> (engine_inv i h s \<longrightarrow>
     engine_inv i h t \<and> spec_step\<^sup>*\<^sup>* (abs_engine i h s) (abs_engine i h t)
       \<and> timer_kept s t)"

lemma todo_call [simp]: "i \<le> length (asyncQueue s) \<Longrightarrow> todo i (asyncCall j s) = todo i s @ [j]"
  by (simp add: todo_def asyncCall_def Let_def)

lemma asyncCall_simps [simp]:
  "promises (asyncCall j s) = promises s" "next_promise (asyncCall j s) = next_promise s"
  "asyncQueue (asyncCall j s) = asyncQueue s @ [j]" "asyncTimer (asyncCall j s)"
  "invoked (asyncCall j s) = invoked s"
  "timers (asyncCall j s) = timers s + (if asyncTimer s then 0 else 1)"
  by (simp_all add: asyncCall_def Let_def)

lemma upd_promise_simps [simp]:
  "promises (upd_promise p f s) = (promises s)(p := f (promises s p))"
  "next_promise (upd_promise p f s) = next_promise s" "asyncQueue (upd_promise p f s) = asyncQueue s"
  "asyncTimer (upd_promise p f s) = asyncTimer s" "invoked (upd_promise p f s) = invoked s"
  "timers (upd_promise p f s) = timers s" "todo i (upd_promise p f s) = todo i s"
  "isNode (upd_promise p f s) = isNode s"
  by (simp_all add: upd_promise_def todo_def)

lemma same_core_eqs:
  assumes c: "same_core s t"
  shows "todo i t = todo i s" "waiting t p = waiting s p" "line i h t = line i h s"
    "publications i t = publications i s" "outcome i t = outcome i s"
    "abs_engine i h t = abs_engine i h s" "engine_inv i h t = engine_inv i h s"
proof -
  note c = c [unfolded same_core_def]
  show 1: "todo i t = todo i s" for i using c by (simp add: todo_def)
  show 2: "waiting t p = waiting s p" for p using c by (simp add: waiting_def)
  show 3: "line i h t = line i h s" using c by (simp add: line_def 1 2 fun_eq_iff)
  show 4: "publications i t = publications i s" by (simp add: publications_def 1 fun_eq_iff)
  show 5: "outcome i t = outcome i s"
    using c by (simp add: outcome_def 1 fun_eq_iff cong: pstatus.case_cong)
  show "abs_engine i h t = abs_engine i h s"
    using c by (simp add: abs_engine_def 3 5)
  show "engine_inv i h t = engine_inv i h s"
    using c by (simp add: engine_inv_def 1 2 3 4)
qed

lemma refines_trans: "refines i h s t \<Longrightarrow> refines i h t u \<Longrightarrow> refines i h s u"
  by (auto simp: refines_def)

lemma refines_aux: "same_core s t \<Longrightarrow> refines i h s t"
  by (auto simp: refines_def same_core_eqs) (auto simp: same_core_def)

lemma engine_inv_pos: "engine_inv i h s \<Longrightarrow> i \<le> length (asyncQueue s)"
  by (simp add: engine_inv_def)

lemma waiting_upd: 
  "waiting (upd_promise p f s) q = (if q = p then waiting (upd_promise p f s) p else waiting s q)"
  by (simp add: waiting_def)

lemma waiting_call [simp]: "waiting (asyncCall j s) q = waiting s q"
  by (simp add: waiting_def)

lemma abs_settle:
  assumes "outcome i s p = None" "line i h t = line i h s" "invoked t = invoked s"
    and "outcome i t = (outcome i s)(p \<mapsto> out)"
  shows "spec_step\<^sup>*\<^sup>* (abs_engine i h s) (abs_engine i h t)"
proof -
  have "spec_step (abs_engine i h s) ((abs_engine i h s)\<lparr>outcomes := (outcomes (abs_engine i h s))(p \<mapsto> out)\<rparr>)"
    using assms(1) by (intro spec_step.settle) (simp add: abs_engine_def)
  also have "(abs_engine i h s)\<lparr>outcomes := (outcomes (abs_engine i h s))(p \<mapsto> out)\<rparr> = abs_engine i h t"
    using assms by (simp add: abs_engine_def)
  finally show ?thesis by blast
qed

lemma refines_settle:
  assumes j: "j = PublishFulfillment p \<or> j = PublishRejection p" and pend: "statusOf s p = PENDING"
  shows "refines i h s (asyncCall j (upd_promise p (\<lambda>r. r\<lparr>status := SETTLED, data := v\<rparr>) s))"
    (is "refines i h s ?t")
  unfolding refines_def
proof (intro impI)
  assume inv: "engine_inv i h s"
  note todo = todo_call [of i "upd_promise p (\<lambda>r. r\<lparr>status := SETTLED, data := v\<rparr>) s" j]
  have i: "i \<le> length (asyncQueue s)" using inv by (rule engine_inv_pos)
  have td: "todo i (asyncCall k (upd_promise p (\<lambda>r. r\<lparr>status := SETTLED, data := v\<rparr>) s)) = todo i s @ [k]"
    for k using i by simp
  have w: "waiting (upd_promise p (\<lambda>r. r\<lparr>status := SETTLED, data := v\<rparr>) s) q = waiting s q" for q
    using pend by (simp add: waiting_def)
  have c: "line i h ?t = line i h s"
    using j by (auto simp: line_def td w fun_eq_iff)
  have pb: "publications i ?t q = publications i s q + (if q = p then 1 else 0)" for q
    using j by (auto simp: publications_def td)
  have p0: "publications i s p = 0" using inv pend by (simp add: engine_inv_def)
  have nf: "PublishFulfillment p \<notin> set (todo i s)"
    using p0 by (simp add: publications_def count_list_0_iff)
  have pub: "published (statusOf ?t q) = published (statusOf s q)"
    and ths: "thens (promises ?t q) = thens (promises s q)" for q
    using pend by simp_all
  let ?out = "if j = PublishFulfillment p then Inr v else Inl v"
  have out: "outcome i ?t = (outcome i s)(p \<mapsto> ?out)"
    using j nf by (auto simp: outcome_def td fun_eq_iff split: pstatus.splits)
  have "spec_step\<^sup>*\<^sup>* (abs_engine i h s) (abs_engine i h ?t)"
    by (rule abs_settle [OF _ c _ out]) (simp_all add: outcome_def pend)
  moreover have "engine_inv i h ?t"
    using inv p0 pend j unfolding engine_inv_def waiting_call w c pb td pub ths by auto
  ultimately show "engine_inv i h ?t \<and> spec_step\<^sup>*\<^sup>* (abs_engine i h s) (abs_engine i h ?t) \<and>
    timer_kept s ?t"
    by simp
qed

lemma refines_fulfill: "refines i h s (fulfill p v s)"
  by (auto simp: fulfill_def intro: refines_settle refines_aux simp: same_core_def)

lemma refines_reject: "refines i h s (reject p v s)"
  by (auto simp: reject_def intro: refines_settle refines_aux simp: same_core_def)

lemma refines_alloc: "refines i h s (alloc s)"
proof -
  have e: "todo i (alloc s) = todo i s" "waiting (alloc s) p = waiting s p"
    "invoked (alloc s) = invoked s" "promises (alloc s) = promises s" for p
    by (simp_all add: alloc_def todo_def waiting_def)
  have c: "line i h (alloc s) = line i h s" "publications i (alloc s) = publications i s"
    "outcome i (alloc s) = outcome i s"
    by (simp_all add: line_def publications_def outcome_def e fun_eq_iff split: pstatus.splits)
  show ?thesis
    unfolding refines_def engine_inv_def abs_engine_def c e
    by (auto simp: alloc_def less_SucI)
qed

lemma refines_quiet_call:
  "j = NotifyHandled p \<Longrightarrow> refines i h s (asyncCall j s)"
  unfolding refines_def
proof (intro impI)
  assume j: "j = NotifyHandled p" and inv: "engine_inv i h s"
  have td: "todo i (asyncCall k s) = todo i s @ [k]" for k using inv by (simp add: engine_inv_pos)
  have c: "line i h (asyncCall j s) = line i h s"
    "publications i (asyncCall j s) = publications i s"
    "outcome i (asyncCall j s) = outcome i s"
    using j by (simp_all add: line_def publications_def outcome_def td fun_eq_iff split: pstatus.splits)
  show "engine_inv i h (asyncCall j s)
    \<and> spec_step\<^sup>*\<^sup>* (abs_engine i h s) (abs_engine i h (asyncCall j s)) \<and>
    timer_kept s (asyncCall j s)"
    using inv j unfolding engine_inv_def abs_engine_def c td by auto
qed

lemma refines_handled: "refines i h s (upd_promise p (\<lambda>r. r\<lparr>handled := b\<rparr>) s)" (is "refines i h s ?t")
proof -
  have w: "waiting ?t q = waiting s q" for q by (simp add: waiting_def)
  have c: "line i h ?t = line i h s" "publications i ?t = publications i s" "outcome i ?t = outcome i s"
    by (auto simp: line_def publications_def outcome_def w fun_eq_iff split: pstatus.splits)
  show ?thesis
    unfolding refines_def engine_inv_def abs_engine_def w c by auto
qed

lemma refines_mark: "refines i h s (mark_handled p g s)"
  unfolding mark_handled_def Let_def
  by (auto intro: refines_handled refines_trans [OF refines_handled refines_quiet_call]
      refines_aux simp: same_core_def)

lemma abs_register:
  assumes "x \<notin> set (line i h s (owner x))"
    and "line i h t = (\<lambda>q. if q = owner x then line i h s q @ [x] else line i h s q)"
    and "invoked t = invoked s" "outcome i t = outcome i s"
  shows "spec_step\<^sup>*\<^sup>* (abs_engine i h s) (abs_engine i h t)"
proof -
  have "spec_step (abs_engine i h s) ((abs_engine i h s)\<lparr>registered := insert x (registered (abs_engine i h s))\<rparr>)"
    using assms(1) by (intro spec_step.register) (simp add: abs_engine_def)
  also have "(abs_engine i h s)\<lparr>registered := insert x (registered (abs_engine i h s))\<rparr> = abs_engine i h t"
    using assms by (auto simp: abs_engine_def)
  finally show ?thesis by blast
qed

lemma refines_subscribe:
  assumes fresh: "engine_inv i h s \<Longrightarrow>
    (\<forall>y \<in> set (line i h s (owner x)). target y < target x) \<and> target x < next_promise s"
  shows "refines i h s (subscribe x s)"
proof (cases "published (statusOf s (owner x))")
  case True
  then have t: "subscribe x s = asyncCall (InvokeCallback x) s"
    by (auto simp: subscribe_def published_def)
  show ?thesis
    unfolding refines_def t
  proof (intro impI)
    let ?t = "asyncCall (InvokeCallback x) s"
    assume inv: "engine_inv i h s"
    note f = fresh [OF inv]
    have td: "todo i ?t = todo i s @ [InvokeCallback x]" using inv by (simp add: engine_inv_pos)
    have w: "waiting s (owner x) = []" using True by (simp add: waiting_def)
    have c: "line i h ?t = (\<lambda>q. if q = owner x then line i h s q @ [x] else line i h s q)"
      by (auto simp: line_def td w fun_eq_iff)
    have o: "publications i ?t = publications i s" "outcome i ?t = outcome i s"
      by (simp_all add: publications_def outcome_def td fun_eq_iff split: pstatus.splits)
    have "spec_step\<^sup>*\<^sup>* (abs_engine i h s) (abs_engine i h ?t)"
      using f by (intro abs_register [OF _ c]) (auto simp: o)
    moreover have "engine_inv i h ?t"
      using inv f True unfolding engine_inv_def c o td waiting_call by (auto simp: sorted_wrt_append)
    ultimately show "engine_inv i h ?t \<and> spec_step\<^sup>*\<^sup>* (abs_engine i h s) (abs_engine i h ?t) \<and>
      timer_kept s ?t"
      by simp
  qed
next
  case False
  let ?t = "upd_promise (owner x) (\<lambda>r. r\<lparr>thens := map_option (\<lambda>xs. xs @ [x]) (thens r)\<rparr>) s"
  have t: "subscribe x s = ?t"
    using False by (auto simp: subscribe_def published_def)
  show ?thesis
    unfolding refines_def t
  proof (intro impI)
    assume inv: "engine_inv i h s"
    note f = fresh [OF inv]
    obtain xs where xs: "thens (promises s (owner x)) = Some xs"
      using inv False by (auto simp: engine_inv_def)
    have w: "waiting ?t q = (if q = owner x then waiting s q @ [x] else waiting s q)" for q
      using False xs by (simp add: waiting_def)
    have pub: "published (statusOf ?t q) = published (statusOf s q)" for q by simp
    have c: "line i h ?t = (\<lambda>q. if q = owner x then line i h s q @ [x] else line i h s q)"
      using f by (auto simp: line_def w fun_eq_iff)
    have o: "publications i ?t = publications i s" "outcome i ?t = outcome i s"
      by (auto simp: publications_def outcome_def fun_eq_iff split: pstatus.splits)
    have "spec_step\<^sup>*\<^sup>* (abs_engine i h s) (abs_engine i h ?t)"
      using f by (intro abs_register [OF _ c]) (auto simp: o)
    moreover have "engine_inv i h ?t"
      using inv f unfolding engine_inv_def c o w pub by (auto simp: sorted_wrt_append)
    ultimately show "engine_inv i h ?t \<and> spec_step\<^sup>*\<^sup>* (abs_engine i h s) (abs_engine i h ?t) \<and>
      timer_kept s ?t"
      by simp
  qed
qed

lemma mark_handled_same:
  shows "i \<le> length (asyncQueue s) \<Longrightarrow> line i h (mark_handled p g s) = line i h s"
    and "next_promise (mark_handled p g s) = next_promise s"
proof -
  have w: "waiting (upd_promise p (\<lambda>r. r\<lparr>handled := b\<rparr>) s) q = waiting s q" for q b
    by (simp add: waiting_def)
  show "i \<le> length (asyncQueue s) \<Longrightarrow> line i h (mark_handled p g s) = line i h s"
    and "next_promise (mark_handled p g s) = next_promise s"
    by (auto simp: mark_handled_def Let_def line_def w fun_eq_iff)
qed

lemma alloc_same: "line i h (alloc s) = line i h s" "next_promise (alloc s) = Suc (next_promise s)"
  "asyncQueue (alloc s) = asyncQueue s"
  by (simp_all add: alloc_def line_def waiting_def todo_def fun_eq_iff)

lemma refines_subscribing: "refines i h s (snd (promise_then p f g s))"
proof -
  let ?x = "\<lparr>owner = p, target = next_promise s, fulfilled = f, rejected = g\<rparr>"
  let ?t = "mark_handled p (g \<noteq> None \<or> f \<noteq> None) (alloc s)"
  have "engine_inv i h s \<Longrightarrow> refines i h ?t (subscribe ?x ?t)"
  proof (rule refines_subscribe)
    assume inv: "engine_inv i h s" and "engine_inv i h ?t"
    have "\<forall>y \<in> set (line i h s p). target y < next_promise s"
      using inv unfolding engine_inv_def by blast
    then show "(\<forall>y \<in> set (line i h ?t (owner ?x)). target y < target ?x) \<and> target ?x < next_promise ?t"
      using inv by (simp add: mark_handled_same alloc_same engine_inv_pos)
  qed
  moreover have "refines i h s ?t"
    by (rule refines_trans [OF refines_alloc refines_mark])
  ultimately show ?thesis
    by (auto simp: promise_then_def Let_def refines_def)
qed

interpretation spec: engine_relation "refines i h" for i h
  by unfold_locales
    (auto intro: refines_trans refines_aux refines_alloc refines_fulfill refines_reject refines_subscribing)

subsection \<open>Running a job\<close>

lemma todo_Cons: "i < length (asyncQueue s) \<Longrightarrow> todo i s = asyncQueue s ! i # todo (Suc i) s"
  by (simp add: todo_def Cons_nth_drop_Suc)

text \<open>A delivery: a subscriber leaves the job or the list that held it and is invoked.\<close>

lemma abs_deliver:
  assumes "x \<in> set (line i h s (owner x))" "x \<notin> set (invoked s)" "published (statusOf s (owner x))"
    and "line j h' t = line i h s" "outcome j t = outcome i s" "invoked t = invoked s @ [x]"
  shows "spec_step\<^sup>*\<^sup>* (abs_engine i h s) (abs_engine j h' t)"
proof -
  have "spec_step (abs_engine i h s) ((abs_engine i h s)\<lparr>delivered := delivered (abs_engine i h s) @ [x]\<rparr>)"
    using assms(1-3) by (intro spec_step.deliver) (auto simp: abs_engine_def outcome_def published_def)
  also have "(abs_engine i h s)\<lparr>delivered := delivered (abs_engine i h s) @ [x]\<rparr> = abs_engine j h' t"
    using assms by (simp add: abs_engine_def)
  finally show ?thesis by blast
qed

definition reaches :: "nat \<Rightarrow> subscriber list \<Rightarrow> engine \<Rightarrow> nat \<Rightarrow> subscriber list \<Rightarrow> engine \<Rightarrow> bool" where
  "reaches i h s j h' t \<longleftrightarrow> (engine_inv i h s \<longrightarrow> engine_inv j h' t
     \<and> spec_step\<^sup>*\<^sup>* (abs_engine i h s) (abs_engine j h' t)
     \<and> timer_kept s t)"

lemma reaches_refines: "reaches i h s i h t = refines i h s t"
  by (simp add: reaches_def refines_def)

lemma reaches_trans: "reaches i h s j h' t \<Longrightarrow> reaches j h' t k h'' u \<Longrightarrow> reaches i h s k h'' u"
  by (auto simp: reaches_def)

lemma record_invocation:
  "todo i (s\<lparr>invoked := xs\<rparr>) = todo i s" "waiting (s\<lparr>invoked := xs\<rparr>) p = waiting s p"
  "publications i (s\<lparr>invoked := xs\<rparr>) = publications i s" "outcome i (s\<lparr>invoked := xs\<rparr>) = outcome i s"
  by (simp_all add: todo_def waiting_def publications_def outcome_def fun_eq_iff cong: pstatus.case_cong)

lemma reaches_invoke:
  "reaches i (x # h) s i h (invokeCallback script x s)"
proof -
  let ?t = "s\<lparr>invoked := invoked s @ [x]\<rparr>"
  have c: "line i h ?t = line i (x # h) s"
    by (simp add: line_def record_invocation fun_eq_iff)
  have "reaches i (x # h) s i h ?t"
    unfolding reaches_def
  proof (intro impI)
    assume inv: "engine_inv i (x # h) s"
    have x: "sorted_wrt (<) (map target (line i (x # h) s (owner x)))" "published (statusOf s (owner x))"
      using inv by (auto simp: engine_inv_def)
    have ex: "x \<in> set (line i (x # h) s (owner x))" "x \<notin> set (invoked s)"
      using x(1) by (auto simp: line_def sorted_wrt_append)
    have "spec_step\<^sup>*\<^sup>* (abs_engine i (x # h) s) (abs_engine i h ?t)"
      by (rule abs_deliver [OF ex x(2) c]) (simp_all add: record_invocation)
    moreover have "engine_inv i h ?t"
      using inv unfolding engine_inv_def c record_invocation by auto
    ultimately show "engine_inv i h ?t \<and> spec_step\<^sup>*\<^sup>* (abs_engine i (x # h) s) (abs_engine i h ?t) \<and>
      timer_kept s ?t"
      by simp
  qed
  moreover have "reaches i h ?t i h (invokeCallback script x s)"
    unfolding reaches_refines by (rule spec.invoking)
  ultimately show ?thesis by (rule reaches_trans)
qed

lemma reaches_forEach: "reaches i xs s i [] (fold (invokeCallback script) xs s)"
proof (induction xs arbitrary: s)
  case Nil
  then show ?case by (simp add: reaches_def)
next
  case (Cons x xs)
  then show ?case by (auto intro: reaches_trans [OF reaches_invoke])
qed

lemma engine_inv_publication:
  assumes "engine_inv i h s" and "i < length (asyncQueue s)"
    and "asyncQueue s ! i = PublishFulfillment p \<or> asyncQueue s ! i = PublishRejection p"
  shows "statusOf s p = SETTLED"
proof -
  have "publications i s p = (if statusOf s p = SETTLED then 1 else 0)"
    using assms(1) by (simp add: engine_inv_def)
  then show ?thesis
    using assms(3) by (auto simp: publications_def todo_Cons [OF assms(2)] split: if_splits)
qed

lemma reaches_take:
  assumes i: "i < length (asyncQueue s)" and j: "asyncQueue s ! i = InvokeCallback x"
  shows "reaches i [] s (Suc i) [x] s"
proof -
  have td: "todo i s = InvokeCallback x # todo (Suc i) s" using i j by (simp add: todo_Cons)
  have c: "line (Suc i) [x] s = line i [] s" "publications (Suc i) s = publications i s"
    "outcome (Suc i) s = outcome i s"
    by (auto simp: line_def publications_def outcome_def td fun_eq_iff split: pstatus.splits)
  have "engine_inv i [] s \<Longrightarrow> engine_inv (Suc i) [x] s"
    using i unfolding engine_inv_def c td by auto
  then show ?thesis
    by (auto simp: reaches_def abs_engine_def c)
qed

lemma reaches_notified:
  assumes i: "i < length (asyncQueue s)" and j: "asyncQueue s ! i = NotifyHandled p"
  shows "reaches i [] s (Suc i) [] (notifyRejectionHandled p s)" (is "reaches _ _ _ _ _ ?t")
proof -
  have td: "todo i s = NotifyHandled p # todo (Suc i) ?t" "todo (Suc i) ?t = todo (Suc i) s"
    using i j by (simp_all add: todo_Cons) (simp_all add: todo_def notifyRejectionHandled_def emit_def)
  have w: "waiting ?t q = waiting s q" "promises ?t = promises s" "invoked ?t = invoked s" for q
    by (simp_all add: notifyRejectionHandled_def emit_def waiting_def)
  have c: "line (Suc i) [] ?t = line i [] s" "publications (Suc i) ?t = publications i s"
    "outcome (Suc i) ?t = outcome i s"
    using i j by (auto simp: line_def publications_def outcome_def td w todo_Cons fun_eq_iff
        split: pstatus.splits)
  have "engine_inv i [] s \<Longrightarrow> engine_inv (Suc i) [] ?t"
    using i j unfolding engine_inv_def c w td by (auto simp: notifyRejectionHandled_def emit_def)
  then show ?thesis
    by (auto simp: reaches_def abs_engine_def c w) (simp_all add: notifyRejectionHandled_def emit_def)
qed

text \<open>
  Publishing: the job says which outcome it was, the promise shows it, and its list is handed
  to the loop.
\<close>

lemma reaches_publish:
  assumes i: "i < length (asyncQueue s)" and inv: "engine_inv i [] s"
    and j: "asyncQueue s ! i = (if st = FULFILLED then PublishFulfillment p else PublishRejection p)"
    and st: "published st"
  shows "\<exists>xs. thens (promises s p) = Some xs \<and> reaches i [] s (Suc i) xs (upd_promise p (\<lambda>r. r\<lparr>status := st\<rparr>) s)
    \<and> line (Suc i) xs (upd_promise p (\<lambda>r. r\<lparr>status := st\<rparr>) s) = line i [] s"
proof -
  let ?t = "upd_promise p (\<lambda>r. r\<lparr>status := st\<rparr>) s"
  define job where "job = (if st = FULFILLED then PublishFulfillment p else PublishRejection p)"
  have td: "todo i s = job # todo (Suc i) s" using i j by (simp add: todo_Cons job_def)
  have one: "publications i s p = (if statusOf s p = SETTLED then 1 else 0)"
    using inv by (simp add: engine_inv_def)
  have set: "statusOf s p = SETTLED"
    using engine_inv_publication [OF inv i] j by (auto split: if_splits)
  then obtain xs where xs: "thens (promises s p) = Some xs"
    using inv by (auto simp: engine_inv_def dest: spec [of _ p])
  have w: "waiting ?t q = (if q = p then [] else waiting s q)" "waiting s p = xs" for q
    using st xs set by (auto simp: waiting_def)
  have ow: "\<forall>x \<in> set xs. owner x = p"
    using inv w(2) by (auto simp: engine_inv_def)
  have none: "publications (Suc i) s p = 0"
    using one set by (auto simp: publications_def td job_def split: if_splits)
  have pubs: "\<forall>x \<in> set (invoked s @ job_subs (todo i s)). published (statusOf s (owner x))"
    using inv unfolding engine_inv_def by simp
  have early: "filter (\<lambda>x. owner x = p) (invoked s @ job_subs (todo i s)) = []"
    unfolding filter_empty_conv
  proof (intro ballI notI)
    fix x assume "x \<in> set (invoked s @ job_subs (todo i s))" and "owner x = p"
    with pubs have "published (statusOf s p)" by blast
    with set show False by simp
  qed
  have sel: "filter (\<lambda>x. owner x = q) xs = (if q = p then xs else [])" for q
    using ow by (induction xs) auto
  have js: "job_subs (todo i s) = job_subs (todo (Suc i) s)"
    by (cases "st = FULFILLED") (simp_all add: td job_def)
  have c: "line (Suc i) xs ?t q = line i [] s q" for q
  proof (cases "q = p")
    case True
    then show ?thesis using early by (simp add: line_def w sel js)
  next
    case False
    then show ?thesis by (simp add: line_def w sel js)
  qed
  then have c: "line (Suc i) xs ?t = line i [] s" by blast
  have pb: "publications (Suc i) ?t q = (if q = p then 0 else publications i s q)" for q
    using none by (auto simp: publications_def td job_def)
  have out: "outcome (Suc i) ?t = outcome i s"
    using set st none by (auto simp: outcome_def td job_def fun_eq_iff published_def publications_def
        count_list_0_iff split: pstatus.splits if_splits)
  have "engine_inv (Suc i) xs ?t"
    using inv i st set ow unfolding engine_inv_def c pb w(1) upd_promise_simps js
    by auto
  then have "reaches i [] s (Suc i) xs ?t"
    by (simp add: reaches_def abs_engine_def c out)
  with xs c show ?thesis by blast
qed

lemma waiting_emptied:
  "published (statusOf s p) \<Longrightarrow> waiting (upd_promise p (\<lambda>r. r\<lparr>thens := None\<rparr>) s) q = waiting s q"
  by (simp add: waiting_def)

lemma reaches_published:
  assumes "published (statusOf s p)"
  shows "reaches i h s i h (upd_promise p (\<lambda>r. r\<lparr>thens := None\<rparr>) s)" (is "reaches _ _ _ _ _ ?t")
proof -
  note w = waiting_emptied [OF assms]
  have c: "line i h ?t = line i h s" "publications i ?t = publications i s" "outcome i ?t = outcome i s"
    using assms by (auto simp: line_def publications_def outcome_def w fun_eq_iff split: pstatus.splits)
  show ?thesis
    using assms unfolding reaches_def engine_inv_def abs_engine_def c w by auto
qed

subsection \<open>Settled for good\<close>

text \<open>Once settled a promise keeps its value, and once published its status.\<close>

definition settled_stays :: "engine \<Rightarrow> engine \<Rightarrow> bool" where
  "settled_stays s t \<longleftrightarrow> (\<forall>p. statusOf s p \<noteq> PENDING \<longrightarrow> dataOf t p = dataOf s p
     \<and> statusOf t p \<noteq> PENDING \<and> (published (statusOf s p) \<longrightarrow> statusOf t p = statusOf s p))
     \<and> next_promise s \<le> next_promise t \<and> (\<exists>js. asyncQueue t = asyncQueue s @ js)"

lemma settled_stays_trans: "settled_stays s t \<Longrightarrow> settled_stays t u \<Longrightarrow> settled_stays s u"
  unfolding settled_stays_def
proof (intro conjI allI impI)
  assume a: "(\<forall>p. statusOf s p \<noteq> PENDING \<longrightarrow> dataOf t p = dataOf s p \<and> statusOf t p \<noteq> PENDING
      \<and> (published (statusOf s p) \<longrightarrow> statusOf t p = statusOf s p))
      \<and> next_promise s \<le> next_promise t \<and> (\<exists>js. asyncQueue t = asyncQueue s @ js)"
    and b: "(\<forall>p. statusOf t p \<noteq> PENDING \<longrightarrow> dataOf u p = dataOf t p \<and> statusOf u p \<noteq> PENDING
      \<and> (published (statusOf t p) \<longrightarrow> statusOf u p = statusOf t p))
      \<and> next_promise t \<le> next_promise u \<and> (\<exists>js. asyncQueue u = asyncQueue t @ js)"
  show "next_promise s \<le> next_promise u" using a b by (blast intro: order.trans)
  show "\<exists>js. asyncQueue u = asyncQueue s @ js" using a b by fastforce
  fix p
  assume "statusOf s p \<noteq> PENDING"
  then show "dataOf u p = dataOf s p" "statusOf u p \<noteq> PENDING" using a b by simp_all
  assume "published (statusOf s p)"
  then show "statusOf u p = statusOf s p" using a b \<open>statusOf s p \<noteq> PENDING\<close> by simp
qed

interpretation settled: engine_relation settled_stays
proof unfold_locales
  fix s t :: engine and p v f g
  show "same_core s t \<Longrightarrow> settled_stays s t" by (simp add: same_core_def settled_stays_def)
  show "settled_stays s (alloc s)" by (simp add: settled_stays_def alloc_def)
  show "settled_stays s (fulfill p v s)" "settled_stays s (reject p v s)"
    by (auto simp: fulfill_def reject_def settled_stays_def)
  have "settled_stays s (mark_handled p b s)" for b and s :: engine
    by (auto simp: mark_handled_def Let_def settled_stays_def)
  moreover have "settled_stays s (subscribe x s)" for x and s :: engine
    by (auto simp: subscribe_def settled_stays_def)
  ultimately show "settled_stays s (snd (promise_then p f g s))"
    using \<open>settled_stays s (alloc s)\<close>
    by (simp add: promise_then_def Let_def) (blast intro: settled_stays_trans)
qed (rule settled_stays_trans)

lemma settled_stays_record: "settled_stays s (s\<lparr>invoked := xs\<rparr>)"
  by (simp add: settled_stays_def)

lemma settled_forEach: "settled_stays s (fold (invokeCallback script) xs s)"
proof (induction xs arbitrary: s)
  case Nil
  then show ?case by (simp add: settled.reflexive)
next
  case (Cons x xs)
  have "settled_stays s (invokeCallback script x s)"
    by (rule settled_stays_trans [OF settled_stays_record settled.invoking])
  with Cons show ?case by (auto intro: settled_stays_trans)
qed

subsection \<open>The run of the engine\<close>

text \<open>
  The library runs inside the client's turns and the timer's: between flushes the client acts;
  a timer that fires starts a flush, which runs the jobs one by one and ends at the end of the
  queue.  A configuration is the store and the position of the flush, if one is running.
\<close>

type_synonym config = "engine \<times> nat option"

inductive engine_step :: "script \<Rightarrow> config \<Rightarrow> config \<Rightarrow> bool" for script where
  turn: "engine_step script (s, None) (run_act a s, None)"
| timer: "0 < timers s \<Longrightarrow> engine_step script (s, None) (s\<lparr>timers := timers s - 1\<rparr>, Some 0)"
| job: "i < length (asyncQueue s) \<Longrightarrow> run_job script (asyncQueue s ! i) s = Inr t \<Longrightarrow>
    engine_step script (s, Some i) (t, Some (Suc i))"
| finished: "length (asyncQueue s) \<le> i \<Longrightarrow>
    engine_step script (s, Some i) (s\<lparr>asyncQueue := [], asyncTimer := False\<rparr>, None)"

inductive_cases engine_step_flushing: "engine_step script (s, Some i) c"
inductive_cases engine_step_idle: "engine_step script (s, None) c"

definition config_inv :: "config \<Rightarrow> bool" where
  "config_inv c = (case c of
     (s, None) \<Rightarrow> engine_inv 0 [] s \<and> timers s = (if asyncTimer s then 1 else 0)
   | (s, Some i) \<Rightarrow> engine_inv i [] s \<and> asyncTimer s \<and> timers s = 0)"

definition abs_config :: "config \<Rightarrow> spec" where
  "abs_config c = abs_engine (case snd c of None \<Rightarrow> 0 | Some i \<Rightarrow> i) [] (fst c)"

lemma job_step:
  assumes i: "i < length (asyncQueue s)" and inv: "engine_inv i [] s"
  shows "\<exists>t. run_job script (asyncQueue s ! i) s = Inr t \<and> reaches i [] s (Suc i) [] t"
proof -
  have pub: "\<exists>t. publish script p (upd_promise p (\<lambda>r. r\<lparr>status := st\<rparr>) s) = Inr t \<and> reaches i [] s (Suc i) [] t
      \<and> statusOf t p = st"
    if j: "asyncQueue s ! i = (if st = FULFILLED then PublishFulfillment p else PublishRejection p)"
      and st: "published st" for p st
  proof -
    let ?s = "upd_promise p (\<lambda>r. r\<lparr>status := st\<rparr>) s"
    obtain xs where xs: "thens (promises s p) = Some xs" and r: "reaches i [] s (Suc i) xs ?s"
      using reaches_publish [OF i inv j st] by blast
    let ?t = "fold (invokeCallback script) xs ?s"
    have st': "statusOf ?t p = st"
      using settled_forEach [of ?s script xs] st by (auto simp: settled_stays_def published_def)
    then have pt: "published (statusOf ?t p)" using st by simp
    have "reaches i [] s (Suc i) [] (upd_promise p (\<lambda>r. r\<lparr>thens := None\<rparr>) ?t)"
      by (rule reaches_trans [OF reaches_trans [OF r reaches_forEach] reaches_published [OF pt]])
    then show ?thesis using xs st' by (simp add: publish_def)
  qed
  show ?thesis
  proof (cases "asyncQueue s ! i")
    case (PublishFulfillment p)
    then show ?thesis using pub [of FULFILLED p] by (auto simp: publishFulfillment_def)
  next
    case (PublishRejection p)
    then obtain t where t: "publish script p (upd_promise p (\<lambda>r. r\<lparr>status := REJECTED\<rparr>) s) = Inr t"
      "reaches i [] s (Suc i) [] t" using pub [of REJECTED p] by auto
    have "same_core_emit": "reaches (Suc i) [] t (Suc i) [] (emit e t)" for e
    proof -
      have "todo j (emit e t) = todo j t" "waiting (emit e t) q = waiting t q"
        "promises (emit e t) = promises t" "invoked (emit e t) = invoked t" for j q
        by (simp_all add: emit_def todo_def waiting_def)
      note w = this
      have c: "line (Suc i) [] (emit e t) = line (Suc i) [] t"
        "publications (Suc i) (emit e t) = publications (Suc i) t"
        "outcome (Suc i) (emit e t) = outcome (Suc i) t"
        by (auto simp: line_def publications_def outcome_def w fun_eq_iff split: pstatus.splits)
      show ?thesis
        unfolding reaches_def engine_inv_def abs_engine_def c w by (auto simp: emit_def)
    qed
    then show ?thesis
      using PublishRejection t by (auto simp: publishRejection_def intro: reaches_trans)
  next
    case (InvokeCallback x)
    then show ?thesis
      using reaches_trans [OF reaches_take [OF i InvokeCallback] reaches_invoke] by auto
  next
    case (NotifyHandled p)
    then show ?thesis using reaches_notified [OF i NotifyHandled] by auto
  qed
qed

lemma config_step:
  assumes "engine_step script c c'" and "config_inv c"
  shows "config_inv c' \<and> spec_step\<^sup>*\<^sup>* (abs_config c) (abs_config c')"
  using assms
proof (induction rule: engine_step.induct)
  case (turn s a)
  then show ?case
    using spec.acting(1) [of 0 "[]" s a]
    by (auto simp: config_inv_def abs_config_def refines_def split: if_splits)
next
  case (timer s)
  have k: "todo 0 (s\<lparr>timers := n\<rparr>) = todo 0 s" "waiting (s\<lparr>timers := n\<rparr>) p = waiting s p" for n p
    by (simp_all add: todo_def waiting_def)
  have l: "line 0 [] (s\<lparr>timers := n\<rparr>) = line 0 [] s" "publications 0 (s\<lparr>timers := n\<rparr>) = publications 0 s"
    "outcome 0 (s\<lparr>timers := n\<rparr>) = outcome 0 s" for n
    by (auto simp: line_def publications_def outcome_def k fun_eq_iff split: pstatus.splits)
  show ?case
    using timer unfolding config_inv_def abs_config_def engine_inv_def abs_engine_def
    by (auto simp: k l split: if_splits)
next
  case (job i s t)
  obtain t' where "run_job script (asyncQueue s ! i) s = Inr t'" "reaches i [] s (Suc i) [] t'"
    using job_step [OF job(1)] job(3) by (auto simp: config_inv_def)
  then show ?case
    using job by (auto simp: config_inv_def abs_config_def reaches_def)
next
  case (finished s i)
  let ?t = "s\<lparr>asyncQueue := [], asyncTimer := False\<rparr>"
  have td: "todo i s = []" "todo 0 ?t = []" using finished by (simp_all add: todo_def)
  have w: "waiting ?t p = waiting s p" for p by (simp add: waiting_def)
  have l: "line 0 [] ?t = line i [] s" "publications 0 ?t = publications i s" "outcome 0 ?t = outcome i s"
    by (auto simp: line_def publications_def outcome_def td w fun_eq_iff split: pstatus.splits)
  show ?case
    using finished unfolding config_inv_def abs_config_def engine_inv_def abs_engine_def
    by (auto simp: l td w)
qed

lemma config_inv_start: "config_inv (start_engine node, None)"
  using engine_inv_start by (simp add: config_inv_def start_engine_def)

lemma config_steps:
  assumes "(engine_step script)\<^sup>*\<^sup>* c c'" and "config_inv c"
  shows "config_inv c' \<and> spec_step\<^sup>*\<^sup>* (abs_config c) (abs_config c')"
  using assms
proof (induction rule: rtranclp_induct)
  case base
  then show ?case by simp
next
  case (step c1 c2)
  then show ?case using config_step [OF step(2)] by (meson rtranclp_trans)
qed

lemmas reachable_inv = config_steps [OF _ config_inv_start, THEN conjunct1]

lemma settled_step:
  assumes "engine_step script c c'" and "config_inv c" and "statusOf (fst c) p \<noteq> PENDING"
  shows "dataOf (fst c') p = dataOf (fst c) p \<and> statusOf (fst c') p \<noteq> PENDING
    \<and> (published (statusOf (fst c) p) \<longrightarrow> statusOf (fst c') p = statusOf (fst c) p)"
  using assms
proof (induction rule: engine_step.induct)
  case (turn s a)
  then show ?case using settled.acting(1) [of s a] by (simp add: settled_stays_def)
next
  case (job i s t)
  have pub: "publish script q (upd_promise q (\<lambda>r. r\<lparr>status := st\<rparr>) s) = Inr u \<Longrightarrow>
      published st \<Longrightarrow> statusOf s q = SETTLED \<Longrightarrow>
      dataOf u p = dataOf s p \<and> statusOf u p \<noteq> PENDING \<and> (published (statusOf s p) \<longrightarrow> statusOf u p = statusOf s p)"
    for q st u
    using job(4) settled_forEach [of "upd_promise q (\<lambda>r. r\<lparr>status := st\<rparr>) s" script]
    by (cases "p = q") (auto simp: publish_def settled_stays_def published_def split: option.splits)
  have set: "statusOf s q = SETTLED"
    if "asyncQueue s ! i = PublishFulfillment q \<or> asyncQueue s ! i = PublishRejection q" for q
    using job(3) that by (intro engine_inv_publication [OF _ job(1), of "[]"]) (simp_all add: config_inv_def)
  show ?case
  proof (cases "asyncQueue s ! i")
    case (PublishFulfillment q)
    then show ?thesis using job(2) set pub [of q FULFILLED] by (simp add: publishFulfillment_def)
  next
    case (PublishRejection q)
    then show ?thesis
      using job(2) set pub [of q REJECTED]
      by (auto simp: publishRejection_def js_bind_eq_Inr emit_def split: if_splits)
  next
    case (InvokeCallback x)
    then have "t = invokeCallback script x s" using job(2) by simp
    moreover have "settled_stays s (invokeCallback script x s)"
      by (rule settled_stays_trans [OF settled_stays_record settled.invoking])
    ultimately show ?thesis using job(4) by (simp add: settled_stays_def)
  next
    case (NotifyHandled q)
    then show ?thesis using job by (auto simp: notifyRejectionHandled_def emit_def)
  qed
qed auto

subsection \<open>What a client may rely on\<close>

definition spec_start :: spec where
  "spec_start = \<lparr>outcomes = (\<lambda>_. None), registered = {}, delivered = []\<rparr>"

abbreviation reachable :: "script \<Rightarrow> bool \<Rightarrow> config \<Rightarrow> bool" where
  "reachable script node c \<equiv> (engine_step script)\<^sup>*\<^sup>* (start_engine node, None) c"

lemma abs_start: "abs_config (start_engine node, None) = spec_start"
  by (simp add: abs_config_def abs_engine_def spec_start_def start_engine_def outcome_def line_def
      todo_def waiting_def new_promise_def fun_eq_iff)

text \<open>
  A small run: the client makes a promise that is resolved at once, subscribes two functions to
  it, and the timer fires.  The first function answers, the second throws.
\<close>

definition demo_script :: script where
  "demo_script k v s = (if k = 0 then ([], Inr (VData ''done'')) else ([], Inl (VData ''oops!'')))"

definition demo_acts :: "act list" where
  "demo_acts = [New [Call (ResolveP 0) (VData ''icon'')] None,
     Then 0 (Some (Client 0)) None, Then 0 (Some (Client 1)) None]"

definition demo_engine :: engine where
  "demo_engine = run_acts demo_acts (start_engine False)"

lemma turns: "(engine_step script)\<^sup>*\<^sup>* (s, None) (run_acts as s, None)"
  by (induction as arbitrary: s) (auto intro: converse_rtranclp_into_rtranclp engine_step.turn)

lemma demo_reachable: "reachable script False (demo_engine, None)"
  unfolding demo_engine_def by (rule turns)

lemma demo_state: "statusOf demo_engine 0 = SETTLED" "dataOf demo_engine 0 = VData ''icon''"
  "asyncQueue demo_engine = [PublishFulfillment 0]" "timers demo_engine = 1" "asyncTimer demo_engine"
  by code_simp+

definition demo_flushed :: engine where
  "demo_flushed = (case run_job demo_script (PublishFulfillment 0) (demo_engine\<lparr>timers := 0\<rparr>) of
     Inr t \<Rightarrow> t | Inl _ \<Rightarrow> demo_engine)"

lemma demo_started: "engine_step script (demo_engine, None) (demo_engine\<lparr>timers := 0\<rparr>, Some 0)"
  using engine_step.timer [of demo_engine script] by (simp add: demo_state)

lemma demo_inv: "engine_inv 0 [] (demo_engine\<lparr>timers := 0\<rparr>)"
  using config_step [OF demo_started reachable_inv [OF demo_reachable]] by (simp add: config_inv_def)

lemma demo_job: "run_job demo_script (PublishFulfillment 0) (demo_engine\<lparr>timers := 0\<rparr>) = Inr demo_flushed"
proof -
  obtain t where "run_job demo_script (PublishFulfillment 0) (demo_engine\<lparr>timers := 0\<rparr>) = Inr t"
    using job_step [OF _ demo_inv, of demo_script] by (auto simp: demo_state simp del: run_job.simps)
  then show ?thesis by (simp add: demo_flushed_def del: run_job.simps)
qed

lemma demo_flushing: "reachable demo_script False (demo_flushed, Some 1)"
proof -
  have "engine_step demo_script (demo_engine\<lparr>timers := 0\<rparr>, Some 0) (demo_flushed, Some (Suc 0))"
    by (rule engine_step.job) (simp_all add: demo_state demo_job del: run_job.simps)
  then show ?thesis
    using rtranclp.rtrancl_into_rtrancl [OF rtranclp.rtrancl_into_rtrancl [OF demo_reachable demo_started]]
    by simp
qed

text \<open>
  C2: the promises of fontawesome.js implement the promise specification.  Whatever the client
  does in its turns and in its callbacks, and however turns and flushes alternate, every part of
  a run of the library is matched by steps in which outcomes are only set where there is none,
  and a registered subscriber is delivered only once and only when its promise has an outcome.
\<close>

theorem promises_refine_spec:
  assumes "reachable script node c" and "(engine_step script)\<^sup>*\<^sup>* c c'"
  shows "spec_step\<^sup>*\<^sup>* spec_start (abs_config c) \<and> spec_step\<^sup>*\<^sup>* (abs_config c) (abs_config c')"
  using config_steps [OF assms(1) config_inv_start] config_steps [OF assms(2)]
  by (simp add: abs_start)

theorem promises_refine_spec_witness:
  "spec_step\<^sup>*\<^sup>* spec_start (abs_config (demo_engine, None))
   \<and> spec_step\<^sup>*\<^sup>* (abs_config (demo_engine, None)) (abs_config (demo_engine, None))"
  using promises_refine_spec [OF demo_reachable] by blast

text \<open>
  C10: a promise settles at most once.  From the moment it has a value it keeps that value through
  every later step, it never becomes pending again, and once published as fulfilled or rejected it
  stays what it is.
\<close>

theorem promise_settles_once:
  assumes "reachable script node c" and "(engine_step script)\<^sup>*\<^sup>* c c'"
    and "statusOf (fst c) p \<noteq> PENDING"
  shows "dataOf (fst c') p = dataOf (fst c) p \<and> statusOf (fst c') p \<noteq> PENDING
    \<and> (published (statusOf (fst c) p) \<longrightarrow> statusOf (fst c') p = statusOf (fst c) p)"
  using assms(2,3)
proof (induction rule: rtranclp_induct)
  case base
  then show ?case by simp
next
  case (step c1 c2)
  have "config_inv c1"
    using config_steps [OF step(1)] reachable_inv [OF assms(1)] by blast
  then show ?case using settled_step [OF step(2)] step by auto
qed

theorem promise_settles_once_witness:
  "dataOf demo_engine 0 = VData ''icon'' \<and> statusOf (run_act (Call (RejectP 0) VUndef) demo_engine) 0 \<noteq> PENDING"
proof -
  have "(engine_step demo_script)\<^sup>*\<^sup>* (demo_engine, None) (run_act (Call (RejectP 0) VUndef) demo_engine, None)"
    by (blast intro: engine_step.turn)
  from promise_settles_once [OF demo_reachable this, of 0] show ?thesis
    by (simp add: demo_state)
qed

lemma distinct_by_key:
  assumes "\<And>k. distinct (filter (\<lambda>x. f x = k) xs)"
  shows "distinct xs"
  using assms
proof (induction xs)
  case (Cons x xs)
  have "distinct (filter (\<lambda>y. f y = k) xs)" for k
    using Cons.prems [of k] by (auto split: if_splits)
  moreover have "x \<notin> set xs" using Cons.prems [of "f x"] by auto
  ultimately show ?case using Cons.IH by simp
qed simp

lemma engine_inv_ordered:
  "engine_inv i h s \<Longrightarrow> sorted_wrt (<) (map target (filter (\<lambda>x. owner x = p) (invoked s) @ waiting s p))"
  by (auto simp: engine_inv_def line_def sorted_wrt_append)

lemma engine_inv_distinct: "engine_inv i h s \<Longrightarrow> distinct (invoked s)"
proof (rule distinct_by_key)
  fix p
  assume "engine_inv i h s"
  then have "sorted_wrt (<) (map target (filter (\<lambda>x. owner x = p) (invoked s)))"
    using engine_inv_ordered [of i h s p] by (simp add: sorted_wrt_append)
  then show "distinct (filter (\<lambda>x. owner x = p) (invoked s))" by (metis distinct_map strict_sorted_iff)
qed

text \<open>
  C6: no callback runs twice or too early, and the callbacks of one promise run in the order in
  which they were registered (their derived promises have increasing addresses).  At any time of
  a run, every subscriber that \<open>invokeCallback\<close> has run for belongs to a published promise, and
  those that still wait will come after those that ran.
\<close>

theorem callbacks_once_in_order:
  assumes "reachable script node (s, flush)"
  shows "distinct (invoked s)
    \<and> (\<forall>p. sorted_wrt (<) (map target (filter (\<lambda>x. owner x = p) (invoked s) @ waiting s p)))
    \<and> list_all (\<lambda>x. published (statusOf s (owner x))) (invoked s)"
proof -
  obtain i where inv: "engine_inv i [] s"
    using reachable_inv [OF assms] by (cases flush) (auto simp: config_inv_def)
  then have "list_all (\<lambda>x. published (statusOf s (owner x))) (invoked s)"
    by (simp add: engine_inv_def list_all_iff)
  with inv show ?thesis by (blast intro: engine_inv_ordered engine_inv_distinct)
qed

lemma demo_invoked: "map target (invoked demo_flushed) = [1, 2]"
  by code_simp

theorem callbacks_once_in_order_witness:
  "map target (invoked demo_flushed) = [1, 2] \<and> distinct (invoked demo_flushed)"
  using callbacks_once_in_order [OF demo_flushing] demo_invoked by blast



text \<open>
  C16: a flush never fails and is never forgotten.  In every reachable configuration the next job
  of a running flush runs without an exception (an exception would leave \<open>asyncTimer\<close> set and
  the queue stuck for ever), and between flushes exactly one timer is set when the queue has jobs.
\<close>

theorem flush_never_stuck:
  assumes "reachable script node (s, flush)"
  shows "(case flush of
      Some i \<Rightarrow> i < length (asyncQueue s) \<longrightarrow> (\<exists>t. run_job script (asyncQueue s ! i) s = Inr t)
    | None \<Rightarrow> timers s = (if asyncQueue s = [] then 0 else 1))"
proof (cases flush)
  case None
  then show ?thesis
    using reachable_inv [OF assms] by (auto simp: config_inv_def engine_inv_def)
next
  case (Some i)
  then show ?thesis
    using reachable_inv [OF assms] job_step [of i s script] by (auto simp: config_inv_def)
qed

theorem flush_never_stuck_witness:
  "timers demo_engine = 1 \<and> asyncQueue demo_engine \<noteq> []"
  using flush_never_stuck [OF demo_reachable] by (simp add: demo_state)

subsection \<open>The flush as a loop and as steps\<close>

definition flush_step :: "script \<Rightarrow> config \<Rightarrow> config \<Rightarrow> bool" where
  "flush_step script c c' \<longleftrightarrow> snd c \<noteq> None \<and> engine_step script c c'"

lemma flush_step_cases:
  "flush_step script (s, Some i) c' \<longleftrightarrow>
     (if i < length (asyncQueue s)
      then \<exists>t. run_job script (asyncQueue s ! i) s = Inr t \<and> c' = (t, Some (Suc i))
      else c' = (s\<lparr>asyncQueue := [], asyncTimer := False\<rparr>, None))"
  by (auto simp: flush_step_def elim!: engine_step_flushing intro: engine_step.job engine_step.finished)

definition ends_well :: "script \<Rightarrow> nat \<Rightarrow> engine \<Rightarrow> js_error + engine \<Rightarrow> bool" where
  "ends_well script i s r \<longleftrightarrow> (config_inv (s, Some i) \<longrightarrow>
     (\<exists>t. r = Inr t \<and> (flush_step script)\<^sup>*\<^sup>* (s, Some i) (t, None)))"

lemma loop_to_steps: "flush_loop script i s = Some r \<Longrightarrow> ends_well script i s r"
proof (rule flush_loop.raw_induct [of ends_well script i s r])
  fix loop script i s r
  assume IH: "\<And>script i s r. loop script i s = Some r \<Longrightarrow> ends_well script i s r"
    and body: "(if i < length (asyncQueue s)
      then case run_job script (asyncQueue s ! i) s of Inl e \<Rightarrow> Some (Inl e) | Inr s1 \<Rightarrow> loop script (Suc i) s1
      else Some (Inr (s\<lparr>asyncQueue := [], asyncTimer := False\<rparr>))) = Some r"
  show "ends_well script i s r"
    unfolding ends_well_def
  proof
    assume inv: "config_inv (s, Some i)"
    show "\<exists>t. r = Inr t \<and> (flush_step script)\<^sup>*\<^sup>* (s, Some i) (t, None)"
    proof (cases "i < length (asyncQueue s)")
      case True
      obtain t where t: "run_job script (asyncQueue s ! i) s = Inr t"
        using job_step [OF True] inv by (auto simp: config_inv_def)
      then have step: "flush_step script (s, Some i) (t, Some (Suc i))"
        using True by (simp add: flush_step_cases)
      then have "config_inv (t, Some (Suc i))"
        using config_step inv by (auto simp: flush_step_def)
      moreover have "ends_well script (Suc i) t r" using IH body True t by simp
      ultimately show ?thesis
        using step by (auto simp: ends_well_def intro: converse_rtranclp_into_rtranclp)
    next
      case False
      then have "flush_step script (s, Some i) (s\<lparr>asyncQueue := [], asyncTimer := False\<rparr>, None)"
        by (simp add: flush_step_cases)
      then show ?thesis using body False by auto
    qed
  qed
qed

lemma flush_ends_empty:
  "(flush_step script)\<^sup>*\<^sup>* c c' \<Longrightarrow> snd c \<noteq> None \<Longrightarrow> snd c' = None \<Longrightarrow>
   asyncQueue (fst c') = [] \<and> \<not> asyncTimer (fst c')"
  by (induction rule: rtranclp_induct) (auto simp: flush_step_def elim!: engine_step.cases)

lemma steps_to_loop:
  "(flush_step script)\<^sup>*\<^sup>* c (t, None) \<Longrightarrow> c = (s, Some i) \<Longrightarrow> flush_loop script i s = Some (Inr t)"
proof (induction arbitrary: s i rule: converse_rtranclp_induct)
  case (step c c')
  then show ?case
  proof (cases "i < length (asyncQueue s)")
    case True
    then obtain u where u: "run_job script (asyncQueue s ! i) s = Inr u" "c' = (u, Some (Suc i))"
      using step by (auto simp: flush_step_cases)
    then show ?thesis using step True by (subst flush_loop.simps) simp
  next
    case False
    then have c': "c' = (s\<lparr>asyncQueue := [], asyncTimer := False\<rparr>, None)"
      using step by (simp add: flush_step_cases)
    have "(flush_step script)\<^sup>*\<^sup>* c' (t, None) \<Longrightarrow> snd c' = None \<Longrightarrow> c' = (t, None)" for c'
      by (erule converse_rtranclpE) (auto simp: flush_step_def)
    then have "s\<lparr>asyncQueue := [], asyncTimer := False\<rparr> = t" using step(2) c' by auto
    then show ?thesis using False by (subst flush_loop.simps) simp
  qed
qed simp

text \<open>
  the loop of \<open>asyncFlush\<close> and its steps agree.  In a reachable configuration the loop
  returns a store exactly when the steps of the flush reach it, and it never returns an
  exception; in particular it returns at all exactly when the run of the flush is finite.
\<close>

theorem flush_loop_steps:
  assumes "reachable script node (s, Some i)"
  shows "flush_loop script i s = Some r \<longleftrightarrow>
    (\<exists>t. r = Inr t \<and> (flush_step script)\<^sup>*\<^sup>* (s, Some i) (t, None))"
  using loop_to_steps [of script i s r, unfolded ends_well_def] steps_to_loop [of script "(s, Some i)"] reachable_inv [OF assms]
  by blast

theorem flush_loop_steps_witness: "flush_loop demo_script 1 demo_flushed \<noteq> Some (Inl TypeError)"
  using flush_loop_steps [OF demo_flushing, of "Inl TypeError"] by simp

subsection \<open>A flush that ends\<close>

text \<open>What an operation leaves as it is: what has been invoked, and the lines if no promise was made.\<close>

definition grows :: "nat \<Rightarrow> engine \<Rightarrow> engine \<Rightarrow> bool" where
  "grows i s t \<longleftrightarrow> (i \<le> length (asyncQueue s) \<longrightarrow> i \<le> length (asyncQueue t))
     \<and> invoked t = invoked s \<and> next_promise s \<le> next_promise t
     \<and> (i \<le> length (asyncQueue s) \<longrightarrow> next_promise t = next_promise s \<longrightarrow> (\<forall>h. line i h t = line i h s))"

lemma grows_trans: "grows i s t \<Longrightarrow> grows i t u \<Longrightarrow> grows i s u"
  by (simp add: grows_def)

lemma grows_settle:
  assumes "j = PublishFulfillment p \<or> j = PublishRejection p" and "statusOf s p = PENDING"
  shows "grows i s (asyncCall j (upd_promise p (\<lambda>r. r\<lparr>status := SETTLED, data := v\<rparr>) s))"
proof -
  let ?u = "upd_promise p (\<lambda>r. r\<lparr>status := SETTLED, data := v\<rparr>) s"
  have w: "waiting ?u q = waiting s q" for q
    using assms by (simp add: waiting_def)
  have td: "i \<le> length (asyncQueue s) \<Longrightarrow> todo i (asyncCall k ?u) = todo i s @ [k]" for k
    by simp
  show ?thesis
    using assms(1) by (auto simp: grows_def line_def w td fun_eq_iff)
qed

lemma then_next:
  "next_promise (snd (promise_then p f g s)) = Suc (next_promise s)"
  "invoked (snd (promise_then p f g s)) = invoked s"
  "length (asyncQueue s) \<le> length (asyncQueue (snd (promise_then p f g s)))"
  by (auto simp: promise_then_def Let_def subscribe_def mark_handled_def alloc_def)

interpretation grow: engine_relation "grows i" for i
proof unfold_locales
  fix s t :: engine and p v f g
  show "same_core s t \<Longrightarrow> grows i s t"
    by (simp add: grows_def same_core_eqs) (simp add: same_core_def)
  show "grows i s (alloc s)" by (simp add: grows_def alloc_same) (simp add: alloc_def)
  show "grows i s (fulfill p v s)" "grows i s (reject p v s)"
    using grows_settle [of "PublishFulfillment p" p s i v] grows_settle [of "PublishRejection p" p s i v]
    by (auto simp: fulfill_def reject_def) (simp_all add: grows_def)
  show "grows i s (snd (promise_then p f g s))"
    using order.trans [OF _ then_next(3) [of s p f g]] by (auto simp: grows_def then_next)
qed (rule grows_trans)

text \<open>
  Client functions are quiet when they only settle promises, at most \<open>B\<close> of them, and neither
  pass on nor return nor throw thenables.
\<close>

fun plain :: "pval \<Rightarrow> bool" where
  "plain (VProm p) = False"
| "plain (VThen i cs e) = False"
| "plain (VBadThen e) = False"
| "plain v = True"

fun settling :: "act \<Rightarrow> bool" where
  "settling (Call (ResolveP p) v) = plain v"
| "settling (Call (RejectP p) v) = plain v"
| "settling a = False"

definition quiet :: "nat \<Rightarrow> script \<Rightarrow> bool" where
  "quiet B script \<longleftrightarrow> (\<forall>k v s. length (fst (script k v s)) \<le> B \<and> list_all settling (fst (script k v s))
     \<and> (case snd (script k v s) of Inl e \<Rightarrow> plain e | Inr w \<Rightarrow> plain w))"

definition plain_store :: "engine \<Rightarrow> bool" where
  "plain_store s \<longleftrightarrow> (\<forall>p. statusOf s p \<noteq> PENDING \<longrightarrow> plain (dataOf s p))"

definition light :: "nat \<Rightarrow> engine \<Rightarrow> engine \<Rightarrow> bool" where
  "light n s t \<longleftrightarrow> (plain_store s \<longrightarrow> plain_store t) \<and> next_promise t = next_promise s
     \<and> length (asyncQueue t) \<le> length (asyncQueue s) + n"

lemma light_trans: "light m s t \<Longrightarrow> light n t u \<Longrightarrow> light (m + n) s u"
  by (auto simp: light_def)

lemma light_mono: "light m s t \<Longrightarrow> m \<le> n \<Longrightarrow> light n s t"
  by (auto simp: light_def)

lemma light_refl: "light n s s"
  by (simp add: light_def)

lemma light_settle: "plain v \<Longrightarrow> light (Suc 0) s (fulfill p v s)" "plain v \<Longrightarrow> light (Suc 0) s (reject p v s)"
  by (auto simp: fulfill_def reject_def light_def plain_store_def)

lemma plain_handle: "plain v \<Longrightarrow> handleThenable p v s = (False, s)"
  by (cases v) simp_all

lemma plain_resolve: "plain v \<Longrightarrow> resolve p v s = fulfill p v s"
  by (auto simp: resolve.simps plain_handle)

lemma light_flag: "light n (set_flag c s) t \<Longrightarrow> light n s t"
  by (simp add: light_def set_flag_def plain_store_def)

lemma light_result: "light n (upd_all a F (set_result a i v s)) t \<Longrightarrow> light n s t"
  by (simp add: light_def set_result_def upd_all_def plain_store_def)

lemma light_closure: "plain v \<Longrightarrow> light (Suc 0) s (call_closure f v s)"
proof (cases f)
  case (AllResolver a i)
  assume v: "plain v"
  show ?thesis
    using light_result [OF light_settle(1)] light_result [OF light_refl]
    by (simp add: AllResolver all_resolver_def Let_def plain_resolve)
qed (auto simp: plain_resolve light_settle light_refl intro: light_flag light_flag [OF light_settle(1)] light_flag [OF light_settle(2)])

lemma light_settling: "settling a \<Longrightarrow> light (Suc 0) s (run_act a s)"
  by (cases a rule: settling.cases) (auto simp: plain_resolve light_settle)

lemma light_acts: "list_all settling as \<Longrightarrow> light (length as) s (run_acts as s)"
proof (induction as arbitrary: s)
  case (Cons a as)
  then show ?case
    using light_trans [OF light_settling [of a s], of "length as"] by simp
qed (simp add: light_refl)

lemma light_call:
  assumes "quiet B script" and "plain v" and "call_fn script f v s = (out, t)"
  shows "light (B + 1) s t \<and> (case out of Inl e \<Rightarrow> plain e | Inr w \<Rightarrow> plain w)"
proof (cases f)
  case (Client k)
  obtain body w where b: "script k v s = (body, w)" by fastforce
  have "length body \<le> B" "list_all settling body" "case w of Inl e \<Rightarrow> plain e | Inr w \<Rightarrow> plain w"
    using assms(1) b unfolding quiet_def by (metis fst_conv, metis fst_conv, metis snd_conv)
  moreover have "t = run_acts body s" "out = w" using assms(3) b Client by auto
  ultimately show ?thesis using light_mono [OF light_acts, of body "B + 1" s] by simp
qed (use assms light_mono [OF light_closure [OF assms(2)], of "B + 1" s f] in auto)

lemma light_settle_with: "plain v \<Longrightarrow> light (Suc 0) s (settle_with p st v s)"
  by (auto simp: settle_with_def plain_handle plain_resolve light_settle light_refl)

lemma light_invoke:
  assumes "quiet B script" and "plain_store s" and "published (statusOf s (owner x))"
  shows "light (B + 3) s (invokeCallback script x s)"
proof -
  let ?s = "s\<lparr>invoked := invoked s @ [x]\<rparr>"
  let ?v = "dataOf s (owner x)"
  have v: "plain ?v" using assms by (auto simp: plain_store_def published_def)
  have rec: "light n ?s t \<Longrightarrow> light n s t" for n t by (simp add: light_def plain_store_def)
  show ?thesis
  proof (cases "callback_of x (statusOf s (owner x))")
    case None
    then show ?thesis
      using rec [OF light_mono [OF light_settle_with [OF v]]] by (simp add: invokeCallback_def)
  next
    case (Some f)
    obtain out t where c: "call_fn script f ?v ?s = (out, t)" by fastforce
    have l: "light (B + 1) ?s t" "case out of Inl e \<Rightarrow> plain e | Inr w \<Rightarrow> plain w"
      using light_call [OF assms(1) v c] by auto
    show ?thesis
    proof (cases out)
      case (Inl e)
      have "light (B + 1 + Suc 0) ?s (reject (target x) e t)"
        using l Inl by (intro light_trans [OF l(1)] light_settle) simp
      then have "light (B + 3) ?s (settle_with (target x) FULFILLED ?v (reject (target x) e t))"
        by (rule light_mono [OF light_trans [OF _ light_settle_with [OF v]]]) simp
      then show ?thesis using rec Inl c Some by (simp add: invokeCallback_def)
    next
      case (Inr w)
      then have "light (B + 3) ?s (settle_with (target x) FULFILLED w t)"
        using l by (intro light_mono [OF light_trans [OF l(1) light_settle_with]]) simp_all
      then show ?thesis using rec Inr c Some by (simp add: invokeCallback_def)
    qed
  qed
qed

lemma invoked_invoke: "invoked (invokeCallback script x s) = invoked s @ [x]"
  using grow.invoking [of 0 s x script] by (simp add: grows_def)

lemma line_record: "line i h (s\<lparr>invoked := invoked s @ [x]\<rparr>) = line i (x # h) s"
  by (simp add: line_def record_invocation fun_eq_iff)

definition quiet_run :: "nat \<Rightarrow> nat \<Rightarrow> subscriber list \<Rightarrow> engine \<Rightarrow> nat \<Rightarrow> subscriber list \<Rightarrow> engine \<Rightarrow> bool" where
  "quiet_run B i h s j h' t \<longleftrightarrow> j \<le> length (asyncQueue t) \<and> (plain_store s \<longrightarrow> plain_store t)
     \<and> line j h' t = line i h s
     \<and> (\<exists>n. length (invoked t) = length (invoked s) + n
          \<and> length (asyncQueue t) \<le> length (asyncQueue s) + (B + 3) * n)"

lemma quiet_run_trans:
  assumes "quiet_run B i h s j h' t" and "quiet_run B j h' t k h'' u"
  shows "quiet_run B i h s k h'' u"
proof -
  obtain m n where "length (invoked t) = length (invoked s) + m"
    "length (asyncQueue t) \<le> length (asyncQueue s) + (B + 3) * m"
    "length (invoked u) = length (invoked t) + n"
    "length (asyncQueue u) \<le> length (asyncQueue t) + (B + 3) * n"
    using assms unfolding quiet_run_def by blast
  then have "length (invoked u) = length (invoked s) + (m + n)
      \<and> length (asyncQueue u) \<le> length (asyncQueue s) + (B + 3) * (m + n)"
    by (simp add: algebra_simps)
  then show ?thesis using assms unfolding quiet_run_def by metis
qed

lemma quiet_invoke:
  assumes "quiet B script" "plain_store s" "published (statusOf s (owner x))" "i \<le> length (asyncQueue s)"
  shows "quiet_run B i (x # h) s i h (invokeCallback script x s)"
proof -
  have l: "light (B + 3) s (invokeCallback script x s)" by (rule light_invoke [OF assms(1-3)])
  have "grows i (s\<lparr>invoked := invoked s @ [x]\<rparr>) (invokeCallback script x s)" by (rule grow.invoking)
  then have "line i h (invokeCallback script x s) = line i (x # h) s" "i \<le> length (asyncQueue (invokeCallback script x s))"
    using l assms(4) by (simp_all add: grows_def light_def line_record)
  then show ?thesis
    using l by (simp add: quiet_run_def light_def invoked_invoke exI [of _ "Suc 0"])
qed

lemma settled_published: "settled_stays s t \<Longrightarrow> published (statusOf s p) \<Longrightarrow> published (statusOf t p)"
  unfolding settled_stays_def published_def by (metis pstatus.distinct(3,5))

lemma quiet_forEach:
  assumes "quiet B script" "plain_store s" "\<forall>x \<in> set xs. published (statusOf s (owner x))"
    and "i \<le> length (asyncQueue s)"
  shows "quiet_run B i xs s i [] (fold (invokeCallback script) xs s)"
  using assms(2-)
proof (induction xs arbitrary: s)
  case Nil
  then show ?case by (simp add: quiet_run_def)
next
  case (Cons x xs)
  let ?t = "invokeCallback script x s"
  have r: "quiet_run B i (x # xs) s i xs ?t"
    by (rule quiet_invoke [OF assms(1)]) (use Cons.prems in auto)
  have "settled_stays s ?t"
    by (rule settled_stays_trans [OF settled_stays_record settled.invoking])
  then have "\<forall>y \<in> set xs. published (statusOf ?t (owner y))"
    using Cons.prems by (auto intro: settled_published)
  then have "quiet_run B i xs ?t i [] (fold (invokeCallback script) xs ?t)"
    using r Cons.prems by (intro Cons.IH) (auto simp: quiet_run_def)
  then show ?case using quiet_run_trans [OF r] by simp
qed

lemma quiet_run_still:
  "j \<le> length (asyncQueue t) \<Longrightarrow> (plain_store s \<Longrightarrow> plain_store t) \<Longrightarrow> line j h' t = line i h s \<Longrightarrow>
   invoked t = invoked s \<Longrightarrow> asyncQueue t = asyncQueue s \<Longrightarrow> quiet_run B i h s j h' t"
  unfolding quiet_run_def by (intro conjI exI [of _ 0]) simp_all

lemma emit_same: "line i h (emit e s) = line i h s" "plain_store (emit e s) = plain_store s"
  "invoked (emit e s) = invoked s" "asyncQueue (emit e s) = asyncQueue s"
  by (simp_all add: emit_def plain_store_def line_def todo_def waiting_def fun_eq_iff)

lemma engine_inv_hand: "engine_inv i h s \<Longrightarrow> \<forall>x \<in> set h. published (statusOf s (owner x))"
  by (simp add: engine_inv_def)

lemma quiet_publish:
  assumes i: "i < length (asyncQueue s)" and inv: "engine_inv i [] s"
    and j: "asyncQueue s ! i = (if st = FULFILLED then PublishFulfillment p else PublishRejection p)"
    and st: "published st" and q: "quiet B script" and plain: "plain_store s"
    and t: "publish script p (upd_promise p (\<lambda>r. r\<lparr>status := st\<rparr>) s) = Inr t"
  shows "quiet_run B i [] s (Suc i) [] t"
proof -
  let ?s = "upd_promise p (\<lambda>r. r\<lparr>status := st\<rparr>) s"
  obtain xs where xs: "thens (promises s p) = Some xs" and r: "reaches i [] s (Suc i) xs ?s"
    and l: "line (Suc i) xs ?s = line i [] s"
    using reaches_publish [OF i inv j st] by blast
  have set: "statusOf s p = SETTLED"
    using engine_inv_publication [OF inv i] j by (auto split: if_splits)
  let ?u = "fold (invokeCallback script) xs ?s"
  have "quiet_run B i [] s (Suc i) xs ?s"
    using i l set plain by (intro quiet_run_still) (auto simp: plain_store_def)
  moreover have "quiet_run B (Suc i) xs ?s (Suc i) [] ?u"
  proof (rule quiet_forEach [OF q])
    show "plain_store ?s" using plain set by (auto simp: plain_store_def)
    show "\<forall>x \<in> set xs. published (statusOf ?s (owner x))"
      using r inv engine_inv_hand unfolding reaches_def by blast
    show "Suc i \<le> length (asyncQueue ?s)" using i by simp
  qed
  moreover have "quiet_run B (Suc i) [] ?u (Suc i) [] t"
  proof -
    have pu: "published (statusOf ?u p)"
      by (rule settled_published [OF settled_forEach]) (simp add: st)
    have t': "t = upd_promise p (\<lambda>r. r\<lparr>thens := None\<rparr>) ?u"
      using t xs by (simp add: publish_def)
    have "line (Suc i) [] t = line (Suc i) [] ?u"
      unfolding t' by (simp add: line_def waiting_emptied [OF pu] fun_eq_iff)
    moreover have "plain_store ?u \<longrightarrow> plain_store t" using t' by (auto simp: plain_store_def)
    moreover have "Suc i \<le> length (asyncQueue ?u)"
      using settled_forEach [of ?s script xs] i by (auto simp: settled_stays_def)
    ultimately show ?thesis using t' by (intro quiet_run_still) simp_all
  qed
  ultimately show ?thesis by (blast intro: quiet_run_trans)
qed

lemma quiet_job:
  assumes i: "i < length (asyncQueue s)" and inv: "engine_inv i [] s" and q: "quiet B script"
    and plain: "plain_store s" and t: "run_job script (asyncQueue s ! i) s = Inr t"
  shows "quiet_run B i [] s (Suc i) [] t"
proof (cases "asyncQueue s ! i")
  case (PublishFulfillment p)
  then show ?thesis
    using t quiet_publish [OF i inv _ _ q plain, of FULFILLED p t] by (simp add: publishFulfillment_def)
next
  case (PublishRejection p)
  then obtain u where u: "publish script p (upd_promise p (\<lambda>r. r\<lparr>status := REJECTED\<rparr>) s) = Inr u"
    "t = u \<or> t = emit (UnhandledRejection p) u"
    using t by (auto simp: publishRejection_def js_bind_eq_Inr split: if_splits)
  have "quiet_run B i [] s (Suc i) [] u"
    using PublishRejection u(1) quiet_publish [OF i inv _ _ q plain, of REJECTED p u] by simp
  then show ?thesis
    using u(2) by (auto simp: quiet_run_def emit_same)
next
  case (InvokeCallback x)
  have td: "todo i s = InvokeCallback x # todo (Suc i) s" using i InvokeCallback by (simp add: todo_Cons)
  have "published (statusOf s (owner x))" using inv by (simp add: engine_inv_def td)
  then have "quiet_run B (Suc i) [x] s (Suc i) [] (invokeCallback script x s)"
    using i plain by (intro quiet_invoke [OF q]) auto
  moreover have "quiet_run B i [] s (Suc i) [x] s"
    using i by (intro quiet_run_still) (simp_all add: line_def td fun_eq_iff)
  ultimately show ?thesis using t InvokeCallback by (auto intro: quiet_run_trans)
next
  case (NotifyHandled p)
  have td: "todo i s = NotifyHandled p # todo (Suc i) s" using i NotifyHandled by (simp add: todo_Cons)
  have "t = emit (RejectionHandled p) s" using t NotifyHandled by (simp add: notifyRejectionHandled_def)
  moreover have "line (Suc i) [] s = line i [] s" by (simp add: line_def td fun_eq_iff)
  ultimately show ?thesis
    using i by (intro quiet_run_still) (simp_all add: emit_same)
qed

definition registered_in :: "nat \<Rightarrow> engine \<Rightarrow> subscriber set" where
  "registered_in i s = {x. x \<in> set (line i [] s (owner x))}"

lemma spec_finite: "spec_step\<^sup>*\<^sup>* a b \<Longrightarrow> finite (registered a) \<Longrightarrow> finite (registered b)"
  by (induction rule: rtranclp_induct) (auto elim!: spec_step.cases)

lemma invoked_registered: "engine_inv i [] s \<Longrightarrow> distinct (invoked s) \<Longrightarrow> finite (registered_in i s) \<Longrightarrow>
   length (invoked s) \<le> card (registered_in i s)"
  by (auto simp: distinct_card [symmetric] registered_in_def line_def intro!: card_mono)

lemma quiet_flush_ends:
  assumes q: "quiet B script"
  shows "config_inv (s, Some i) \<Longrightarrow> plain_store s \<Longrightarrow> finite (registered_in i s) \<Longrightarrow>
    \<exists>t. flush_loop script i s = Some (Inr t)"
proof (induction "(B + 4) * (card (registered_in i s) - length (invoked s)) + (length (asyncQueue s) - i)"
    arbitrary: i s rule: less_induct)
  case less
  have inv: "engine_inv i [] s" using less.prems(1) by (simp add: config_inv_def)
  show ?case
  proof (cases "i < length (asyncQueue s)")
    case True
    obtain t where t: "run_job script (asyncQueue s ! i) s = Inr t"
      using job_step [OF True inv] by blast
    have qr: "quiet_run B i [] s (Suc i) [] t"
      by (rule quiet_job [OF True inv q less.prems(2) t])
    have inv': "config_inv (t, Some (Suc i))"
      using config_step [OF engine_step.job [OF True t] less.prems(1)] by blast
    obtain n where n: "length (invoked t) = length (invoked s) + n"
      "length (asyncQueue t) \<le> length (asyncQueue s) + (B + 3) * n"
      using qr unfolding quiet_run_def by blast
    have reg: "registered_in (Suc i) t = registered_in i s"
      using qr by (simp add: quiet_run_def registered_in_def)
    have le: "length (invoked t) \<le> card (registered_in i s)"
      using inv' invoked_registered [of "Suc i" t] engine_inv_distinct less.prems(3) reg
      by (auto simp: config_inv_def)
    define c where "c = card (registered_in i s) - length (invoked s) - n"
    have c: "card (registered_in i s) - length (invoked s) = c + n"
      "card (registered_in i s) - length (invoked t) = c"
      using le n(1) by (auto simp: c_def)
    have "length (asyncQueue t) - Suc i < (B + 4) * n + (length (asyncQueue s) - i)"
      using n(2) True by (auto simp: algebra_simps)
    then have "(B + 4) * (card (registered_in (Suc i) t) - length (invoked t)) + (length (asyncQueue t) - Suc i)
        < (B + 4) * (card (registered_in i s) - length (invoked s)) + (length (asyncQueue s) - i)"
      unfolding reg c by (simp add: algebra_simps)
    then have "\<exists>u. flush_loop script (Suc i) t = Some (Inr u)"
      using less.hyps inv' qr less.prems reg by (auto simp: quiet_run_def)
    then show ?thesis using True t by (subst flush_loop.simps) simp
  next
    case False
    then show ?thesis by (subst flush_loop.simps) simp
  qed
qed

text \<open>
  C13: a flush ends.  If the client's functions are quiet and no promise carries a thenable, the
  loop of every reachable flush comes to its end, however many promises wait for each other: each
  job uses up a subscriber or an entry of the queue.
\<close>

theorem quiet_flush_returns:
  assumes "reachable script node (s, Some i)" and "quiet B script" and "plain_store s"
  shows "\<exists>t. flush_loop script i s = Some (Inr t) \<and> asyncQueue t = [] \<and> \<not> asyncTimer t"
proof -
  have "spec_step\<^sup>*\<^sup>* spec_start (abs_config (s, Some i))"
    using config_steps [OF assms(1) config_inv_start] by (simp add: abs_start)
  then have "finite (registered (abs_config (s, Some i)))"
    by (rule spec_finite) (simp add: spec_start_def)
  then have "finite (registered_in i s)"
    by (simp add: abs_config_def abs_engine_def registered_in_def)
  then obtain t where t: "flush_loop script i s = Some (Inr t)"
    using quiet_flush_ends [OF assms(2) reachable_inv [OF assms(1)] assms(3)] by blast
  have "asyncQueue t = [] \<and> \<not> asyncTimer t"
    using loop_to_steps [OF t] reachable_inv [OF assms(1)] flush_ends_empty by (auto simp: ends_well_def)
  with t show ?thesis by blast
qed

lemma demo_plain: "plain_store demo_engine"
  by (auto simp: plain_store_def demo_engine_def demo_acts_def new_P_def invokeResolver_def Let_def
      alloc_def start_engine_def new_promise_def resolve.simps fulfill_def promise_then_def
      subscribe_def mark_handled_def)

lemma demo_quiet: "quiet 0 demo_script"
  by (auto simp: quiet_def demo_script_def)

theorem quiet_flush_returns_witness:
  "\<exists>t. flush_loop demo_script 1 demo_flushed = Some (Inr t) \<and> asyncQueue t = [] \<and> \<not> asyncTimer t"
proof (rule quiet_flush_returns [OF demo_flushing demo_quiet])
  show "plain_store demo_flushed"
    using quiet_job [OF _ demo_inv demo_quiet, of demo_flushed] demo_job demo_plain
    by (simp add: quiet_run_def demo_state plain_store_def del: run_job.simps)
qed

subsection \<open>Where the promises differ from the language's\<close>

text \<open>
  a promise that has been resolved with another pending promise is not locked in.  It stays
  pending, so a later call of either of its functions settles it and the promise it was told to
  follow is ignored; the promises of the language would follow it.
\<close>

theorem resolving_does_not_lock:
  assumes "q \<noteq> p" and "statusOf s p = PENDING"
  shows "statusOf (resolve p (VProm q) s) p = PENDING
    \<and> statusOf (reject p e (resolve p (VProm q) s)) p = SETTLED
    \<and> dataOf (reject p e (resolve p (VProm q) s)) p = e"
proof -
  have "statusOf (resolve p (VProm q) s) p = PENDING"
    using assms
    by (auto simp: resolve.simps new_flag_def promise_then_def subscribe_def mark_handled_def alloc_def Let_def)
  then show ?thesis by (simp add: reject_def)
qed

theorem resolving_does_not_lock_witness:
  "dataOf (reject 0 (VData ''no'') (resolve 0 (VProm 1) (start_engine False))) 0 = VData ''no''"
  using resolving_does_not_lock [of 1 0 "start_engine False" "VData ''no''"]
  by (simp add: start_engine_def new_promise_def)

text \<open>
  the reason of a rejection is adopted like a result.  When a promise was rejected with a
  promise as its reason and a subscriber has no function for rejections, the derived promise is
  not rejected: it stays pending and is subscribed to the reason, whose result it will take.
\<close>

theorem rejection_reason_followed:
  assumes "statusOf s (owner x) = REJECTED" and "dataOf s (owner x) = VProm q"
    and "rejected x = None" and "q \<noteq> target x" and "statusOf s (target x) = PENDING"
    and "statusOf s q = FULFILLED"
  shows "statusOf (invokeCallback script x s) (target x) = PENDING
    \<and> (\<exists>y. last (asyncQueue (invokeCallback script x s)) = InvokeCallback y \<and> owner y = q
        \<and> fulfilled y = Some (Adopt (target x) (next_flag s) (VProm q)))"
  using assms
  by (auto simp: invokeCallback_def settle_with_def new_flag_def promise_then_def subscribe_def
      mark_handled_def alloc_def Let_def)

definition demo_rejected :: engine where
  "demo_rejected = (start_engine False)\<lparr>promises := (\<lambda>p. new_promise\<lparr>
     status := [FULFILLED, REJECTED, PENDING] ! p, data := [VData ''icon'', VProm 0, VUndef] ! p\<rparr>)\<rparr>"

theorem rejection_reason_followed_witness:
  "statusOf (invokeCallback demo_script \<lparr>owner = 1, target = 2, fulfilled = None, rejected = None\<rparr> demo_rejected) 2 = PENDING"
  using rejection_reason_followed [of demo_rejected "\<lparr>owner = 1, target = 2, fulfilled = None, rejected = None\<rparr>" 0 demo_script]
  by (simp add: demo_rejected_def start_engine_def)

subsection \<open>Collecting results\<close>














end
