(* ===== verification/Fa_Api.thy ===== *)
theory Fa_Api
  imports Fa_Parse
begin

text \<open>
  \<^verbatim>\<open>web-admin/fontawesome/js/fontawesome.js\<close>, lines 1992-2338: the programming interface of the
  icons: the style sheet, the objects that stand for icons, texts, counters and layers, and
  switching the automatic replacement off.
\<close>

subsection \<open>State\<close>

text \<open>
  The registry with its configuration, the flag \<open>_cssInserted\<close>, the children of the head, the
  count of random draws, and the observer \<open>mo\<close> (null, or whether it is connected).
\<close>

record api_state =
  reg :: fa_state
  cssInserted :: bool
  headChildren :: "head_child list"
  draws :: nat
  mo :: "bool option"

subsection \<open>The style sheet\<close>

text \<open>
  \<open>s.replace(new RegExp(pat, 'g'), rep)\<close> for a pattern that is a plain non-empty text and a
  replacement without dollar signs.
\<close>

function replace_text :: "string \<Rightarrow> string \<Rightarrow> string \<Rightarrow> string" where
  "replace_text pat rep s = (if s = [] \<or> pat = [] then s
     else if starts_with pat s then rep @ replace_text pat rep (drop (length pat) s)
     else hd s # replace_text pat rep (tl s))"
  by pat_completeness auto
termination
  by (relation "measure (\<lambda>(pat, rep, s). length s)") auto

declare replace_text.simps [simp del]

text \<open>\<open>base\<close> is the text of the built-in style sheet (\<open>baseStyles\<close>).\<close>

definition css :: "string \<Rightarrow> fa_state \<Rightarrow> string" where
  "css base s =
     (let dfp = DEFAULT_FAMILY_PREFIX; drc = DEFAULT_REPLACEMENT_CLASS;
          fp = cfg ''familyPrefix'' s; rc = cfg ''replacementClass'' s
      in if fp \<noteq> Some (CStr dfp) \<or> rc \<noteq> Some (CStr drc)
         then replace_text (''.'' @ drc) (''.'' @ cval_text rc)
                (replace_text (''.'' @ dfp @ ''-'') (''.'' @ cval_text fp @ ''-'') base)
         else base)"

text \<open>\<open>dom.insertCss\<close>, and the insertion every rendering asks for.\<close>

definition dom_insertCss :: "string \<Rightarrow> api_state \<Rightarrow> api_state" where
  "dom_insertCss base s = (if \<not> cssInserted s
     then s\<lparr>headChildren := insertCss (is_dom (reg s)) (css base (reg s)) (headChildren s), cssInserted := True\<rparr>
     else s)"

definition ensureCss :: "string \<Rightarrow> api_state \<Rightarrow> api_state" where
  "ensureCss base s = (if truthy (cfg ''autoAddCss'' (reg s)) \<and> \<not> cssInserted s
     then s\<lparr>headChildren := insertCss (is_dom (reg s)) (css base (reg s)) (headChildren s), cssInserted := True\<rparr>
     else s)"

subsection \<open>Objects with an abstract tree\<close>

text \<open>
  What \<open>apiObject\<close> adds: \<open>abstract\<close> is a getter, so the creator runs at every access; \<open>html\<close> and
  \<open>node\<close> go through it.  \<open>container.innerHTML\<close> is assigned an array, which reads as its elements
  separated by commas; \<open>children\<close> are the elements among the nodes.
\<close>

type_synonym creator = "api_state \<Rightarrow> anode list \<times> api_state"

definition api_html :: "creator \<Rightarrow> api_state \<Rightarrow> string list \<times> api_state" where
  "api_html abstract s = (let (nodes, s1) = abstract s in (map toHtml nodes, s1))"

fun is_element :: "xml \<Rightarrow> bool" where
  "is_element (XElem tag as cs) = True"
| "is_element (XText t) = False"

definition api_node :: "creator \<Rightarrow> api_state \<Rightarrow> xml list option \<times> api_state" where
  "api_node abstract s = (if \<not> is_dom (reg s) then (None, s)
     else (let (html, s1) = api_html abstract s in
       (Some (filter is_element (case read_html (js_join '','' html) of None \<Rightarrow> [] | Some ns \<Rightarrow> ns)), s1)))"

subsection \<open>Icons\<close>

text \<open>A transform given by the page may leave fields out.\<close>

record transform_arg =
  a_size :: "jsnum option"
  a_x :: "jsnum option"
  a_y :: "jsnum option"
  a_rotate :: "jsnum option"
  a_flipX :: "bool option"
  a_flipY :: "bool option"

definition or_else :: "'a option \<Rightarrow> 'a \<Rightarrow> 'a" where
  "or_else m d = (case m of None \<Rightarrow> d | Some x \<Rightarrow> x)"

definition full_transform :: "transform_arg option \<Rightarrow> transform" where
  "full_transform arg = (case arg of None \<Rightarrow> meaninglessTransform
     | Some a \<Rightarrow> \<lparr>tsize = or_else (a_size a) (tsize meaninglessTransform),
         tx = or_else (a_x a) (tx meaninglessTransform), ty = or_else (a_y a) (ty meaninglessTransform),
         trotate = or_else (a_rotate a) (trotate meaninglessTransform),
         flipX = or_else (a_flipX a) (flipX meaninglessTransform),
         flipY = or_else (a_flipY a) (flipY meaninglessTransform)\<rparr>)"

text \<open>An icon asked for: a definition, or what to look up (nothing at all included).\<close>

datatype icon_arg = Definition icon_definition | Lookup "string option" "string option"

fun resolve_arg :: "icon_arg \<Rightarrow> fa_state \<Rightarrow> icon_definition option" where
  "resolve_arg (Definition d) s = Some d"
| "resolve_arg (Lookup prefix iconName) s = findIconDefinition prefix iconName s"

record icon_params =
  q_transform :: "transform_arg option"
  q_symbol :: symbol
  q_mask :: "icon_arg option"
  q_title :: "string option"
  q_classes :: "string list"
  q_attributes :: "aval obj"
  q_styles :: "string obj"

text \<open>\<open>resolveIcons\<close>: the icon and its mask are looked up, then \<open>next\<close> is called.\<close>

definition resolveIcons ::
  "(icon_definition option \<Rightarrow> icon_definition option \<Rightarrow> icon_params \<Rightarrow> 'a) \<Rightarrow> icon_arg \<Rightarrow> icon_params \<Rightarrow> fa_state \<Rightarrow> 'a"
where
  "resolveIcons continue arg params s =
     continue (resolve_arg arg s)
       (case q_mask params of None \<Rightarrow> None | Some m \<Rightarrow> resolve_arg m s) params"

text \<open>The accessibility attributes are written into the object of attributes that was passed.\<close>

definition a11y_attributes :: "fa_state \<Rightarrow> string option \<Rightarrow> (nat \<Rightarrow> nat) \<Rightarrow> nat \<Rightarrow> aval obj \<Rightarrow> aval obj \<times> nat" where
  "a11y_attributes s title draw k attributes =
     (if truthy (cfg ''autoA11y'' s) then
        (if given title then
           (let (u, k) = nextUniqueId draw k in
            (obj_set ''aria-labelledby''
               (AStr (cval_text (cfg ''replacementClass'' s) @ ''-title-'' @ u)) attributes, k))
         else (obj_set ''focusable'' (AStr ''false'') (obj_set ''aria-hidden'' (AStr ''true'') attributes), k))
      else (attributes, k))"

text \<open>The mask of an icon without one: its \<open>icon\<close> is an empty object, which is never read.\<close>

definition no_icon :: icon_val where
  "no_icon = \<lparr>found = False, vwidth = NaN, vheight = NaN, vicon = AText []\<rparr>"

definition icon_abstract ::
  "string \<Rightarrow> (nat \<Rightarrow> nat) \<Rightarrow> icon_definition \<Rightarrow> icon_definition option \<Rightarrow> icon_params \<Rightarrow> creator" where
  "icon_abstract base draw d msk params s0 =
     (let s = ensureCss base s0;
          (attributes, k) = a11y_attributes (reg s) (q_title params) draw (draws s) (q_attributes params);
          (nodes, k) = makeInlineSvgAbstract (reg s)
             \<lparr>p_main = prepIcon (def_icon d),
              p_mask = (case msk of Some m \<Rightarrow> prepIcon (def_icon m) | None \<Rightarrow> no_icon),
              p_prefix = Some (def_prefix d), p_iconName = Some (def_name d),
              p_transform = full_transform (q_transform params), p_symbol = q_symbol params,
              p_title = q_title params,
              p_extra = \<lparr>xclasses = q_classes params, xstyles = q_styles params, xattributes = attributes\<rparr>,
              p_watchable = False\<rparr> draw k
      in (nodes, s\<lparr>draws := k\<rparr>))"

text \<open>\<open>icon\<close>: nothing for an icon that cannot be found.\<close>

definition icon :: "string \<Rightarrow> (nat \<Rightarrow> nat) \<Rightarrow> icon_arg \<Rightarrow> icon_params \<Rightarrow> fa_state \<Rightarrow> creator option" where
  "icon base draw = resolveIcons (\<lambda>d msk params.
     map_option (\<lambda>d. icon_abstract base draw d msk params) d)"

subsection \<open>Texts, counters, layers\<close>

definition api_text :: "bool \<Rightarrow> string \<Rightarrow> string \<Rightarrow> icon_params \<Rightarrow> creator" where
  "api_text is_ie base content params s0 =
     (let s = ensureCss base s0 in
      (makeLayersTextAbstract is_ie content DimUndefined DimUndefined (full_transform (q_transform params))
         (q_title params)
         \<lparr>xclasses = (cval_text (cfg ''familyPrefix'' (reg s)) @ ''-layers-text'') # q_classes params,
          xstyles = q_styles params, xattributes = q_attributes params\<rparr> False, s))"

definition counter :: "string \<Rightarrow> string \<Rightarrow> icon_params \<Rightarrow> creator" where
  "counter base content params s0 =
     (let s = ensureCss base s0 in
      (makeLayersCounterAbstract content (q_title params)
         \<lparr>xclasses = (cval_text (cfg ''familyPrefix'' (reg s)) @ ''-layers-counter'') # q_classes params,
          xstyles = q_styles params, xattributes = q_attributes params\<rparr>, s))"

text \<open>
  The assembler of a layer calls back with one object or an array of objects; their trees are
  read in that order.
\<close>

fun assemble :: "creator list \<Rightarrow> anode list \<Rightarrow> api_state \<Rightarrow> anode list \<times> api_state" where
  "assemble [] children s = (children, s)"
| "assemble (a # as) children s = (let (nodes, s1) = a s in assemble as (children @ nodes) s1)"

definition layer :: "string \<Rightarrow> creator list list \<Rightarrow> creator" where
  "layer base calls s0 =
     (let s = ensureCss base s0; (children, s1) = assemble (concat calls) [] s in
      ([AElem ''span'' [(''class'', AStr (cval_text (cfg ''familyPrefix'' (reg s)) @ ''-layers''))] children], s1))"

subsection \<open>Switching off\<close>

definition disconnect :: "api_state \<Rightarrow> api_state" where
  "disconnect s = (case mo s of None \<Rightarrow> s | Some b \<Rightarrow> s\<lparr>mo := Some False\<rparr>)"

definition set_config :: "string \<Rightarrow> cval \<Rightarrow> api_state \<Rightarrow> api_state" where
  "set_config k v s = s\<lparr>reg := (reg s)\<lparr>config := obj_set k v (config (reg s))\<rparr>\<rparr>"

definition noAuto :: "api_state \<Rightarrow> api_state" where
  "noAuto s = disconnect (set_config ''observeMutations'' (CBool False)
     (set_config ''autoReplaceSvg'' (CBool False) s))"

subsection \<open>The markup of an object\<close>

fun with_commas :: "anode list \<Rightarrow> anode list" where
  "with_commas [] = []"
| "with_commas [a] = [a]"
| "with_commas (a # b # as) = a # AText '','' # with_commas (b # as)"

lemma html_with_commas: "js_join '','' (map toHtml as) = concat (map toHtml (with_commas as))"
proof -
  have c: "toHtml (AText '','') = '',''" by code_simp
  show ?thesis
  proof (induction as rule: with_commas.induct)
    case (3 a b as)
    then show ?case by (simp add: c del: toHtml.simps)
  qed simp_all
qed

lemma elements_with_commas:
  "\<forall>a \<in> set as. \<not> is_text a \<Longrightarrow> filter is_element (map to_xml (with_commas as)) = map to_xml as"
proof (induction as rule: with_commas.induct)
  case (2 a)
  then show ?case by (cases a) auto
next
  case (3 a b as)
  then show ?case by (cases a) auto
qed simp

lemma wf_with_commas: "\<forall>a \<in> set as. wf_anode a \<and> \<not> is_text a \<Longrightarrow>
  (\<forall>a \<in> set (with_commas as). wf_anode a) \<and> separated (with_commas as)"
proof (induction as rule: with_commas.induct)
  case (3 a b as)
  obtain c cs where "with_commas (b # as) = c # cs" "c = b" by (cases as) auto
  with 3 show ?case by auto
qed auto

lemma api_node_trees:
  assumes "creator s = (as, t)" and "is_dom (reg s)" and "\<forall>a \<in> set as. wf_anode a \<and> \<not> is_text a"
  shows "api_node creator s = (Some (map to_xml as), t)"
proof -
  have "read_html (concat (map toHtml (with_commas as))) = Some (map to_xml (with_commas as))"
    using wf_with_commas [OF assms(3)] by (intro read_html_list) auto
  then show ?thesis
    using assms by (simp add: api_node_def api_html_def html_with_commas elements_with_commas)
qed

lemma a11y_names: "wf_name ''aria-labelledby''" "wf_name ''aria-hidden''" "wf_name ''focusable''"
  by (simp_all add: wf_name_def name_char_def is_space_def)

text \<open>
  C22: The objects the interface returns carry their tree faithfully.  An icon that is found has
  an abstract tree of one element; its \<open>html\<close> is that element's markup, and the \<open>node\<close> parsed
  from it is exactly that element, for arbitrary titles, classes, styles and attribute values.
\<close>

theorem icon_object_node:
  assumes "icon base draw arg params (reg s) = Some creator" and "is_dom (reg s)"
    and "wf_attrs (q_attributes params)"
  shows "\<exists>a t. creator s = ([a], t) \<and> api_html creator s = ([toHtml a], t)
    \<and> api_node creator s = (Some [to_xml a], t)"
proof -
  obtain d msk where c: "creator = icon_abstract base draw d msk params"
    using assms(1) by (auto simp: icon_def resolveIcons_def)
  obtain attrs k where a: "a11y_attributes (reg (ensureCss base s)) (q_title params) draw
      (draws (ensureCss base s)) (q_attributes params) = (attrs, k)" by fastforce
  have w: "wf_attrs attrs"
    using a assms(3) by (auto simp: a11y_attributes_def a11y_names intro!: wf_attrs_set split: if_splits prod.splits)
  have "\<exists>a. fst (creator s) = [a] \<and> wf_icon a"
    unfolding c icon_abstract_def Let_def a prod.case
    using makeInlineSvgAbstract_wf [of "\<lparr>p_main = prepIcon (def_icon d),
        p_mask = (case msk of Some m \<Rightarrow> prepIcon (def_icon m) | None \<Rightarrow> no_icon),
        p_prefix = Some (def_prefix d), p_iconName = Some (def_name d),
        p_transform = full_transform (q_transform params), p_symbol = q_symbol params, p_title = q_title params,
        p_extra = \<lparr>xclasses = q_classes params, xstyles = q_styles params, xattributes = attrs\<rparr>,
        p_watchable = False\<rparr>" "reg (ensureCss base s)" draw k] w
    by (auto simp: prepIcon_def wf_path_icon no_icon_def split: option.splits prod.splits)
  then obtain a where ca: "fst (creator s) = [a]" "wf_icon a" by blast
  then obtain t where "creator s = ([a], t)" by (metis prod.collapse)
  with ca(2) assms(2) show ?thesis
    using api_node_trees [of creator s "[a]" t] by (auto simp: api_html_def wf_icon_def)
qed

definition demo_icon_params :: icon_params where
  "demo_icon_params = \<lparr>q_transform = None, q_symbol = NoSymbol, q_mask = None, q_title = Some ''a<b'',
     q_classes = [''w3-button''], q_attributes = [(''data-x'', AStr ''\"'')], q_styles = []\<rparr>"

definition demo_api :: api_state where
  "demo_api = \<lparr>reg = demo_reg, cssInserted = False, headChildren = [(Some ''TITLE'', [])], draws = 0, mo = None\<rparr>"

theorem icon_object_node_witness:
  "\<exists>a t creator. icon ''x'' (\<lambda>i. i) (Lookup (Some ''fas'') (Some ''cog'')) demo_icon_params demo_reg = Some creator
    \<and> api_node creator demo_api = (Some [to_xml a], t)"
proof -
  have "findIconDefinition (Some ''fas'') (Some ''cog'') demo_reg =
      Some \<lparr>def_prefix = ''fas'', def_name = ''cog'', def_icon = demo_icon ''f013''\<rparr>"
    by (simp add: findIconDefinition_def iconFromMapping_def demo_reg_def defineIcons_def Let_def
        register_icons_def demo_fa_def demo_pack_def normalize_icons_def get_or_empty_def put_style_def)
  then obtain creator where i: "icon ''x'' (\<lambda>i. i) (Lookup (Some ''fas'') (Some ''cog'')) demo_icon_params demo_reg = Some creator"
    by (simp add: icon_def resolveIcons_def demo_icon_params_def)
  have "is_dom demo_reg"
    by (simp add: demo_reg_def defineIcons_def Let_def register_icons_def demo_fa_def put_style_def)
  then show ?thesis
    using icon_object_node [of "''x''" "\<lambda>i. i" "Lookup (Some ''fas'') (Some ''cog'')" demo_icon_params demo_api creator] i
    by (fastforce simp: demo_api_def demo_icon_params_def svg_names wf_name_def name_char_def is_space_def)
qed

subsection \<open>One style sheet\<close>

text \<open>The objects the interface can make, layers of layers included.\<close>

inductive api_creator :: "string \<Rightarrow> creator \<Rightarrow> bool" for base where
  of_icon: "api_creator base (icon_abstract base draw d msk params)"
| of_text: "api_creator base (api_text is_ie base content params)"
| of_counter: "api_creator base (counter base content params)"
| of_layer: "(\<And>c. c \<in> set (concat calls) \<Longrightarrow> api_creator base c) \<Longrightarrow> api_creator base (layer base calls)"

inductive api_step :: "string \<Rightarrow> api_state \<Rightarrow> api_state \<Rightarrow> bool" for base where
  insert_css: "api_step base s (dom_insertCss base s)"
| make: "api_creator base c \<Longrightarrow> api_step base s (snd (c s))"
| switch_off: "api_step base s (noAuto s)"
| configure: "api_step base s (set_config k v s)"
| register: "api_step base s (s\<lparr>reg := r\<rparr>)"

definition sheet_step :: "string \<Rightarrow> api_state \<Rightarrow> api_state \<Rightarrow> bool" where
  "sheet_step base s t \<longleftrightarrow>
     (if cssInserted s then cssInserted t \<and> headChildren t = headChildren s
      else if cssInserted t then (\<exists>r. headChildren t = insertCss (is_dom r) (css base r) (headChildren s))
      else headChildren t = headChildren s)"

lemma sheet_step_trans: "sheet_step base s t \<Longrightarrow> sheet_step base t u \<Longrightarrow> sheet_step base s u"
  by (auto simp: sheet_step_def split: if_splits)

lemma sheet_step_css: "sheet_step base s (dom_insertCss base s)" "sheet_step base s (ensureCss base s)"
  by (auto simp: sheet_step_def dom_insertCss_def ensureCss_def)

lemma sheet_step_same: "cssInserted t = cssInserted s \<Longrightarrow> headChildren t = headChildren s \<Longrightarrow> sheet_step base s t"
  by (simp add: sheet_step_def)

lemma sheet_step_assemble:
  "\<forall>c \<in> set cs. \<forall>s. sheet_step base s (snd (c s)) \<Longrightarrow> sheet_step base s (snd (assemble cs ns s))"
proof (induction cs ns s rule: assemble.induct)
  case (2 a as ns s)
  obtain nodes s1 where a: "a s = (nodes, s1)" by fastforce
  have "sheet_step base s s1" using 2(2) a by (metis list.set_intros(1) snd_conv)
  with 2 a show ?case by (auto intro: sheet_step_trans)
qed (simp add: sheet_step_same)

lemma sheet_step_creator: "api_creator base c \<Longrightarrow> sheet_step base s (snd (c s))"
proof (induction arbitrary: s rule: api_creator.induct)
  case (of_icon draw d msk params)
  have "sheet_step base (ensureCss base s) (snd (icon_abstract base draw d msk params s))"
    by (rule sheet_step_same) (simp_all add: icon_abstract_def Let_def split: prod.splits)
  then show ?case by (rule sheet_step_trans [OF sheet_step_css(2)])
next
  case (of_layer calls)
  have "sheet_step base (ensureCss base s) (snd (assemble (concat calls) [] (ensureCss base s)))"
    using of_layer.IH by (intro sheet_step_assemble) blast
  then have "sheet_step base s (snd (assemble (concat calls) [] (ensureCss base s)))"
    by (rule sheet_step_trans [OF sheet_step_css(2)])
  then show ?case by (simp add: layer_def Let_def case_prod_beta)
qed (simp_all add: api_text_def counter_def Let_def sheet_step_css)

text \<open>
  The style sheet is inserted at most once, whatever the page asks for: any number of icons,
  texts, counters and (nested) layers, explicit insertions, changes of the configuration and of
  the registry leave the head as it was or with one style sheet inserted.
\<close>

theorem one_style_sheet:
  assumes "(api_step base)\<^sup>*\<^sup>* s t" and "\<not> cssInserted s"
  shows "if cssInserted t then \<exists>r. headChildren t = insertCss (is_dom r) (css base r) (headChildren s)
    else headChildren t = headChildren s"
proof -
  have step: "sheet_step base s t" if "api_step base s t" for s t
    using that
  proof cases
    case (make c)
    then show ?thesis by (simp add: sheet_step_creator)
  qed (auto simp: sheet_step_css noAuto_def disconnect_def set_config_def intro!: sheet_step_same split: option.splits)
  have "sheet_step base s t"
    using assms(1) by (induction rule: rtranclp_induct) (auto intro: sheet_step_same sheet_step_trans step)
  then show ?thesis using assms(2) by (simp add: sheet_step_def)
qed

theorem one_style_sheet_witness:
  "\<exists>r. headChildren (dom_insertCss ''x'' (dom_insertCss ''x'' demo_api)) = insertCss (is_dom r) (css ''x'' r) [(Some ''TITLE'', [])]"
proof -
  let ?t = "dom_insertCss ''x'' (dom_insertCss ''x'' demo_api)"
  have "(api_step ''x'')\<^sup>*\<^sup>* demo_api ?t"
    by (meson api_step.insert_css rtranclp.rtrancl_refl rtranclp.rtrancl_into_rtrancl)
  moreover have "cssInserted ?t" "\<not> cssInserted demo_api" "headChildren demo_api = [(Some ''TITLE'', [])]"
    by (simp_all add: dom_insertCss_def demo_api_def)
  ultimately show ?thesis using one_style_sheet by fastforce
qed

end
