(* ===== verification/Fa_Mutate.thy ===== *)
theory Fa_Mutate
  imports Fa_Api
begin

text \<open>
  \<^verbatim>\<open>web-admin/fontawesome/js/fontawesome.js\<close>, lines 1277-1359 and 1746-1889: turning the nodes
  of a page into icons: the mutators, the animation frame that applies them, the mutation of
  a node, and the passes over a tree or a node.
\<close>

subsection \<open>Nodes of the page\<close>

text \<open>
  A node with what the mutators read of it: its tag name, whether it has a parent, and its
  markup as the browser serialises it.
\<close>

record dom_node = pnode +
  tagName :: string
  hasParent :: bool
  outerHTML :: string
  innerHTML :: string

text \<open>
  What is at the place of a node afterwards: the node as it was; the markup it was replaced by
  (directly, or through a temporary span); the node with new attributes and contents.
\<close>

datatype place = Kept | Outer string | Spanned string | Inner "string obj" string

type_synonym mutation = "dom_node \<times> anode list"

definition isWatched :: "string obj \<Rightarrow> bool" where
  "isWatched attributes \<longleftrightarrow> obj_get attributes DATA_FA_I2SVG \<noteq> None"

subsection \<open>Mutators\<close>

definition markup :: "anode list \<Rightarrow> string" where
  "markup abstract = js_join [CHR 0x0A] (map toHtml abstract)"

definition replace :: "fa_state \<Rightarrow> mutation \<Rightarrow> place" where
  "replace s = (\<lambda>(node, abstract).
     let newOuterHTML = markup abstract in
     if hasParent node \<and> outerHTML node \<noteq> [] then
       Outer (newOuterHTML @ (if truthy (cfg ''keepOriginalSource'' s) \<and> to_lower (tagName node) \<noteq> ''svg''
         then ''<!-- '' @ outerHTML node @ '' -->'' else []))
     else if hasParent node then Spanned newOuterHTML
     else Kept)"

text \<open>
  \<open>nest\<close> keeps the node and puts the icon into it.  The classes of the icon are shared out: those
  with the family prefix (anywhere: the pattern is not anchored) and the replacement class go to
  the icon.  A tree whose root has no class attribute makes it throw.
\<close>

definition for_svg :: "fa_state \<Rightarrow> string \<Rightarrow> bool" where
  "for_svg s cls \<longleftrightarrow> Some (CStr cls) = cfg ''replacementClass'' s \<or>
     0 \<le> index_of (cval_text (cfg ''familyPrefix'' s) @ ''-'') cls"

definition set_class :: "string \<Rightarrow> aval obj \<Rightarrow> aval obj" where
  "set_class cls attributes = obj_set ''class'' (AStr cls) attributes"

definition nest :: "fa_state \<Rightarrow> mutation \<Rightarrow> js_error + place" where
  "nest s = (\<lambda>(node, abstract).
     if (case cfg ''replacementClass'' s of Some (CStr c) \<Rightarrow> c \<in> set (node_classes (pnode.truncate node)) | _ \<Rightarrow> False)
     then Inr (replace s (node, abstract))
     else (case abstract of
         AElem tag attributes children # rest \<Rightarrow>
           (let attributes = filter (\<lambda>(k, v). k \<noteq> ''style'') attributes in
            case obj_get attributes ''class'' of
              None \<Rightarrow> Inl TypeError
            | Some cls \<Rightarrow>
               (let classes = split_on CHR '' '' (aval_text cls);
                    toSvg = filter (for_svg s) classes; toNode = filter (\<lambda>c. \<not> for_svg s c) classes;
                    newInnerHTML = markup (AElem tag (set_class (js_join '' '' toSvg) attributes) children # rest)
                in Inr (Inner (obj_set DATA_FA_I2SVG [] (obj_set ''class'' (js_join '' '' toNode) (nattrs node)))
                     newInnerHTML)))
       | _ \<Rightarrow> Inl TypeError))"

definition getMutator :: "fa_state \<Rightarrow> mutation \<Rightarrow> js_error + place" where
  "getMutator s = (if cfg ''autoReplaceSvg'' s = Some (CStr ''nest'') then nest s
     else (\<lambda>m. Inr (replace s m)))"

subsection \<open>Frames\<close>

text \<open>
  The page: the classes of the root element, the frames that were asked for, what has been
  applied to nodes (in order), the exceptions of the mutators (nobody catches them in a frame; a
  browser without frames turns them into a rejected promise), how often a pass over a tree
  completed, and the count of random draws.  A frame ends with the completion of the pass it
  belongs to, or with nothing.
\<close>

datatype completion = TreeDone | NodeDone

record page =
  htmlClasses :: "string list"
  frames :: "(mutation list \<times> completion) list"
  placed :: "(dom_node \<times> place) list"
  raised :: "js_error list"
  completed :: nat
  drawn :: nat

definition hclAdd :: "string \<Rightarrow> page \<Rightarrow> page" where
  "hclAdd suffix pg = (let c = HTML_CLASS_I2SVG_BASE_CLASS @ ''-'' @ suffix in
     if c \<in> set (htmlClasses pg) then pg else pg\<lparr>htmlClasses := htmlClasses pg @ [c]\<rparr>)"

definition hclRemove :: "string \<Rightarrow> page \<Rightarrow> page" where
  "hclRemove suffix pg = (let c = HTML_CLASS_I2SVG_BASE_CLASS @ ''-'' @ suffix in
     pg\<lparr>htmlClasses := filter (\<lambda>x. x \<noteq> c) (htmlClasses pg)\<rparr>)"

fun finish :: "completion \<Rightarrow> page \<Rightarrow> page" where
  "finish TreeDone pg = (hclRemove ''pending'' (hclAdd ''complete'' (hclAdd ''active'' pg)))
     \<lparr>completed := completed pg + 1\<rparr>"
| "finish NodeDone pg = pg"

fun apply_mutations :: "(mutation \<Rightarrow> js_error + place) \<Rightarrow> mutation list \<Rightarrow> page \<Rightarrow> js_error option \<times> page" where
  "apply_mutations mutator [] pg = (None, pg)"
| "apply_mutations mutator (m # ms) pg = (case mutator m of
     Inl e \<Rightarrow> (Some e, pg)
   | Inr pl \<Rightarrow> apply_mutations mutator ms (pg\<lparr>placed := placed pg @ [(fst m, pl)]\<rparr>))"

text \<open>The function given to \<open>requestAnimationFrame\<close>.\<close>

definition run_frame :: "fa_state \<Rightarrow> mutation list \<times> completion \<Rightarrow> page \<Rightarrow> page" where
  "run_frame s = (\<lambda>(ms, done) pg. case apply_mutations (getMutator s) ms pg of
     (None, pg1) \<Rightarrow> finish done pg1
   | (Some e, pg1) \<Rightarrow> pg1\<lparr>raised := raised pg1 @ [e]\<rparr>)"

definition perform :: "bool \<Rightarrow> fa_state \<Rightarrow> mutation list \<Rightarrow> completion \<Rightarrow> page \<Rightarrow> page" where
  "perform has_frames s ms done pg =
     (if ms = [] then finish done pg
      else if has_frames then pg\<lparr>frames := frames pg @ [(ms, done)]\<rparr>
      else run_frame s (ms, done) pg)"


subsection \<open>The mutation of a node\<close>

text \<open>
  The promise of a mutation: it is fulfilled with the mutation of a text, or with that of an icon
  once the two icons it waits for have arrived, or it never settles, because a rejection of
  \<open>findIcon\<close> ends in the inner promise, which nobody looks at.
\<close>

datatype promised = Settled mutation | Icons dom_node meta icon_val icon_val | Stuck

definition generateSvgReplacementMutation :: "fa_state \<Rightarrow> dom_node \<Rightarrow> meta \<Rightarrow> promised" where
  "generateSvgReplacementMutation s node nodeMeta =
     (let msk = or_else (m_mask nodeMeta) emptyCanonicalIcon in
      case findIcon s (m_iconName nodeMeta) (m_prefix nodeMeta) of
        Inl e \<Rightarrow> Stuck
      | Inr main \<Rightarrow> (case findIcon s (cname msk) (cprefix msk) of
           Inl e \<Rightarrow> Stuck | Inr m \<Rightarrow> Icons node nodeMeta main m))"

text \<open>The callback of \<open>picked.all\<close>.\<close>

definition svg_mutation :: "fa_state \<Rightarrow> (nat \<Rightarrow> nat) \<Rightarrow> dom_node \<Rightarrow> meta \<Rightarrow> icon_val \<Rightarrow> icon_val \<Rightarrow> nat \<Rightarrow> mutation \<times> nat" where
  "svg_mutation s draw node nodeMeta main msk k =
     (let (abstract, k) = makeInlineSvgAbstract s
        \<lparr>p_main = main, p_mask = msk, p_prefix = m_prefix nodeMeta, p_iconName = m_iconName nodeMeta,
         p_transform = m_transform nodeMeta, p_symbol = m_symbol nodeMeta, p_title = m_title nodeMeta,
         p_extra = m_extra nodeMeta, p_watchable = True\<rparr> draw k
      in ((node, abstract), k))"

text \<open>
  A text: the sizes are measured in Internet Explorer only (\<open>ie_size\<close> is the pair of quotients
  it computes).
\<close>

definition generateLayersText :: "fa_state \<Rightarrow> (dom_node \<Rightarrow> dim \<times> dim) option \<Rightarrow> dom_node \<Rightarrow> meta \<Rightarrow> promised" where
  "generateLayersText s ie_size node nodeMeta =
     (let (width, height) = (case ie_size of None \<Rightarrow> (DimNull, DimNull) | Some f \<Rightarrow> f node);
          extra = (if truthy (cfg ''autoA11y'' s) \<and> \<not> given (m_title nodeMeta)
            then (m_extra nodeMeta)\<lparr>xattributes := obj_set ''aria-hidden'' (AStr ''true'') (xattributes (m_extra nodeMeta))\<rparr>
            else m_extra nodeMeta)
      in Settled (node, makeLayersTextAbstract (ie_size \<noteq> None) (innerHTML node) width height
           (m_transform nodeMeta) (m_title nodeMeta) extra True))"

definition generateMutation ::
  "fa_state \<Rightarrow> (dom_node \<Rightarrow> dim \<times> dim) option \<Rightarrow> (nat \<Rightarrow> nat) \<Rightarrow> dom_node \<Rightarrow> nat \<Rightarrow> js_error + promised \<times> nat" where
  "generateMutation s ie_size draw node k =
     js_bind (parseMeta s (pnode.truncate node) draw k) (\<lambda>(nodeMeta, k). Inr
       (if LAYERS_TEXT_CLASSNAME \<in> set (xclasses (m_extra nodeMeta))
        then generateLayersText s ie_size node nodeMeta
        else generateSvgReplacementMutation s node nodeMeta, k))"

subsection \<open>Passes\<close>

definition svg_prefixes :: "fa_state \<Rightarrow> string list" where
  "svg_prefixes s = (if truthy (cfg ''autoFetchSvg'' s) then obj_keys PREFIX_TO_STYLE else obj_keys (styles s))"

text \<open>The selector built from the prefixes, on the classes of a node.\<close>

definition is_candidate :: "fa_state \<Rightarrow> dom_node \<Rightarrow> bool" where
  "is_candidate s node \<longleftrightarrow> obj_get (nattrs node) DATA_FA_I2SVG = None \<and>
     (\<exists>c \<in> set (LAYERS_TEXT_CLASSNAME # svg_prefixes s). c \<in> set (node_classes (pnode.truncate node)))"

text \<open>
  The reduction over the candidates: a node whose parsers throw is left out (its draws of random
  numbers are not taken back, but none precede the throw).
\<close>

fun generate_all ::
  "fa_state \<Rightarrow> (dom_node \<Rightarrow> dim \<times> dim) option \<Rightarrow> (nat \<Rightarrow> nat) \<Rightarrow> dom_node list \<Rightarrow> nat \<Rightarrow> promised list \<times> nat" where
  "generate_all s ie_size draw [] k = ([], k)"
| "generate_all s ie_size draw (n # ns) k = (case generateMutation s ie_size draw n k of
     Inl e \<Rightarrow> generate_all s ie_size draw ns k
   | Inr (p, k1) \<Rightarrow> (let (ps, k2) = generate_all s ie_size draw ns k1 in (p # ps, k2)))"

text \<open>\<open>picked.all\<close> of the promises: their values in order, or nothing as long as one is pending.\<close>

fun await_all :: "fa_state \<Rightarrow> (nat \<Rightarrow> nat) \<Rightarrow> promised list \<Rightarrow> nat \<Rightarrow> mutation list \<times> nat" where
  "await_all s draw [] k = ([], k)"
| "await_all s draw (Settled m # ps) k = (let (ms, k1) = await_all s draw ps k in (m # ms, k1))"
| "await_all s draw (Icons n me main msk # ps) k =
     (let (m, k1) = svg_mutation s draw n me main msk k; (ms, k2) = await_all s draw ps k1 in (m # ms, k2))"
| "await_all s draw (Stuck # ps) k = await_all s draw ps k"

definition onTree ::
  "bool \<Rightarrow> fa_state \<Rightarrow> (dom_node \<Rightarrow> dim \<times> dim) option \<Rightarrow> (nat \<Rightarrow> nat) \<Rightarrow> dom_node list \<Rightarrow> page \<Rightarrow> page" where
  "onTree has_frames s ie_size draw descendants pg =
     (if \<not> is_dom s then pg
      else (let candidates = filter (is_candidate s) descendants in
        if candidates = [] then pg
        else (let pg1 = hclRemove ''complete'' (hclAdd ''pending'' pg);
                  (ps, k) = generate_all s ie_size draw candidates (drawn pg1);
                  (ms, k1) = await_all s draw ps k;
                  pg2 = pg1\<lparr>drawn := k1\<rparr>
              in if Stuck \<in> set ps then pg2 else perform has_frames s ms TreeDone pg2)))"

definition onNode ::
  "bool \<Rightarrow> fa_state \<Rightarrow> (dom_node \<Rightarrow> dim \<times> dim) option \<Rightarrow> (nat \<Rightarrow> nat) \<Rightarrow> dom_node \<Rightarrow> page \<Rightarrow> js_error + page" where
  "onNode has_frames s ie_size draw node pg =
     js_bind (generateMutation s ie_size draw node (drawn pg)) (\<lambda>(p, k).
       let (ms, k1) = await_all s draw [p] k; pg1 = pg\<lparr>drawn := k1\<rparr>
       in Inr (if ms = [] then pg1 else perform has_frames s ms NodeDone pg1))"

subsection \<open>A pass over a tree\<close>










definition html_class :: "string \<Rightarrow> string" where
  "html_class suffix = HTML_CLASS_I2SVG_BASE_CLASS @ ''-'' @ suffix"

lemma html_class_inject: "html_class c = html_class d \<longleftrightarrow> c = d"
  by (simp add: html_class_def)

lemma page_classes:
  "set (htmlClasses (hclAdd c pg)) = insert (html_class c) (set (htmlClasses pg))"
  "set (htmlClasses (hclRemove c pg)) = set (htmlClasses pg) - {html_class c}"
  "frames (hclAdd c pg) = frames pg" "frames (hclRemove c pg) = frames pg"
  "placed (hclAdd c pg) = placed pg" "placed (hclRemove c pg) = placed pg"
  "raised (hclAdd c pg) = raised pg" "raised (hclRemove c pg) = raised pg"
  "completed (hclAdd c pg) = completed pg" "completed (hclRemove c pg) = completed pg"
  unfolding html_class_def by (auto simp: hclAdd_def hclRemove_def Let_def)



definition demo_node :: dom_node where
  "demo_node = \<lparr>nattrs = [(''class'', ''fas fa-cog'')], has_classList = True, innerText = Some [],
     tagName = ''I'', hasParent = True, outerHTML = ''<i class=\"fas fa-cog\"></i>'', innerHTML = []\<rparr>"

definition demo_page :: page where
  "demo_page = \<lparr>htmlClasses = [], frames = [], placed = [], raised = [], completed = 0, drawn = 0\<rparr>"


lemma demo_reg_dom: "is_dom demo_reg"
  by (simp add: demo_reg_def defineIcons_def Let_def register_icons_def demo_fa_def put_style_def)


text \<open>
  C34: One missing icon blocks a whole pass.  When missing icons are not shown and one candidate
  asks for an icon that no pack has, the promise of that candidate never settles: nothing on the
  page is replaced, no frame is asked for, the pass never completes, and the root element stays
  marked as pending.
\<close>

theorem missing_icon_blocks_pass:
  assumes "is_dom s" and "n \<in> set descendants" and "is_candidate s n"
    and "classParser s (pnode.truncate n) = Inr c" and "LAYERS_TEXT_CLASSNAME \<notin> set (crest c)"
    and "findIcon s (cname c) (cprefix c) = Inl e"
    and "pg' = onTree has_frames s ie_size draw descendants pg"
  shows "placed pg' = placed pg \<and> frames pg' = frames pg \<and> completed pg' = completed pg
    \<and> html_class ''pending'' \<in> set (htmlClasses pg') \<and> html_class ''complete'' \<notin> set (htmlClasses pg')"
proof -
  have stuck: "\<exists>k1. generateMutation s ie_size draw n k = Inr (Stuck, k1)" for k
    using assms(4-6)
    by (cases "attributesParser s (pnode.truncate n) draw k")
      (auto simp: generateMutation_def parseMeta_def Let_def generateSvgReplacementMutation_def)
  have "n \<in> set ns \<Longrightarrow> Stuck \<in> set (fst (generate_all s ie_size draw ns k))" for ns k
  proof (induction ns arbitrary: k)
    case (Cons m ns)
    then show ?case using stuck [of k] by (auto split: sum.splits prod.splits) (metis fst_conv)+
  qed simp
  moreover have "n \<in> set (filter (is_candidate s) descendants)" using assms(2,3) by simp
  ultimately have "Stuck \<in> set (fst (generate_all s ie_size draw (filter (is_candidate s) descendants) k))" for k
    by blast
  moreover have "filter (is_candidate s) descendants \<noteq> []" using assms(2,3) by (auto simp: filter_empty_conv)
  ultimately obtain k1 where "pg' = (hclRemove ''complete'' (hclAdd ''pending'' pg))\<lparr>drawn := k1\<rparr>"
    using assms(1,7) by (auto simp: onTree_def Let_def split: prod.splits) (metis fst_conv)
  then show ?thesis by (simp add: page_classes html_class_inject)
qed

definition strict_reg :: fa_state where
  "strict_reg = demo_reg\<lparr>config := obj_set ''showMissingIcons'' (CBool False) default_config\<rparr>"

definition gone_node :: dom_node where
  "gone_node = demo_node\<lparr>nattrs := [(''class'', ''fas fa-gone'')]\<rparr>"

lemma gone_classes: "node_classes (pnode.truncate gone_node) = [''fas'', ''fa-gone'']"
  by code_simp

lemma strict_reg_simps:
  "styles strict_reg = styles demo_reg" "is_dom strict_reg"
  "cfg ''showMissingIcons'' strict_reg = Some (CBool False)"
  "cfg ''familyPrefix'' strict_reg = Some (CStr ''fa'')" "cfg ''autoFetchSvg'' strict_reg = cfg ''autoFetchSvg'' demo_reg"
  using demo_reg_dom by (simp_all add: strict_reg_def default_config_def DEFAULT_FAMILY_PREFIX_def demo_reg_simps)

lemma gone_node_meta:
  "is_candidate strict_reg gone_node"
  "classParser strict_reg (pnode.truncate gone_node) = Inr \<lparr>cprefix = Some ''fas'', cname = Some ''gone'', crest = []\<rparr>"
proof -
  show "is_candidate strict_reg gone_node"
    unfolding is_candidate_def gone_classes svg_prefixes_def strict_reg_simps
    by (simp add: demo_reg_simps gone_node_def DATA_FA_I2SVG_def default_config_def)
  have p: "is_prefix_class strict_reg ''fas''" "\<not> is_prefix_class strict_reg ''fa-gone''"
    by (simp_all add: is_prefix_class_def strict_reg_simps demo_reg_simps)
  have n: "getIconName (Some (CStr ''fa'')) ''fa-gone'' = Some ''gone''" by code_simp
  have "getCanonicalIcon strict_reg (node_classes (pnode.truncate gone_node)) =
      \<lparr>cprefix = Some ''fas'', cname = Some ''gone'', crest = []\<rparr>"
    unfolding gone_classes getCanonicalIcon_def
    by (simp add: canonical_step_def p n strict_reg_simps emptyCanonicalIcon_def)
  moreover have "length (trim_units []) = 0" by (simp add: trim_units_def)
  ultimately show "classParser strict_reg (pnode.truncate gone_node) =
      Inr \<lparr>cprefix = Some ''fas'', cname = Some ''gone'', crest = []\<rparr>"
    by (simp add: classParser_def Let_def given_def gone_node_def demo_node_def pnode.truncate_def)
qed

theorem missing_icon_blocks_pass_witness:
  "placed (onTree True strict_reg None (\<lambda>i. i) [demo_node, gone_node] demo_page) = []"
proof -
  have "findIcon strict_reg (Some ''gone'') (Some ''fas'') =
      Inl (RuntimeError ''Icon is missing for prefix fas with icon name gone'')"
    by (simp add: findIcon_def Let_def given_def strict_reg_simps demo_reg_simps)
  then have "placed (onTree True strict_reg None (\<lambda>i. i) [demo_node, gone_node] demo_page) = placed demo_page"
    by (intro missing_icon_blocks_pass [OF strict_reg_simps(2) _ gone_node_meta _ _ refl, THEN conjunct1]) simp_all
  then show ?thesis by (simp add: demo_page_def)
qed

lemma layer_names: "wf_name ''title''" "wf_name ''class''" "wf_name ''style''" "wf_name DATA_FA_I2SVG"
  by (simp_all add: svg_names DATA_FA_I2SVG_def wf_name_def name_char_def is_space_def)

lemma layer_attributes_wf: "wf_attrs (xattributes x) \<Longrightarrow> wf_attrs (layer_attributes t x)"
  by (auto simp: layer_attributes_def layer_names intro!: wf_attrs_spread wf_attrs_set)

lemma makeLayersTextAbstract_head:
  assumes "wf_attrs (xattributes x)"
  shows "\<exists>as. makeLayersTextAbstract is_ie content width height t title x watchable =
      AElem ''span'' as [AText content] # title_span title \<and> wf_attrs as"
  using layer_attributes_wf [OF assms, of title]
  by (simp add: makeLayersTextAbstract_def Let_def wf_attrs_set layer_names)

text \<open>
  A layers text shows the markup of its node.  What is put into the replacement is
  \<open>innerHTML\<close>, which is markup already, and serialising it escapes it once more: the element that
  comes out holds, as one text, the source of what the node contained (an ampersand is shown
  as the entity that stands for it, a nested tag as its tags).
\<close>

theorem layers_text_shows_markup:
  assumes "wf_attrs (xattributes (m_extra nodeMeta))" and "innerHTML node \<noteq> []"
  shows "\<exists>a rest as. generateLayersText s ie_size node nodeMeta = Settled (node, a # rest)
    \<and> read_html (toHtml a) = Some [XElem ''span'' as [XText (innerHTML node)]]"
proof -
  obtain width height where g: "(case ie_size of None \<Rightarrow> (DimNull, DimNull) | Some f \<Rightarrow> f node) = (width, height)"
    by fastforce
  define x where "x = (if truthy (cfg ''autoA11y'' s) \<and> \<not> given (m_title nodeMeta)
    then (m_extra nodeMeta)\<lparr>xattributes := obj_set ''aria-hidden'' (AStr ''true'') (xattributes (m_extra nodeMeta))\<rparr>
    else m_extra nodeMeta)"
  have "wf_attrs (xattributes x)" using assms(1) by (simp add: x_def wf_attrs_set a11y_names)
  then obtain as where as: "makeLayersTextAbstract (ie_size \<noteq> None) (innerHTML node) width height
      (m_transform nodeMeta) (m_title nodeMeta) x True = AElem ''span'' as [AText (innerHTML node)] # title_span (m_title nodeMeta)"
    "wf_attrs as" using makeLayersTextAbstract_head by blast
  have "wf_anode (AElem ''span'' as [AText (innerHTML node)])"
    using as(2) assms(2) by (simp add: svg_names wf_attrs_iff)
  then have "read_html (toHtml (AElem ''span'' as [AText (innerHTML node)])) =
      Some [to_xml (AElem ''span'' as [AText (innerHTML node)])]" by (rule read_toHtml)
  moreover have "generateLayersText s ie_size node nodeMeta =
      Settled (node, AElem ''span'' as [AText (innerHTML node)] # title_span (m_title nodeMeta))"
    unfolding generateLayersText_def Let_def g prod.case x_def [symmetric] as(1) ..
  ultimately show ?thesis by (auto simp del: toHtml.simps)
qed

definition text_node :: dom_node where
  "text_node = demo_node\<lparr>nattrs := [(''class'', ''fa-layers-text'')], innerHTML := ''AT&amp;T''\<rparr>"

theorem layers_text_shows_markup_witness:
  "\<exists>a rest as. generateLayersText demo_reg None text_node blankMeta = Settled (text_node, a # rest)
    \<and> read_html (toHtml a) = Some [XElem ''span'' as [XText ''AT&amp;T'']]"
  using layers_text_shows_markup [of blankMeta text_node demo_reg None] by (simp add: text_node_def blankMeta_def)

end
