(* ===== verification/Fa_Observe.thy ===== *)
theory Fa_Observe
  imports Fa_Mutate
begin

text \<open>
  \<^verbatim>\<open>web-admin/fontawesome/js/fontawesome.js\<close>, lines 1368-1418 and 1891-1989: the observer of the page,
  and the search for pseudo-elements that show an icon of the font, with their replacement by
  svg elements.
\<close>

subsection \<open>The observer\<close>

text \<open>
  A mutation record, with what the observer reads of its target when it is delivered.  The added
  nodes are given by their attributes (a text has none).
\<close>

datatype mutation_record = ChildList "string obj list" | Attributes string pnode bool

text \<open>
  What the observer does: search the pseudo-elements of the target or of its parent, pass over
  the target as a tree or as a node, write an attribute of the target.
\<close>

datatype reaction = SearchTarget | SearchParent | PassTree | PassNode | WriteAttribute string string

definition write_given :: "string \<Rightarrow> string option \<Rightarrow> reaction list" where
  "write_given k v = (if given v then [WriteAttribute k (the v)] else [])"

fun on_record :: "fa_state \<Rightarrow> mutation_record \<Rightarrow> reaction list" where
  "on_record s (ChildList addedNodes) = (case addedNodes of
     [] \<Rightarrow> []
   | node # nodes \<Rightarrow> if isWatched node then []
       else (if truthy (cfg ''searchPseudoElements'' s) then [SearchTarget] else []) @ [PassTree])"
| "on_record s (Attributes attributeName target parentNode) =
     (if parentNode \<and> truthy (cfg ''searchPseudoElements'' s) then [SearchParent] else []) @
     (if isWatched (nattrs target) \<and> attributeName \<in> set ATTRIBUTES_WATCHED_FOR_MUTATION then
        (if attributeName = ''class'' then (let c = getCanonicalIcon s (node_classes target) in
           write_given ''data-prefix'' (cprefix c) @ write_given ''data-icon'' (cname c))
         else [PassNode])
      else [])"

definition observer_callback :: "fa_state \<Rightarrow> bool \<Rightarrow> mutation_record list \<Rightarrow> reaction list" where
  "observer_callback s disabled objects = (if disabled then [] else concat (map (on_record s) objects))"

text \<open>The observer is made, and set to work, when mutations are to be observed.\<close>

definition observe :: "bool \<Rightarrow> api_state \<Rightarrow> api_state" where
  "observe has_observer s =
     (if \<not> has_observer \<or> \<not> truthy (cfg ''observeMutations'' (reg s)) then s
      else s\<lparr>mo := Some (is_dom (reg s))\<rparr>)"

subsection \<open>Pseudo-elements\<close>

datatype position = Before | After

fun position_text :: "position \<Rightarrow> string" where
  "position_text Before = '':before''"
| "position_text After = '':after''"

text \<open>The computed style of a pseudo-element; \<open>content\<close> is a text of UTF-16 code units.\<close>

record pseudo_style =
  font_family :: string
  font_weight :: string
  content :: "16 word list"

text \<open>
  A node whose pseudo-elements are looked at: its tag, attributes, children, the tag of its
  parent and whether that is the head of the document.
\<close>

record host =
  h_tag :: string
  h_attrs :: "string obj"
  h_kids :: "xml list"
  h_parent :: "string option"
  h_in_head :: bool

fun kid_attr :: "string \<Rightarrow> xml \<Rightarrow> string option" where
  "kid_attr k (XElem tag as cs) = obj_get as k"
| "kid_attr k (XText t) = None"

text \<open>The pattern \<open>/Font Awesome 5 (Solid|Regular|Light|Brands|Free|Pro)/\<close>: the group of the first match.\<close>

fun font_match :: "string \<Rightarrow> string option" where
  "font_match [] = None"
| "font_match (c # cs) = (case (if starts_with ''Font Awesome 5 '' (c # cs)
     then find (\<lambda>f. starts_with f (drop 15 (c # cs))) [''Solid'', ''Regular'', ''Light'', ''Brands'', ''Free'', ''Pro'']
     else None) of None \<Rightarrow> font_match cs | Some f \<Rightarrow> Some f)"

definition pseudo_prefix :: "string \<Rightarrow> string \<Rightarrow> string option" where
  "pseudo_prefix family weight = (if family \<in> {''Light'', ''Regular'', ''Solid'', ''Brands''}
     then obj_get STYLE_TO_PREFIX (to_lower family) else obj_get FONT_WEIGHT_TO_PREFIX weight)"

text \<open>The icon of a style; a weight without a prefix looks for the table of the name \<open>undefined\<close>.\<close>

definition pseudo_icon :: "fa_state \<Rightarrow> string option \<Rightarrow> 16 word list \<Rightarrow> js_error + string option" where
  "pseudo_icon s prefix code = byUnicode s (or_else prefix ''undefined'')
     (toHex (if length code = 3 then take 1 (drop 1 code) else code))"

definition pendingAttribute :: "position \<Rightarrow> string" where
  "pendingAttribute position = DATA_FA_PSEUDO_ELEMENT_PENDING @ ''-'' @ tl (position_text position)"

text \<open>
  How far the promise of a replacement has got when its executor returns: it is settled, or waits
  for the icon to be delivered.
\<close>

datatype replacement = Resolved | Rejected js_error | Awaiting "string option" "string option" icon_val

definition processed :: "position \<Rightarrow> xml list \<Rightarrow> xml option" where
  "processed position kids = find (\<lambda>c. kid_attr DATA_FA_PSEUDO_ELEMENT c = Some (position_text position)) kids"

definition remove_kid :: "xml option \<Rightarrow> xml list \<Rightarrow> xml list" where
  "remove_kid old kids = (case old of None \<Rightarrow> kids | Some c \<Rightarrow> remove1 c kids)"

text \<open>Whether the element is there already: an unknown name or prefix is never equal to an attribute.\<close>

definition already_shows :: "string option \<Rightarrow> string option \<Rightarrow> xml option \<Rightarrow> bool" where
  "already_shows prefix iconName old \<longleftrightarrow> (case old of None \<Rightarrow> False
     | Some c \<Rightarrow> prefix \<noteq> None \<and> kid_attr ''data-prefix'' c = prefix \<and> iconName \<noteq> None \<and> kid_attr ''data-icon'' c = iconName)"

definition replaceForPosition :: "fa_state \<Rightarrow> (position \<Rightarrow> pseudo_style) \<Rightarrow> position \<Rightarrow> host \<Rightarrow> host \<times> replacement" where
  "replaceForPosition s look position node =
     (if obj_get (h_attrs node) (pendingAttribute position) \<noteq> None then (node, Resolved)
      else (let old = processed position (h_kids node) in
        case font_match (font_family (look position)) of
          None \<Rightarrow> (node\<lparr>h_kids := remove_kid old (h_kids node)\<rparr>, Resolved)
        | Some family \<Rightarrow>
           (let prefix = pseudo_prefix family (font_weight (look position)) in
            case pseudo_icon s prefix (content (look position)) of
              Inl e \<Rightarrow> (node, Rejected e)
            | Inr iconName \<Rightarrow>
               if already_shows prefix iconName old then (node, Resolved)
               else (let node1 = node\<lparr>h_attrs := obj_set (pendingAttribute position) (or_else iconName ''undefined'') (h_attrs node),
                        h_kids := remove_kid old (h_kids node)\<rparr> in
                 case findIcon s iconName prefix of
                   Inl e \<Rightarrow> (node1, Rejected e)
                 | Inr main \<Rightarrow> (node1, Awaiting prefix iconName main)))))"

text \<open>
  The callback that receives the icon.  An unknown name is \<open>undefined\<close> here, and so is its
  \<open>data-icon\<close>.
\<close>

definition pseudo_params :: "position \<Rightarrow> string option \<Rightarrow> string option \<Rightarrow> icon_val \<Rightarrow> svg_params" where
  "pseudo_params position prefix iconName main =
     \<lparr>p_main = main, p_mask = no_icon, p_prefix = Some (or_else prefix ''undefined''),
      p_iconName = iconName, p_transform = meaninglessTransform, p_symbol = NoSymbol, p_title = None,
      p_extra = (m_extra blankMeta)\<lparr>xattributes := [(DATA_FA_PSEUDO_ELEMENT, AStr (position_text position))]\<rparr>,
      p_watchable = True\<rparr>"

definition pseudo_abstract :: "fa_state \<Rightarrow> (nat \<Rightarrow> nat) \<Rightarrow> nat \<Rightarrow> position \<Rightarrow> string option \<Rightarrow> string option \<Rightarrow> icon_val \<Rightarrow> anode list" where
  "pseudo_abstract s draw k position prefix iconName main =
     map (with_attrs (if iconName = None then [(''data-icon'', AStr ''undefined'')] else []))
       (fst (makeInlineSvgAbstract s (pseudo_params position prefix iconName main) draw k))"

definition pseudo_svg :: "fa_state \<Rightarrow> (nat \<Rightarrow> nat) \<Rightarrow> nat \<Rightarrow> position \<Rightarrow> string option \<Rightarrow> string option \<Rightarrow> icon_val \<Rightarrow> xml list" where
  "pseudo_svg s draw k position prefix iconName main =
     (case read_html (markup (pseudo_abstract s draw k position prefix iconName main)) of
        None \<Rightarrow> [] | Some nodes \<Rightarrow> nodes)"

definition settle :: "fa_state \<Rightarrow> (nat \<Rightarrow> nat) \<Rightarrow> nat \<Rightarrow> position \<Rightarrow> replacement \<Rightarrow> host \<Rightarrow> host" where
  "settle s draw k position r node = (case r of
     Awaiting prefix iconName main \<Rightarrow>
       (let element = pseudo_svg s draw k position prefix iconName main in
        node\<lparr>h_kids := (case position of Before \<Rightarrow> element @ h_kids node | After \<Rightarrow> h_kids node @ element),
          h_attrs := filter (\<lambda>(k, v). k \<noteq> pendingAttribute position) (h_attrs node)\<rparr>)
   | _ \<Rightarrow> node)"

text \<open>Both positions of a node: the two executors run first, the icons are delivered after that.\<close>

definition replace_start :: "fa_state \<Rightarrow> (position \<Rightarrow> pseudo_style) \<Rightarrow> host \<Rightarrow> host \<times> replacement \<times> replacement" where
  "replace_start s look node =
     (let (node1, before) = replaceForPosition s look Before node; (node2, after) = replaceForPosition s look After node1
      in (node2, before, after))"

definition replace_pseudo :: "fa_state \<Rightarrow> (nat \<Rightarrow> nat) \<Rightarrow> nat \<Rightarrow> (position \<Rightarrow> pseudo_style) \<Rightarrow> host \<Rightarrow> host" where
  "replace_pseudo s draw k look node = (let (node1, before, after) = replace_start s look node in
     settle s draw k After after (settle s draw k Before before node1))"

definition processable :: "host \<Rightarrow> bool" where
  "processable node \<longleftrightarrow> \<not> h_in_head node \<and> to_upper (h_tag node) \<notin> set TAGNAMES_TO_SKIP_FOR_PSEUDOELEMENTS
     \<and> \<not> given (obj_get (h_attrs node) DATA_FA_PSEUDO_ELEMENT) \<and> h_parent node \<noteq> Some ''svg''"

text \<open>
  The search: each node with the styles of its pseudo-elements.  It is rejected when a
  replacement is (the others go on all the same).
\<close>

definition is_rejected :: "replacement \<Rightarrow> bool" where
  "is_rejected r \<longleftrightarrow> (case r of Rejected e \<Rightarrow> True | _ \<Rightarrow> False)"

definition searchPseudoElements ::
  "fa_state \<Rightarrow> (nat \<Rightarrow> nat) \<Rightarrow> nat \<Rightarrow> (host \<times> (position \<Rightarrow> pseudo_style)) list \<Rightarrow> host list \<times> bool option" where
  "searchPseudoElements s draw k nodes =
     (if \<not> is_dom s then (map fst nodes, None)
      else (map (\<lambda>(node, look). if processable node then replace_pseudo s draw k look node else node) nodes,
        Some (\<forall>(node, look) \<in> set nodes. processable node \<longrightarrow>
          (case replace_start s look node of (n, before, after) \<Rightarrow> \<not> is_rejected before \<and> \<not> is_rejected after))))"

subsection \<open>What is inserted\<close>

lemma inline_svg_attributes:
  assumes "\<not> symbol_given (p_symbol p)"
  shows "\<exists>as cs. fst (makeInlineSvgAbstract s p draw k) = [AElem ''svg'' as cs]
    \<and> (\<forall>x. x \<noteq> ''style'' \<longrightarrow> obj_get as x = obj_get (snd (fst (svg_content s p draw k))) x)"
proof -
  obtain c1 k1 where c1: "svg_content s p draw k = (c1, k1)" by fastforce
  have std: "obj_get (snd (makeIconStandard main t sty c)) x = obj_get (snd c) x" if "x \<noteq> ''style''" for main t sty c x
    using that by (cases c) (simp add: makeIconStandard_def Let_def js_simps)
  have msk: "snd (fst (makeIconMasking main msk t draw k c)) = snd c" for main msk t k c
    by (cases c) (simp add: makeIconMasking_def Let_def split: prod.splits)
  have icn: "\<exists>as cs. asIcon main msk t sty c = [AElem ''svg'' as cs] \<and> (\<forall>x. x \<noteq> ''style'' \<longrightarrow> obj_get as x = obj_get (snd c) x)"
    for main msk t sty c by (cases c) (simp add: asIcon_def Let_def js_simps)
  define r where "r = (if found (p_mask p) \<and> found (p_main p)
     then makeIconMasking (p_main p) (p_mask p) (p_transform p) draw k1 c1
     else (makeIconStandard (p_main p) (p_transform p) (xstyles (p_extra p)) c1, k1))"
  have r: "obj_get (snd (fst r)) x = obj_get (snd c1) x" if "x \<noteq> ''style''" for x
    using that std msk by (simp add: r_def)
  have "fst (makeInlineSvgAbstract s p draw k) = asIcon (p_main p) (p_mask p) (p_transform p) (xstyles (p_extra p)) (fst r)"
    using assms by (simp add: makeInlineSvgAbstract_def c1 Let_def r_def [symmetric] split: prod.splits)
  with icn [of "p_main p" "p_mask p" "p_transform p" "xstyles (p_extra p)" "fst r"] r show ?thesis by (simp add: c1)
qed

lemma watched_attribute:
  "p_watchable p \<Longrightarrow> obj_get (snd (fst (svg_content s p draw k))) DATA_FA_I2SVG = Some (AStr [])"
  by (auto simp: svg_content_def Let_def js_simps split: prod.splits)

lemma to_xml_attribute:
  "obj_get (map (\<lambda>(k, v). (k, aval_text v)) as) x = map_option aval_text (obj_get as x)"
  by (induction as) auto

fun xml_attrs :: "xml \<Rightarrow> string obj" where
  "xml_attrs (XElem tag as cs) = as"
| "xml_attrs (XText t) = []"


lemma pseudo_names: "wf_name DATA_FA_PSEUDO_ELEMENT" "wf_name ''data-icon''"
  by (simp_all add: DATA_FA_PSEUDO_ELEMENT_def wf_name_def name_char_def is_space_def)

lemma passed_attribute:
  assumes "xattributes (p_extra p) = [(DATA_FA_PSEUDO_ELEMENT, v)]"
  shows "obj_get (snd (fst (svg_content s p draw k))) DATA_FA_PSEUDO_ELEMENT = Some v"
  by (simp add: svg_content_def Let_def assms js_simps DATA_FA_PSEUDO_ELEMENT_def DATA_FA_I2SVG_def split: prod.splits)

lemma pseudo_element:
  assumes "findIcon s iconName prefix = Inr main"
  shows "\<exists>e. pseudo_svg s draw k position prefix iconName main = [e] \<and> isWatched (xml_attrs e)
    \<and> kid_attr DATA_FA_PSEUDO_ELEMENT e = Some (position_text position)
    \<and> kid_attr ''data-prefix'' e = Some (or_else prefix ''undefined'')
    \<and> kid_attr ''data-icon'' e = Some (or_else iconName ''undefined'')"
proof -
  define p where "p = pseudo_params position prefix iconName main"
  define new where "new = (if iconName = None then [(''data-icon'', AStr ''undefined'')] else [])"
  have p: "\<not> symbol_given (p_symbol p)" "p_watchable p" "p_prefix p = Some (or_else prefix ''undefined'')"
    "p_iconName p = iconName" "xattributes (p_extra p) = [(DATA_FA_PSEUDO_ELEMENT, AStr (position_text position))]"
    "\<not> found (p_mask p)" "p_main p = main"
    by (simp_all add: p_def pseudo_params_def symbol_given_def no_icon_def)
  have names: "wf_attrs (xattributes (p_extra p))" "wf_attrs new"
    by (simp_all add: p(5) new_def wf_attrs_def pseudo_names)
  obtain a where a: "fst (makeInlineSvgAbstract s p draw k) = [a]" "wf_icon a"
    using makeInlineSvgAbstract_wf [OF names(1), of s draw k] findIcon_wf [OF assms] p(6,7) by auto
  obtain as cs where as: "a = AElem ''svg'' as cs"
    "\<forall>x. x \<noteq> ''style'' \<longrightarrow> obj_get as x = obj_get (snd (fst (svg_content s p draw k))) x"
    using inline_svg_attributes [OF p(1), of s draw k] a(1) by auto
  have get: "obj_get as DATA_FA_I2SVG = Some (AStr [])" "obj_get as ''data-prefix'' = Some (str_attr (p_prefix p))"
    "obj_get as ''data-icon'' = Some (str_attr (p_iconName p))"
    "obj_get as DATA_FA_PSEUDO_ELEMENT = Some (AStr (position_text position))"
    using as(2) watched_attribute [OF p(2), of s draw k] svg_data_attributes [of s p draw k] passed_attribute [OF p(5), of s draw k]
    by (simp_all add: DATA_FA_I2SVG_def DATA_FA_PSEUDO_ELEMENT_def)
  let ?as = "object_spread as new"
  have "wf_icon (AElem ''svg'' ?as cs)" using with_attrs_wf [OF a(2) names(2)] as(1) by simp
  then have "read_html (markup [AElem ''svg'' ?as cs]) = Some [to_xml (AElem ''svg'' ?as cs)]"
    by (simp add: markup_def read_toHtml wf_icon_def del: toHtml.simps to_xml.simps)
  moreover have "pseudo_abstract s draw k position prefix iconName main = [AElem ''svg'' ?as cs]"
    using a(1) as(1) by (simp add: pseudo_abstract_def p_def new_def)
  ultimately have "pseudo_svg s draw k position prefix iconName main = [to_xml (AElem ''svg'' ?as cs)]"
    by (simp add: pseudo_svg_def)
  moreover have "obj_get ?as DATA_FA_I2SVG = Some (AStr [])" "obj_get ?as ''data-prefix'' = Some (AStr (or_else prefix ''undefined''))"
    "obj_get ?as ''data-icon'' = Some (AStr (or_else iconName ''undefined''))"
    "obj_get ?as DATA_FA_PSEUDO_ELEMENT = Some (AStr (position_text position))"
    using get p(3,4) by (simp_all add: new_def js_simps str_attr_def or_else_def DATA_FA_I2SVG_def DATA_FA_PSEUDO_ELEMENT_def split: option.splits)
  ultimately show ?thesis by (simp add: isWatched_def to_xml_attribute)
qed

subsection \<open>What a search shows\<close>

text \<open>The children that stand for a pseudo-element.\<close>

definition mine :: "position \<Rightarrow> xml \<Rightarrow> bool" where
  "mine position c \<longleftrightarrow> kid_attr DATA_FA_PSEUDO_ELEMENT c = Some (position_text position)"

lemma mine_other: "mine position c \<Longrightarrow> mine position' c \<longleftrightarrow> position' = position"
  by (cases position; cases position') (auto simp: mine_def)

text \<open>The icon a style asks for: none, or one that the packs have.\<close>

fun icon_wanted :: "fa_state \<Rightarrow> pseudo_style \<Rightarrow> (string \<times> string) option \<Rightarrow> bool" where
  "icon_wanted s st None \<longleftrightarrow> font_match (font_family st) = None"
| "icon_wanted s st (Some (p, n)) \<longleftrightarrow> (\<exists>f v. font_match (font_family st) = Some f \<and> pseudo_prefix f (font_weight st) = Some p
     \<and> pseudo_icon s (Some p) (content st) = Inr (Some n) \<and> findIcon s (Some n) (Some p) = Inr v)"

definition shown_as :: "position \<Rightarrow> (string \<times> string) option \<Rightarrow> xml list \<Rightarrow> bool" where
  "shown_as position w kids \<longleftrightarrow> (case w of None \<Rightarrow> filter (mine position) kids = []
     | Some (p, n) \<Rightarrow> \<exists>c. filter (mine position) kids = [c] \<and> kid_attr ''data-prefix'' c = Some p \<and> kid_attr ''data-icon'' c = Some n)"

definition tidy :: "host \<Rightarrow> bool" where
  "tidy h \<longleftrightarrow> (\<forall>position. obj_get (h_attrs h) (pendingAttribute position) = None
     \<and> length (filter (mine position) (h_kids h)) \<le> 1)"

lemma find_filter: "find P xs = (case filter P xs of [] \<Rightarrow> None | x # ys \<Rightarrow> Some x)"
  by (induction xs) auto

lemma processed_mine: "processed position kids = find (mine position) kids"
  by (simp add: processed_def mine_def [abs_def])

lemma remove_mine:
  "length (filter (mine position) kids) \<le> 1 \<Longrightarrow>
    remove_kid (processed position kids) kids = filter (\<lambda>c. \<not> mine position c) kids"
proof (induction kids)
  case (Cons c kids)
  show ?case
  proof (cases "mine position c")
    case True
    then have "filter (mine position) kids = []" using Cons.prems by simp
    then have "filter (\<lambda>c. \<not> mine position c) kids = kids" by (simp add: filter_empty_conv filter_id_conv)
    then show ?thesis using True by (simp add: processed_mine remove_kid_def)
  next
    case False
    then have "length (filter (mine position) kids) \<le> 1" using Cons.prems by simp
    note ih = Cons.IH [OF this]
    have "find (mine position) kids \<noteq> Some c" using False by (metis find_Some_iff)
    then have "remove_kid (find (mine position) kids) (c # kids) = c # remove_kid (find (mine position) kids) kids"
      by (auto simp: remove_kid_def split: option.splits)
    then show ?thesis using False ih by (simp add: processed_mine)
  qed
qed (simp add: processed_def remove_kid_def)

text \<open>The executor, when the icon is known.\<close>

lemma start_known:
  assumes "obj_get (h_attrs h) (pendingAttribute position) = None" "length (filter (mine position) (h_kids h)) \<le> 1"
    and "icon_wanted s (look position) w"
  shows "(shown_as position w (h_kids h) \<and> replaceForPosition s look position h = (h, Resolved))
    \<or> (w = None \<and> replaceForPosition s look position h = (h\<lparr>h_kids := filter (\<lambda>c. \<not> mine position c) (h_kids h)\<rparr>, Resolved))
    \<or> (\<exists>p n main. w = Some (p, n) \<and> findIcon s (Some n) (Some p) = Inr main
        \<and> replaceForPosition s look position h = (h\<lparr>h_attrs := obj_set (pendingAttribute position) n (h_attrs h),
            h_kids := filter (\<lambda>c. \<not> mine position c) (h_kids h)\<rparr>, Awaiting (Some p) (Some n) main))"
proof (cases w)
  case None
  then show ?thesis
    using assms by (simp add: replaceForPosition_def Let_def remove_mine)
next
  case (Some pn)
  obtain p n where pn: "pn = (p, n)" by (cases pn)
  obtain f main where f: "font_match (font_family (look position)) = Some f" "pseudo_prefix f (font_weight (look position)) = Some p"
    "pseudo_icon s (Some p) (content (look position)) = Inr (Some n)" "findIcon s (Some n) (Some p) = Inr main"
    using assms(3) Some pn by auto
  show ?thesis
  proof (cases "already_shows (Some p) (Some n) (processed position (h_kids h))")
    case True
    then obtain c where c: "find (mine position) (h_kids h) = Some c" "kid_attr ''data-prefix'' c = Some p" "kid_attr ''data-icon'' c = Some n"
      by (auto simp: already_shows_def processed_mine split: option.splits)
    then have "filter (mine position) (h_kids h) = [c]"
      using assms(2) by (auto simp: find_filter split: list.splits)
    then have "shown_as position w (h_kids h)" using c Some pn by (simp add: shown_as_def)
    then show ?thesis using True f assms(1) by (simp add: replaceForPosition_def Let_def)
  next
    case False
    then show ?thesis
      using f assms(1) Some pn by (simp add: replaceForPosition_def Let_def remove_mine [OF assms(2)] or_else_def)
  qed
qed

lemma pendingAttribute_inject: "pendingAttribute position = pendingAttribute position' \<longleftrightarrow> position = position'"
  by (cases position; cases position') (auto simp: pendingAttribute_def)

lemma filter_mine [simp]:
  "filter (mine position) (filter (\<lambda>c. \<not> mine position c) kids) = []"
  "position' \<noteq> position \<Longrightarrow> filter (mine position') (filter (\<lambda>c. \<not> mine position c) kids) = filter (mine position') kids"
  using mine_other by (auto simp: filter_empty_conv intro!: filter_cong)

lemma drop_key_set:
  "filter (\<lambda>(x, v). x \<noteq> k) (obj_set k w as) = filter (\<lambda>(x, v). x \<noteq> k) as"
  "k \<noteq> k' \<Longrightarrow> filter (\<lambda>(x, v). x \<noteq> k) (obj_set k' w as) = obj_set k' w (filter (\<lambda>(x, v). x \<noteq> k) as)"
  by (induction as) auto

lemma drop_key_absent: "obj_get as k = None \<Longrightarrow> filter (\<lambda>(x, v). x \<noteq> k) as = as"
  by (induction as) (auto split: if_splits)

text \<open>The delivery of a known icon.\<close>

lemma settle_known:
  assumes "findIcon s (Some n) (Some p) = Inr main"
  shows "\<exists>e. mine position e \<and> kid_attr ''data-prefix'' e = Some p \<and> kid_attr ''data-icon'' e = Some n
    \<and> settle s draw k position (Awaiting (Some p) (Some n) main) h = h
        \<lparr>h_kids := (case position of Before \<Rightarrow> e # h_kids h | After \<Rightarrow> h_kids h @ [e]),
         h_attrs := filter (\<lambda>(x, v). x \<noteq> pendingAttribute position) (h_attrs h)\<rparr>"
  using pseudo_element [OF assms, of draw k position]
  by (auto simp: settle_def mine_def or_else_def split: position.splits)

text \<open>
  One replacement: what it leaves of a node.  \<open>kept_kids\<close> are the children that stand for no
  pseudo-element.
\<close>

definition kept_kids :: "xml list \<Rightarrow> xml list" where
  "kept_kids kids = filter (\<lambda>c. \<forall>position. \<not> mine position c) kids"

lemma kept_kids_simps [simp]:
  "kept_kids (filter (\<lambda>c. \<not> mine position c) kids) = kept_kids kids"
  "mine position e \<Longrightarrow> kept_kids (e # kids) = kept_kids kids"
  "mine position e \<Longrightarrow> kept_kids (kids @ [e]) = kept_kids kids"
  by (auto simp: kept_kids_def intro: filter_cong)

lemma shown_as_frame:
  "filter (mine position) kids' = filter (mine position) kids \<Longrightarrow> shown_as position w kids' = shown_as position w kids"
  unfolding shown_as_def by (simp only:)

lemma shown_as_known:
  "mine position e \<Longrightarrow> kid_attr ''data-prefix'' e = Some p \<Longrightarrow> kid_attr ''data-icon'' e = Some n \<Longrightarrow>
    filter (mine position) kids = [] \<Longrightarrow> shown_as position (Some (p, n)) (e # kids) \<and> shown_as position (Some (p, n)) (kids @ [e])"
  by (simp add: shown_as_def)

text \<open>What the start of a replacement, and its end, are known to leave.\<close>

definition same_but :: "position \<Rightarrow> host \<Rightarrow> host \<Rightarrow> bool" where
  "same_but position h g \<longleftrightarrow> kept_kids (h_kids g) = kept_kids (h_kids h) \<and> h_tag g = h_tag h \<and> h_parent g = h_parent h
     \<and> h_in_head g = h_in_head h \<and> (\<forall>position'. position' \<noteq> position \<longrightarrow> filter (mine position') (h_kids g) = filter (mine position') (h_kids h))"

definition under_way :: "fa_state \<Rightarrow> position \<Rightarrow> (string \<times> string) option \<Rightarrow> host \<Rightarrow> replacement \<Rightarrow> string option \<Rightarrow> bool" where
  "under_way s position w g r pend \<longleftrightarrow> (r = Resolved \<and> shown_as position w (h_kids g) \<and> pend = None)
    \<or> (\<exists>p n main. w = Some (p, n) \<and> findIcon s (Some n) (Some p) = Inr main \<and> r = Awaiting (Some p) (Some n) main
        \<and> filter (mine position) (h_kids g) = [] \<and> pend = Some n)"

definition put_pending :: "position \<Rightarrow> string option \<Rightarrow> string obj \<Rightarrow> string obj" where
  "put_pending position pend as = (case pend of None \<Rightarrow> as | Some n \<Rightarrow> obj_set (pendingAttribute position) n as)"

lemma start_summary:
  assumes "obj_get (h_attrs h) (pendingAttribute position) = None" "length (filter (mine position) (h_kids h)) \<le> 1"
    and "icon_wanted s (look position) w"
  shows "\<exists>g r pend. replaceForPosition s look position h = (g, r) \<and> same_but position h g
    \<and> under_way s position w g r pend \<and> h_attrs g = put_pending position pend (h_attrs h)"
proof -
  note start_known [of h position s look w, OF assms]
  then consider (shown) "shown_as position w (h_kids h)" "replaceForPosition s look position h = (h, Resolved)"
    | (gone) "w = None" "replaceForPosition s look position h = (h\<lparr>h_kids := filter (\<lambda>c. \<not> mine position c) (h_kids h)\<rparr>, Resolved)"
    | (await) p n main where "w = Some (p, n)" "findIcon s (Some n) (Some p) = Inr main"
        "replaceForPosition s look position h = (h\<lparr>h_attrs := obj_set (pendingAttribute position) n (h_attrs h),
            h_kids := filter (\<lambda>c. \<not> mine position c) (h_kids h)\<rparr>, Awaiting (Some p) (Some n) main)" by blast
  then show ?thesis
  proof cases
    case shown
    then show ?thesis
      by (intro exI [of _ h] exI [of _ Resolved] exI [of _ None]) (simp add: same_but_def under_way_def put_pending_def)
  next
    case gone
    then show ?thesis
      by (intro exI [of _ "h\<lparr>h_kids := filter (\<lambda>c. \<not> mine position c) (h_kids h)\<rparr>"] exI [of _ Resolved] exI [of _ None])
        (simp add: same_but_def under_way_def put_pending_def shown_as_def del: filter_filter)
  next
    case await
    then show ?thesis
      by (intro exI [of _ "h\<lparr>h_attrs := obj_set (pendingAttribute position) n (h_attrs h),
            h_kids := filter (\<lambda>c. \<not> mine position c) (h_kids h)\<rparr>"] exI [of _ "Awaiting (Some p) (Some n) main"] exI [of _ "Some n"])
        (simp add: same_but_def under_way_def put_pending_def del: filter_filter)
  qed
qed

lemma settle_summary:
  assumes "under_way s position w g r pend"
  shows "\<exists>g'. settle s draw k position r g = g' \<and> same_but position g g' \<and> shown_as position w (h_kids g')
    \<and> h_attrs g' = (if pend = None then h_attrs g else filter (\<lambda>(x, v). x \<noteq> pendingAttribute position) (h_attrs g))"
  using assms unfolding under_way_def
proof (elim disjE exE conjE)
  assume "r = Resolved" "shown_as position w (h_kids g)" "pend = None"
  then show ?thesis by (simp add: settle_def same_but_def)
next
  fix p n main
  assume h: "w = Some (p, n)" "findIcon s (Some n) (Some p) = Inr main" "r = Awaiting (Some p) (Some n) main"
    "filter (mine position) (h_kids g) = []" "pend = Some n"
  obtain e where e: "mine position e" "kid_attr ''data-prefix'' e = Some p" "kid_attr ''data-icon'' e = Some n"
    "settle s draw k position r g = g
        \<lparr>h_kids := (case position of Before \<Rightarrow> e # h_kids g | After \<Rightarrow> h_kids g @ [e]),
         h_attrs := filter (\<lambda>(x, v). x \<noteq> pendingAttribute position) (h_attrs g)\<rparr>"
    using settle_known [OF h(2), of position draw k g] unfolding h(3) by blast
  have "\<not> mine position' e" if "position' \<noteq> position" for position' using mine_other [OF e(1)] that by simp
  then show ?thesis
    using shown_as_known [OF e(1-3) h(4)] e(1,4) h(1,5) by (cases position) (auto simp: same_but_def)
qed

lemma under_way_frame:
  "filter (mine position) (h_kids g') = filter (mine position) (h_kids g) \<Longrightarrow>
    under_way s position w g' r pend = under_way s position w g r pend"
  by (auto simp: under_way_def shown_as_frame [of position "h_kids g'" "h_kids g"])

lemma position_neq: "Before \<noteq> After" "After \<noteq> Before"
  by simp_all

lemma replace_pseudo_shows:
  assumes "tidy h" and "\<And>position. icon_wanted s (look position) (want position)"
  shows "tidy (replace_pseudo s draw k look h) \<and> h_attrs (replace_pseudo s draw k look h) = h_attrs h
    \<and> kept_kids (h_kids (replace_pseudo s draw k look h)) = kept_kids (h_kids h)
    \<and> (\<forall>position. shown_as position (want position) (h_kids (replace_pseudo s draw k look h)))"
proof -
  have t: "obj_get (h_attrs h) (pendingAttribute position) = None" "length (filter (mine position) (h_kids h)) \<le> 1" for position
    using assms(1) by (simp_all add: tidy_def)
  obtain h1 r1 n1 where h1: "replaceForPosition s look Before h = (h1, r1)" "same_but Before h h1"
    "under_way s Before (want Before) h1 r1 n1" "h_attrs h1 = put_pending Before n1 (h_attrs h)"
    using start_summary [of h Before s look "want Before", OF t(1) t(2) assms(2)] by blast
  have m1: "filter (mine After) (h_kids h1) = filter (mine After) (h_kids h)" using h1(2) by (simp add: same_but_def)
  have t1: "obj_get (h_attrs h1) (pendingAttribute After) = None" "length (filter (mine After) (h_kids h1)) \<le> 1"
    using t h1(4) m1 by (auto simp: put_pending_def js_simps pendingAttribute_inject split: option.splits)
  obtain h2 r2 n2 where h2: "replaceForPosition s look After h1 = (h2, r2)" "same_but After h1 h2"
    "under_way s After (want After) h2 r2 n2" "h_attrs h2 = put_pending After n2 (h_attrs h1)"
    using start_summary [of h1 After s look "want After", OF t1 assms(2)] by blast
  have "filter (mine Before) (h_kids h2) = filter (mine Before) (h_kids h1)" using h2(2) by (simp add: same_but_def)
  then have u1: "under_way s Before (want Before) h2 r1 n1" using h1(3) under_way_frame by blast
  obtain h3 where h3: "settle s draw k Before r1 h2 = h3" "same_but Before h2 h3" "shown_as Before (want Before) (h_kids h3)"
    "h_attrs h3 = (if n1 = None then h_attrs h2 else filter (\<lambda>(x, v). x \<noteq> pendingAttribute Before) (h_attrs h2))"
    using settle_summary [OF u1] by blast
  have "filter (mine After) (h_kids h3) = filter (mine After) (h_kids h2)" using h3(2) by (simp add: same_but_def)
  then have u2: "under_way s After (want After) h3 r2 n2" using h2(3) under_way_frame by blast
  obtain h4 where h4: "settle s draw k After r2 h3 = h4" "same_but After h3 h4" "shown_as After (want After) (h_kids h4)"
    "h_attrs h4 = (if n2 = None then h_attrs h3 else filter (\<lambda>(x, v). x \<noteq> pendingAttribute After) (h_attrs h3))"
    using settle_summary [OF u2] by blast
  have r: "replace_pseudo s draw k look h = h4"
    by (simp add: replace_pseudo_def replace_start_def h1(1) h2(1) h3(1) h4(1))
  have "filter (mine Before) (h_kids h4) = filter (mine Before) (h_kids h3)" using h4(2) by (simp add: same_but_def)
  then have "shown_as Before (want Before) (h_kids h4)" using h3(3) shown_as_frame by blast
  then have shown: "shown_as position (want position) (h_kids h4)" for position using h4(3) by (cases position) simp_all
  have a: "h_attrs h4 = h_attrs h"
    using h4(4) h3(4) h2(4) h1(4) t(1)
    by (simp add: put_pending_def drop_key_set drop_key_absent pendingAttribute_inject split: option.splits if_splits del: filter_filter)
  have "length (filter (mine position) (h_kids h4)) \<le> 1" for position
    using shown [of position] by (auto simp: shown_as_def split: option.splits)
  then have "tidy h4" using a t(1) by (simp add: tidy_def)
  moreover have "kept_kids (h_kids h4) = kept_kids (h_kids h)"
    using h1(2) h2(2) h3(2) h4(2) by (simp add: same_but_def)
  ultimately show ?thesis using r a shown by simp
qed

lemma start_shown:
  assumes "tidy h" "icon_wanted s (look position) w" "shown_as position w (h_kids h)"
  shows "replaceForPosition s look position h = (h, Resolved)"
proof (cases w)
  case None
  then have "filter (mine position) (h_kids h) = []" using assms(3) by (simp add: shown_as_def)
  then have "filter (\<lambda>c. \<not> mine position c) (h_kids h) = h_kids h" by (simp add: filter_empty_conv filter_id_conv)
  then show ?thesis using start_known [of h position s look w] assms None by (auto simp: tidy_def)
next
  case (Some pn)
  obtain p n where pn: "pn = (p, n)" by (cases pn)
  obtain c where c: "filter (mine position) (h_kids h) = [c]" "kid_attr ''data-prefix'' c = Some p" "kid_attr ''data-icon'' c = Some n"
    using assms(3) Some pn by (auto simp: shown_as_def)
  then have "processed position (h_kids h) = Some c" by (simp add: processed_mine find_filter)
  then have "already_shows (Some p) (Some n) (processed position (h_kids h))" using c by (simp add: already_shows_def)
  then show ?thesis using assms(1,2) Some pn by (auto simp: replaceForPosition_def Let_def tidy_def)
qed

text \<open>
  C20: A search replaces the pseudo-elements of a node by the icons their styles ask for, and a
  second search finds nothing to do.  For every node without a replacement under way, when each of
  the two pseudo-elements either does not use the font or shows a code point of an icon the packs
  have: after the search the node has one child for each pseudo-element that shows an icon, with
  the prefix and name of that icon, and none for the other; its attributes and its other
  children are as they were; and searching again, with the same styles, changes nothing.
\<close>

theorem search_shows_icons:
  assumes "tidy h" and "\<And>position. icon_wanted s (look position) (want position)"
    and "h' = replace_pseudo s draw k look h"
  shows "(\<forall>position. shown_as position (want position) (h_kids h')) \<and> h_attrs h' = h_attrs h
    \<and> kept_kids (h_kids h') = kept_kids (h_kids h) \<and> replace_pseudo s draw k' look h' = h'"
proof -
  note r = replace_pseudo_shows [of h s look want draw k, OF assms(1,2), folded assms(3)]
  have "replaceForPosition s look position h' = (h', Resolved)" for position
    using r assms(2) by (intro start_shown) auto
  then have "replace_pseudo s draw k' look h' = h'"
    by (simp add: replace_pseudo_def replace_start_def settle_def)
  with r show ?thesis by simp
qed

definition demo_style :: "string \<Rightarrow> 16 word list \<Rightarrow> pseudo_style" where
  "demo_style family code = \<lparr>font_family = family, font_weight = ''900'', content = code\<rparr>"

definition demo_look :: "16 word \<Rightarrow> position \<Rightarrow> pseudo_style" where
  "demo_look u position = (case position of
     Before \<Rightarrow> demo_style ''Font Awesome 5 Free'' [34, u, 34] | After \<Rightarrow> demo_style ''Arial'' [])"

definition demo_built :: fa_state where
  "demo_built = build demo_reg"

definition demo_host :: host where
  "demo_host = \<lparr>h_tag = ''SPAN'', h_attrs = [(''class'', ''gear'')], h_kids = [XElem ''b'' [] []],
     h_parent = Some ''BODY'', h_in_head = False\<rparr>"

lemma demo_host_tidy: "tidy demo_host"
  by (simp add: tidy_def demo_host_def pendingAttribute_def DATA_FA_PSEUDO_ELEMENT_PENDING_def mine_def)

lemma demo_look_fonts:
  "font_match (font_family (demo_look u Before)) = Some ''Free''" "font_match (font_family (demo_look u After)) = None"
  by (simp_all add: demo_look_def demo_style_def)

lemma demo_built_simps:
  "by_unicode demo_built = [(''fas'', [(''f000'', ''glass-martini''), (''f013'', ''cog'')]), (''fa'', [(''f000'', ''glass-martini''), (''f013'', ''cog'')])]"
  "styles demo_built = styles demo_reg"
proof -
  have u: "unicode (demo_icon u) = u" for u by (simp add: demo_icon_def)
  have "obj_reduce [(''glass-martini'', demo_icon ''f000''), (''cog'', demo_icon ''f013'')] unicode_reducer [] =
      [(''f000'', ''glass-martini''), (''f013'', ''cog'')]"
    by (simp add: obj_reduce_def unicode_reducer_def u)
  then have "lookup (styles demo_reg) unicode_reducer = [(''fas'', [(''f000'', ''glass-martini''), (''f013'', ''cog'')]), (''fa'', [(''f000'', ''glass-martini''), (''f013'', ''cog'')])]"
    unfolding lookup_def demo_reg_simps by (simp add: obj_reduce_def)
  then show "by_unicode demo_built = [(''fas'', [(''f000'', ''glass-martini''), (''f013'', ''cog'')]), (''fa'', [(''f000'', ''glass-martini''), (''f013'', ''cog'')])]"
    unfolding demo_built_def build_def by simp
  show "styles demo_built = styles demo_reg" unfolding demo_built_def build_def by simp
qed

lemma demo_units: "hex_unit 0xf013 = ''f013''" "hex_unit 0xe999 = ''e999''"
proof -
  have d: "hex_digit 15 = CHR ''f''" "hex_digit 14 = CHR ''e''" "hex_digit 9 = CHR ''9''" "hex_digit 0 = CHR ''0''"
    "hex_digit (Suc 0) = CHR ''1''" "hex_digit 3 = CHR ''3''" by code_simp+
  have h: "hex_str 0xf013 = [hex_digit 15, hex_digit 0, hex_digit 1, hex_digit 3]"
    "hex_str 0xe999 = [hex_digit 14, hex_digit 9, hex_digit 9, hex_digit 9]"
    by (simp_all add: hex_str.simps)
  show "hex_unit 0xf013 = ''f013''" "hex_unit 0xe999 = ''e999''" by (simp_all add: hex_unit_def h d)
qed

lemma demo_pseudo_icon:
  "pseudo_icon demo_built (Some ''fas'') [34, 0xf013, 34] = Inr (Some ''cog'')"
  "pseudo_icon demo_built (Some ''fas'') [34, 0xe999, 34] = Inr None"
proof -
  have "toHex [0xf013] = ''f013''" "toHex [0xe999] = ''e999''" by (simp_all add: toHex_def demo_units)
  then show "pseudo_icon demo_built (Some ''fas'') [34, 0xf013, 34] = Inr (Some ''cog'')"
    "pseudo_icon demo_built (Some ''fas'') [34, 0xe999, 34] = Inr None"
    by (simp_all add: pseudo_icon_def byUnicode_def demo_built_simps or_else_def)
qed

theorem search_shows_icons_witness:
  "shown_as Before (Some (''fas'', ''cog'')) (h_kids (replace_pseudo demo_built (\<lambda>i. i) 0 (demo_look 0xf013) demo_host))"
proof -
  let ?want = "\<lambda>position. case position of Before \<Rightarrow> Some (''fas'', ''cog'') | After \<Rightarrow> None"
  have "icon_wanted demo_built (demo_look 0xf013 position) (?want position)" for position
  proof (cases position)
    case Before
    have "\<exists>v. findIcon demo_built (Some ''cog'') (Some ''fas'') = Inr v"
      by (simp add: findIcon_def Let_def given_def demo_built_simps demo_reg_simps)
    moreover have "pseudo_prefix ''Free'' (font_weight (demo_look 0xf013 Before)) = Some ''fas''"
      by (simp add: pseudo_prefix_def demo_look_def demo_style_def FONT_WEIGHT_TO_PREFIX_def)
    moreover have "pseudo_icon demo_built (Some ''fas'') (content (demo_look 0xf013 Before)) = Inr (Some ''cog'')"
      using demo_pseudo_icon(1) by (simp add: demo_look_def demo_style_def)
    ultimately show ?thesis using Before by (simp add: demo_look_fonts)
  qed (simp add: demo_look_fonts)
  from search_shows_icons [of demo_host demo_built "demo_look 0xf013" ?want, OF demo_host_tidy this refl]
  have "shown_as position (?want position) (h_kids (replace_pseudo demo_built (\<lambda>i. i) 0 (demo_look 0xf013) demo_host))" for position
    by blast
  from this [of Before] show ?thesis by simp
qed

subsection \<open>A code point without an icon\<close>

lemma start_pending:
  assumes "replaceForPosition s look position h = (g, r)" "position' \<noteq> position"
  shows "obj_get (h_attrs g) (pendingAttribute position') = obj_get (h_attrs h) (pendingAttribute position')"
  using assms
  by (auto simp: replaceForPosition_def Let_def js_simps pendingAttribute_inject split: if_splits option.splits sum.splits)

lemma settle_pending:
  "position' \<noteq> position \<Longrightarrow> obj_get (h_attrs (settle s draw k position r g)) (pendingAttribute position') =
    obj_get (h_attrs g) (pendingAttribute position')"
proof -
  have "obj_get (filter (\<lambda>(x, v). x \<noteq> a) as) b = obj_get as b" if "b \<noteq> a" for a b and as :: "string obj"
    using that by (induction as) auto
  then show "position' \<noteq> position \<Longrightarrow> ?thesis"
    by (auto simp: settle_def Let_def pendingAttribute_inject split: replacement.splits)
qed

lemma settle_removes:
  "obj_get (h_attrs (settle s draw k position (Awaiting p n v) g)) (pendingAttribute position) = None"
proof -
  have "obj_get (filter (\<lambda>(x, v). x \<noteq> a) as) a = None" for a and as :: "string obj"
    by (induction as) auto
  then show ?thesis by (simp add: settle_def Let_def)
qed

definition missing_icon :: icon_val where
  "missing_icon = \<lparr>found = False, vwidth = Fin 512, vheight = Fin 512, vicon = missing\<rparr>"

lemma unknown_starts:
  assumes "obj_get (h_attrs h) (pendingAttribute position) = None"
    and "font_match (font_family (look position)) = Some f" "pseudo_prefix f (font_weight (look position)) = Some p"
    and "pseudo_icon s (Some p) (content (look position)) = Inr None"
  shows "\<exists>g. replaceForPosition s look position h = (g, Awaiting (Some p) None missing_icon)"
proof -
  have "findIcon s None (Some p) = Inr missing_icon" by (simp add: findIcon_def Let_def given_def missing_icon_def)
  then show ?thesis
    using assms by (auto simp: replaceForPosition_def Let_def already_shows_def split: option.splits)
qed

lemma settle_inserts:
  assumes "findIcon s iconName prefix = Inr main"
  shows "\<exists>e \<in> set (h_kids (settle s draw k position (Awaiting prefix iconName main) g)).
    mine position e \<and> kid_attr ''data-icon'' e = Some (or_else iconName ''undefined'')"
  using pseudo_element [OF assms, of draw k position]
  by (auto simp: settle_def Let_def mine_def split: position.splits)

lemma settle_keeps_kids: "e \<in> set (h_kids g) \<Longrightarrow> e \<in> set (h_kids (settle s draw k position r g))"
  by (auto simp: settle_def Let_def split: replacement.splits position.splits)

lemma unknown_round:
  assumes "obj_get (h_attrs h) (pendingAttribute position) = None"
    and "font_match (font_family (look position)) = Some f" "pseudo_prefix f (font_weight (look position)) = Some p"
    and "pseudo_icon s (Some p) (content (look position)) = Inr None"
  shows "obj_get (h_attrs (replace_pseudo s draw k look h)) (pendingAttribute position) = None
    \<and> (\<exists>e \<in> set (h_kids (replace_pseudo s draw k look h)). mine position e \<and> kid_attr ''data-icon'' e = Some ''undefined'')"
proof -
  have fi: "findIcon s None (Some p) = Inr missing_icon" by (simp add: findIcon_def Let_def given_def missing_icon_def)
  obtain h1 r1 where h1: "replaceForPosition s look Before h = (h1, r1)" by fastforce
  obtain h2 r2 where h2: "replaceForPosition s look After h1 = (h2, r2)" by fastforce
  define h3 where "h3 = settle s draw k Before r1 h2"
  have r: "replace_pseudo s draw k look h = settle s draw k After r2 h3"
    by (simp add: replace_pseudo_def replace_start_def h1 h2 h3_def)
  show ?thesis
  proof (cases position)
    case Before
    have r1: "r1 = Awaiting (Some p) None missing_icon"
      using unknown_starts [of h Before look f p s] assms Before h1 by auto
    have "obj_get (h_attrs h3) (pendingAttribute Before) = None" unfolding h3_def r1 by (rule settle_removes)
    moreover have "\<exists>e \<in> set (h_kids h3). mine Before e \<and> kid_attr ''data-icon'' e = Some ''undefined''"
      using settle_inserts [OF fi, of draw k Before h2] unfolding h3_def r1 by (simp add: or_else_def)
    ultimately show ?thesis
      using settle_pending [of Before After] settle_keeps_kids unfolding r Before by (metis position_neq(1))
  next
    case After
    have "obj_get (h_attrs h1) (pendingAttribute After) = None"
      using start_pending [OF h1, of After] assms(1) After by simp
    then have r2: "r2 = Awaiting (Some p) None missing_icon"
      using unknown_starts [of h1 After look f p s] assms After h2 by auto
    show ?thesis
      using settle_inserts [OF fi, of draw k After h3] settle_removes unfolding r After r2 by (simp add: or_else_def)
  qed
qed

text \<open>
  C37: A code point that no icon has keeps the search busy for ever.  When a pseudo-element uses the
  font and its content is no code point of an icon (an element whose parent uses the font and that
  has no such pseudo-element has the content \<open>none\<close>), every search puts the picture of a missing
  icon into the page, labelled \<open>undefined\<close>, and however many searches have been made, the next one
  takes it for an icon still to be replaced and starts over.
\<close>

theorem unknown_code_point_never_settles:
  assumes "obj_get (h_attrs h) (pendingAttribute position) = None"
    and "font_match (font_family (look position)) = Some f" and "pseudo_prefix f (font_weight (look position)) = Some p"
    and "pseudo_icon s (Some p) (content (look position)) = Inr None"
  shows "(\<exists>g. replaceForPosition s look position ((replace_pseudo s draw k look ^^ n) h) = (g, Awaiting (Some p) None missing_icon))
    \<and> (0 < n \<longrightarrow> (\<exists>e \<in> set (h_kids ((replace_pseudo s draw k look ^^ n) h)).
         mine position e \<and> kid_attr ''data-icon'' e = Some ''undefined''))"
proof -
  let ?h = "\<lambda>n. (replace_pseudo s draw k look ^^ n) h"
  note round = unknown_round [where look = look and position = position and s = s, OF _ assms(2-4)]
  have p: "obj_get (h_attrs (?h n)) (pendingAttribute position) = None" for n
    using assms(1) round by (induction n) auto
  have "\<exists>e \<in> set (h_kids (?h n)). mine position e \<and> kid_attr ''data-icon'' e = Some ''undefined''" if "0 < n"
    using that round [OF p] by (cases n) auto
  then show ?thesis using unknown_starts [where look = look and s = s, OF p assms(2-4)] by blast
qed

theorem unknown_code_point_never_settles_witness:
  "\<exists>e \<in> set (h_kids ((replace_pseudo demo_built (\<lambda>i. i) 0 (demo_look 0xe999) ^^ 5) demo_host)).
     mine Before e \<and> kid_attr ''data-icon'' e = Some ''undefined''"
proof -
  have "obj_get (h_attrs demo_host) (pendingAttribute Before) = None" using demo_host_tidy by (simp add: tidy_def)
  moreover have "pseudo_prefix ''Free'' (font_weight (demo_look 0xe999 Before)) = Some ''fas''"
    by (simp add: pseudo_prefix_def demo_look_def demo_style_def FONT_WEIGHT_TO_PREFIX_def)
  moreover have "pseudo_icon demo_built (Some ''fas'') (content (demo_look 0xe999 Before)) = Inr None"
    using demo_pseudo_icon(2) by (simp add: demo_look_def demo_style_def)
  ultimately show ?thesis
    using unknown_code_point_never_settles [of demo_host Before "demo_look 0xe999" "''Free''" "''fas''" demo_built 5 "\<lambda>i. i" 0]
      demo_look_fonts(1) by simp
qed


end
