(* ===== verification/Fa_Boot.thy ===== *)
theory Fa_Boot
  imports Fa_Observe
begin

text \<open>
  \<^verbatim>\<open>web-admin/fontawesome/js/fontawesome.js\<close>, lines 272-293, 2139-2193 and 2340-2382: waiting for the
  document, the passes and observers the page asks for, and what happens when the script is
  loaded, in whatever order the scripts of the packs and of the core are.
\<close>

subsection \<open>State\<close>








subsection \<open>Passes and observers\<close>









subsection \<open>Events\<close>




subsection \<open>What tasks leave alone\<close>























subsection \<open>Switching off\<close>






subsection \<open>The order of the scripts\<close>

text \<open>
  The scripts of the packs each define the icons of a prefix; the script of the core builds its
  tables and installs its hooks.
\<close>

definition load_core :: "fa_state \<Rightarrow> fa_state" where
  "load_core s = install_hooks (build s)"

definition load_packs :: "(string \<times> icon_entry obj) list \<Rightarrow> fa_state \<Rightarrow> fa_state" where
  "load_packs packs s = fold (\<lambda>(prefix, icons) s. defineIcons False prefix icons s) packs s"

text \<open>What is registered, with the tables of the core.\<close>

definition registry :: "fa_state \<Rightarrow> icon_def obj obj \<times> shim list \<times> icon_def obj obj \<times> cval obj \<times> bool" where
  "registry s = (styles s, shims s, definitions s, config s, is_dom s)"

definition tables :: "fa_state \<Rightarrow> string obj obj \<times> string obj obj \<times> (string option \<times> string option) obj" where
  "tables s = (by_unicode s, by_ligature s, by_old_name s)"

lemma autoReplace_same: "registry (autoReplace s) = registry s" "tables (autoReplace s) = tables s" "hooks (autoReplace s) = hooks s"
  by (simp_all add: autoReplace_def registry_def tables_def)

lemma tables_build: "registry t = registry s \<Longrightarrow> tables (build t) = tables (build s)"
  by (simp add: registry_def tables_def build_def)

lemma registry_build: "registry (build s) = registry s" "hooks (build s) = hooks s" "build (build s) = build s"
  by (simp_all add: registry_def build_def)

lemma registry_put_style: "registry s = registry t \<Longrightarrow> registry (put_style prefix icons s) = registry (put_style prefix icons t)"
  by (simp add: registry_def put_style_def get_or_empty_def)

lemma hooks_put_style: "hooks (put_style prefix icons s) = hooks s"
  by (simp add: put_style_def)

definition in_sync :: "fa_state \<Rightarrow> bool" where
  "in_sync s \<longleftrightarrow> (hooks s \<longrightarrow> tables s = tables (build s))"

lemma register_registry:
  assumes "registry s = registry t"
  shows "registry (register_icons False prefix icons s) = registry (register_icons False prefix icons t)"
proof -
  have "registry (register_icons False prefix icons u) = registry (put_style prefix (normalize_icons icons) u)" for u
    by (simp add: register_icons_def addPack_def autoReplace_same registry_build(1))
  then show ?thesis using registry_put_style [OF assms] by simp
qed

lemma register_sync:
  "in_sync s \<Longrightarrow> in_sync (register_icons False prefix icons s) \<and> hooks (register_icons False prefix icons s) = hooks s"
proof (cases "hooks s")
  case True
  let ?p = "put_style prefix (normalize_icons icons) s"
  have "tables (build (autoReplace (build ?p))) = tables (build (build ?p))"
    by (rule tables_build) (simp add: autoReplace_same)
  then show ?thesis
    using True by (simp add: in_sync_def register_icons_def addPack_def autoReplace_same registry_build hooks_put_style)
qed (simp add: in_sync_def register_icons_def hooks_put_style)

lemma defineIcons_registry:
  assumes "registry s = registry t"
  shows "registry (defineIcons False prefix icons s) = registry (defineIcons False prefix icons t)"
  using register_registry [OF register_registry [OF assms], of "''fa''" icons prefix icons] register_registry [OF assms, of prefix icons]
  by (cases "prefix = ''fas''") (simp_all add: defineIcons_def Let_def)

lemma defineIcons_sync:
  "in_sync s \<Longrightarrow> in_sync (defineIcons False prefix icons s) \<and> hooks (defineIcons False prefix icons s) = hooks s"
  by (simp add: defineIcons_def register_sync Let_def)

lemma load_packs_registry: "registry s = registry t \<Longrightarrow> registry (load_packs ps s) = registry (load_packs ps t)"
proof (induction ps arbitrary: s t)
  case (Cons p ps)
  show ?case
    using Cons.IH [OF defineIcons_registry [OF Cons.prems], of "fst p" "snd p"] by (simp add: load_packs_def case_prod_beta)
qed (simp add: load_packs_def)

lemma load_packs_sync: "in_sync s \<Longrightarrow> in_sync (load_packs ps s) \<and> hooks (load_packs ps s) = hooks s"
  unfolding load_packs_def by (induction ps arbitrary: s) (auto simp: defineIcons_sync)

lemma load_core_props: "registry (load_core s) = registry s" "hooks (load_core s)" "in_sync (load_core s)"
proof -
  show r: "registry (load_core s) = registry s" by (simp add: load_core_def install_hooks_def build_def registry_def)
  show "hooks (load_core s)" by (simp add: load_core_def install_hooks_def)
  have "tables (load_core s) = tables (build s)" by (simp add: load_core_def install_hooks_def tables_def)
  then show "in_sync (load_core s)" using tables_build [OF r] by (simp add: in_sync_def)
qed

text \<open>
  C29: It makes no difference where among the scripts of the packs the script of the core is loaded.
  The same icons are registered, and the tables by code point, by ligature and by old name are the
  same, as when the core comes last, which is the order in which \<^verbatim>\<open>all.js\<close> holds the scripts.
\<close>

theorem load_order_irrelevant:
  "registry (load_packs later (load_core (load_packs earlier s))) = registry (load_core (load_packs (earlier @ later) s))
   \<and> tables (load_packs later (load_core (load_packs earlier s))) = tables (load_core (load_packs (earlier @ later) s))"
proof -
  let ?a = "load_packs later (load_core (load_packs earlier s))"
  let ?b = "load_packs (earlier @ later) s"
  have b: "?b = load_packs later (load_packs earlier s)" by (simp add: load_packs_def)
  have r: "registry ?a = registry ?b" unfolding b by (rule load_packs_registry) (rule load_core_props)
  have "in_sync ?a \<and> hooks ?a" using load_packs_sync [OF load_core_props(3)] load_core_props(2) by blast
  then have "tables ?a = tables (build ?a)" by (simp add: in_sync_def)
  also have "\<dots> = tables (build ?b)" by (rule tables_build [OF r])
  also have "\<dots> = tables (load_core ?b)" by (simp add: load_core_def install_hooks_def tables_def)
  finally show ?thesis using r by (simp add: load_core_props)
qed



end
