(* ===== verification/Page_Base.thy ===== *)
theory Page_Base
  imports Web_Socket Web_Common
begin

text \<open>
  What the scripts inside the pages of \<^verbatim>\<open>web-admin\<close> share: the elements of the document they look up
  by id, the values they print, the way they send requests and react to messages.  A handler
  maps the state of the socket object (which holds the page) to the state it leaves and the
  error it throws, if any, as the callbacks of \<^verbatim>\<open>Web_Socket\<close> do.
\<close>

subsection \<open>The document\<close>

text \<open>
  An element with the properties the scripts write.  \<open>pollers\<close> counts the interval timers a page
  has set up for itself, \<open>cookies\<close> is the browser's cookie jar.
\<close>

record element =
  inner :: string
  className :: string
  tooltip :: string
  display :: string
  e_value :: string

record dom_page =
  dom :: "element obj"
  alerts :: "string list"
  pollers :: nat
  cookies :: "string obj"

definition blank_element :: element where
  "blank_element = \<lparr>inner = [], className = [], tooltip = [], display = [], e_value = []\<rparr>"

subsection \<open>Values\<close>

text \<open>
  A value converted to a string, and a value assigned to \<open>innerHTML\<close> (where null is the empty
  string).
\<close>

definition to_str :: "json option \<Rightarrow> string" where
  "to_str v = (case v of None \<Rightarrow> ''undefined'' | Some j \<Rightarrow> prop_key j)"

definition inner_text :: "json option \<Rightarrow> string" where
  "inner_text v = (if v = Some JNull then [] else to_str v)"

text \<open>
  The values a \<open>for (i in v)\<close> loop visits with \<open>v[i]\<close>, and those a loop up to \<open>v.length\<close> visits (an object
  has no \<open>length\<close>, so there are none).
\<close>

fun in_values :: "json option \<Rightarrow> json list" where
  "in_values (Some (JArr vs)) = vs"
| "in_values (Some (JObj ps)) = map snd ps"
| "in_values (Some (JStr s)) = map (\<lambda>c. JStr [c]) s"
| "in_values v = []"

fun indexed :: "json option \<Rightarrow> js_error + json list" where
  "indexed None = Inl TypeError"
| "indexed (Some JNull) = Inl TypeError"
| "indexed (Some (JArr vs)) = Inr vs"
| "indexed (Some (JStr s)) = Inr (map (\<lambda>c. JStr [c]) s)"
| "indexed (Some v) = Inr []"

text \<open>\<open>s.replace(p, '')\<close> for a text \<open>p\<close>: its first occurrence goes.\<close>

definition remove_first :: "string \<Rightarrow> string \<Rightarrow> string" where
  "remove_first p s = (let i = index_of p s in
     if i < 0 then s else take (nat i) s @ drop (nat i + length p) s)"

subsection \<open>Handlers\<close>

type_synonym 'pg act = "'pg cws \<Rightarrow> 'pg cws \<times> js_error option"

definition pass :: "'pg act" where
  "pass s = (s, None)"

definition throw :: "js_error \<Rightarrow> 'pg act" where
  "throw e s = (s, Some e)"

fun steps :: "'pg act list \<Rightarrow> 'pg act" where
  "steps [] s = (s, None)"
| "steps (a # as) s = (case a s of (t, None) \<Rightarrow> steps as t | (t, Some e) \<Rightarrow> (t, Some e))"

lemma steps_one: "steps [a] = a"
  by (rule ext) (auto split: prod.splits option.splits)

lemma steps_next: "a s = (t, None) \<Longrightarrow> steps (a # as) s = steps as t"
  by simp

definition for_each :: "'a list \<Rightarrow> ('a \<Rightarrow> 'pg act) \<Rightarrow> 'pg act" where
  "for_each xs f = steps (map f xs)"

text \<open>Reading a property of a value: of \<open>undefined\<close> and of null it throws.\<close>

definition read :: "string \<Rightarrow> json option \<Rightarrow> (json option \<Rightarrow> 'pg act) \<Rightarrow> 'pg act" where
  "read k v f = (case v of
     None \<Rightarrow> throw TypeError
   | Some j \<Rightarrow> (case json_prop k j of Inl e \<Rightarrow> throw e | Inr x \<Rightarrow> f x))"

definition read_list :: "json option \<Rightarrow> (json list \<Rightarrow> 'pg act) \<Rightarrow> 'pg act" where
  "read_list v f = (case indexed v of Inl e \<Rightarrow> throw e | Inr vs \<Rightarrow> f vs)"

text \<open>Writing to the element of an id: to a missing element it throws.\<close>

definition change_page :: "('pg \<Rightarrow> 'pg) \<Rightarrow> 'pg act" where
  "change_page f s = (s\<lparr>page := f (page s)\<rparr>, None)"

definition set_element :: "string \<Rightarrow> (element \<Rightarrow> element) \<Rightarrow> ('x dom_page_scheme) act" where
  "set_element i f s = (case obj_get (dom (page s)) i of
     None \<Rightarrow> (s, Some TypeError)
   | Some e \<Rightarrow> change_page (\<lambda>pg. pg\<lparr>dom := obj_set i (f e) (dom pg)\<rparr>) s)"

definition set_inner :: "string \<Rightarrow> string \<Rightarrow> ('x dom_page_scheme) act" where
  "set_inner i t = set_element i (\<lambda>e. e\<lparr>inner := t\<rparr>)"

text \<open>\<open>e.innerHTML = v.k\<close>.\<close>

definition show_prop :: "json option \<Rightarrow> string \<Rightarrow> string \<Rightarrow> ('x dom_page_scheme) act" where
  "show_prop v k i = read k v (\<lambda>x. set_inner i (inner_text x))"

text \<open>Sending a request, with what is done with its id.\<close>

definition request_then :: "string \<Rightarrow> json option \<Rightarrow> (nat \<Rightarrow> 'pg act) \<Rightarrow> 'pg act" where
  "request_then m p f s = (case sendJsonRequest m p s of
     (t, Inl e) \<Rightarrow> (t, Some e) | (t, Inr i) \<Rightarrow> f i t)"

definition request :: "string \<Rightarrow> json option \<Rightarrow> 'pg act" where
  "request m p = request_then m p (\<lambda>i. pass)"

definition show_alert :: "string \<Rightarrow> ('x dom_page_scheme) act" where
  "show_alert t = change_page (\<lambda>pg. pg\<lparr>alerts := alerts pg @ [t]\<rparr>)"

text \<open>\<open>setCookie(name, val)\<close>, and what the page then reads with \<open>getCookie\<close>.\<close>

definition store_cookie :: "string \<Rightarrow> string \<Rightarrow> ('x dom_page_scheme) act" where
  "store_cookie name val = change_page (\<lambda>pg. pg\<lparr>cookies := jar_assign (setCookie name val) (cookies pg)\<rparr>)"

definition read_cookie :: "string \<Rightarrow> ('x dom_page_scheme) cws \<Rightarrow> string" where
  "read_cookie name s = getCookie (jar_read (cookies (page s))) name"

definition set_interval :: "('x dom_page_scheme) act" where
  "set_interval = change_page (\<lambda>pg. pg\<lparr>pollers := pollers pg + 1\<rparr>)"

text \<open>
  \<open>if (checkResponseError(v)) return; rest\<close>: a value without an \<open>error\<close> member goes on.
\<close>

definition checked :: "json option \<Rightarrow> ('x dom_page_scheme) act \<Rightarrow> ('x dom_page_scheme) act" where
  "checked v rest = (case v of
     None \<Rightarrow> throw TypeError
   | Some JNull \<Rightarrow> throw TypeError
   | Some (JObj ps) \<Rightarrow> (case checkResponseError stringify ps of
       (True, ts) \<Rightarrow> for_each ts show_alert | (False, ts) \<Rightarrow> rest)
   | Some j \<Rightarrow> rest)"

subsection \<open>What a handler may do\<close>

text \<open>
  A handler stays within a relation on states when it leads from every state to a related one.
  The relations of interest are reflexive and transitive, so that whole handlers stay within
  them when their parts do.
\<close>

definition stays :: "('pg cws \<Rightarrow> 'pg cws \<Rightarrow> bool) \<Rightarrow> 'pg act \<Rightarrow> bool" where
  "stays R a \<longleftrightarrow> (\<forall>s. R s (fst (a s)))"

lemma staysD: "stays R a \<Longrightarrow> R s (fst (a s))"
  by (simp add: stays_def)

locale act_relation =
  fixes R :: "'pg cws \<Rightarrow> 'pg cws \<Rightarrow> bool"
  assumes refl: "R s s"
    and trans: "R s t \<Longrightarrow> R t u \<Longrightarrow> R s u"
begin

lemma stays_simple: "stays R pass" "stays R (throw e)"
  by (simp_all add: stays_def pass_def throw_def refl)

lemma stays_chain: "stays R (steps [])" "stays R a \<Longrightarrow> stays R (steps as) \<Longrightarrow> stays R (steps (a # as))"
proof -
  show "stays R (steps [])" by (simp add: stays_def refl)
  assume a: "stays R a" "stays R (steps as)"
  have "R s (fst (steps (a # as) s))" for s
  proof (cases "a s")
    case (Pair t e)
    have "R s t" "R t (fst (steps as t))" using staysD [OF a(1), of s] staysD [OF a(2), of t] Pair by simp_all
    then show ?thesis using Pair trans by (cases e) auto
  qed
  then show "stays R (steps (a # as))" by (simp add: stays_def)
qed

lemma stays_steps: "(\<And>a. a \<in> set as \<Longrightarrow> stays R a) \<Longrightarrow> stays R (steps as)"
  by (induction as) (auto intro: stays_chain)

lemma stays_for_each: "(\<And>x. x \<in> set xs \<Longrightarrow> stays R (f x)) \<Longrightarrow> stays R (for_each xs f)"
  by (auto simp: for_each_def intro!: stays_steps)

lemma stays_if: "(b \<Longrightarrow> stays R x) \<Longrightarrow> (\<not> b \<Longrightarrow> stays R y) \<Longrightarrow> stays R (if b then x else y)"
  by simp

lemma stays_read: "(\<And>x. stays R (f x)) \<Longrightarrow> stays R (read k v f)"
  by (auto simp: read_def stays_simple split: option.splits sum.splits)

lemma stays_read_list: "(\<And>vs. stays R (f vs)) \<Longrightarrow> stays R (read_list v f)"
  by (auto simp: read_list_def stays_simple split: sum.splits)

lemma stays_request_then:
  assumes "\<And>s. R s (fst (sendJsonRequest m p s))" and "\<And>i. stays R (f i)"
  shows "stays R (request_then m p f)"
proof -
  have "R s (fst (request_then m p f s))" for s
  proof (cases "sendJsonRequest m p s")
    case (Pair t r)
    then have "R s t" using assms(1) [of s] by simp
    then show ?thesis using Pair trans staysD [OF assms(2)] by (cases r) (auto simp: request_then_def)
  qed
  then show ?thesis by (simp add: stays_def)
qed

lemmas stays_intros = stays_simple stays_steps stays_for_each stays_if stays_read stays_read_list

end

text \<open>Among the relations: that a property, once it holds, is kept.\<close>

definition kept :: "('pg cws \<Rightarrow> bool) \<Rightarrow> 'pg cws \<Rightarrow> 'pg cws \<Rightarrow> bool" where
  "kept P s t \<longleftrightarrow> (P s \<longrightarrow> P t)"

interpretation kept: act_relation "kept P" for P
  by unfold_locales (auto simp: kept_def)

subsection \<open>Handlers keep the contract of the socket\<close>

interpretation api: act_relation page_api
  by unfold_locales (auto intro: api_nothing page_api_trans)

abbreviation page_act :: "'pg act \<Rightarrow> bool" where
  "page_act \<equiv> stays page_api"

named_theorems page_acts \<open>introduction rules for handlers that only use the operations of the page\<close>

lemmas page_act_def = stays_def [of page_api]

lemmas page_actD = staysD [of page_api]

lemmas api_intros [page_acts] = api.stays_intros

lemma page_act_simple [page_acts]: "page_act (change_page f)"
  by (auto simp: page_act_def change_page_def intro: api_nothing api_page)

lemma page_act_element [page_acts]: "page_act (set_element i f)"
  using page_actD [OF page_act_simple]
  by (auto simp: page_act_def set_element_def intro: api_nothing split: option.splits)

lemma page_act_derived [page_acts]:
  "page_act (set_inner i t)" "page_act (show_prop v k i)" "page_act (show_alert t)" "page_act set_interval"
  "page_act (store_cookie n c)"
  by (simp_all add: set_inner_def show_prop_def show_alert_def set_interval_def store_cookie_def page_acts)

lemma page_act_request_then [page_acts]: "(\<And>i. page_act (f i)) \<Longrightarrow> page_act (request_then m p f)"
  by (rule api.stays_request_then) (rule api_request [OF api_nothing])

lemma page_act_request [page_acts]: "page_act (request m p)"
  by (simp add: request_def page_acts)

lemma page_act_checked [page_acts]: "page_act rest \<Longrightarrow> page_act (checked v rest)"
  by (auto simp: checked_def page_acts checkResponseError_def intro!: api.stays_for_each
      split: option.splits json.splits prod.splits)

lemma page_callbacksI:
  assumes "\<And>cb st. page_act (state_cb H cb st)" "\<And>r. page_act (inboundRequest H r)"
    and "\<And>r q. page_act (inboundResponse H r q)" "\<And>r. page_act (inboundNotification H r)"
  shows "page_callbacks H"
  using assms by unfold_locales (simp_all add: page_actD)

subsection \<open>Looking at the document\<close>

abbreviation element_of :: "('x dom_page_scheme) cws \<Rightarrow> string \<Rightarrow> element option" where
  "element_of s i \<equiv> obj_get (dom (page s)) i"

definition shown :: "('x dom_page_scheme) cws \<Rightarrow> string \<Rightarrow> string option" where
  "shown s i = map_option inner (element_of s i)"

lemma set_inner_shown:
  assumes "shown s i \<noteq> None"
  shows "\<exists>t. set_inner i v s = (t, None) \<and> shown t = (shown s)(i \<mapsto> v)
    \<and> (\<forall>j. element_of t j = None \<longleftrightarrow> element_of s j = None)"
proof -
  obtain e where "element_of s i = Some e" using assms by (auto simp: shown_def)
  then show ?thesis
    by (auto simp: set_inner_def set_element_def change_page_def shown_def fun_eq_iff js_simps)
qed

lemma set_inner_missing: "shown s i = None \<Longrightarrow> set_inner i v s = (s, Some TypeError)"
  by (simp add: set_inner_def set_element_def shown_def split: option.splits)

subsection \<open>Handlers that leave the timers alone\<close>

text \<open>They neither set up a timer nor add or remove an element outside the tables.\<close>

definition page_frame :: "('x dom_page_scheme) cws \<Rightarrow> nat \<times> string set" where
  "page_frame s = (pollers (page s), {i. element_of s i \<noteq> None})"

definition same_frame :: "('x dom_page_scheme) cws \<Rightarrow> ('x dom_page_scheme) cws \<Rightarrow> bool" where
  "same_frame s t \<longleftrightarrow> page_frame t = page_frame s"

interpretation frame: act_relation same_frame
  by unfold_locales (auto simp: same_frame_def)

abbreviation keeps_polls :: "('x dom_page_scheme) act \<Rightarrow> bool" where
  "keeps_polls \<equiv> stays same_frame"

lemma keeps_polls_def: "keeps_polls a \<longleftrightarrow> (\<forall>s. page_frame (fst (a s)) = page_frame s)"
  by (simp add: stays_def same_frame_def)

lemma page_frame_page: "page t = page s \<Longrightarrow> page_frame t = page_frame s"
  by (simp add: page_frame_def)

named_theorems keeps_acts \<open>introduction rules for handlers that set up no timer\<close>

lemma keeps_pollsD: "keeps_polls a \<Longrightarrow> page_frame (fst (a s)) = page_frame s"
  by (simp add: keeps_polls_def)

lemmas frame_intros [keeps_acts] = frame.stays_intros

lemma keeps_change [keeps_acts]: "(\<And>pg. pollers (f pg) = pollers pg) \<Longrightarrow> (\<And>pg. dom (f pg) = dom pg) \<Longrightarrow>
    keeps_polls (change_page f)"
  by (simp add: keeps_polls_def change_page_def page_frame_def)

lemma keeps_element [keeps_acts]: "keeps_polls (set_element i f)"
  by (auto simp: keeps_polls_def set_element_def change_page_def page_frame_def js_simps
      split: option.splits)

lemma keeps_derived [keeps_acts]: "keeps_polls (set_inner i t)" "keeps_polls (show_prop v k i)" "keeps_polls (show_alert t)"
  "keeps_polls (store_cookie n c)"
  by (auto simp: set_inner_def show_prop_def show_alert_def store_cookie_def intro!: keeps_acts)

lemma page_sendJsonRequest [simp]: "page (fst (sendJsonRequest m p s)) = page s"
  by (auto simp: sendJsonRequest_def send_def Let_def split: option.splits ready_state.splits)

lemma keeps_request [keeps_acts]: "(\<And>i. keeps_polls (f i)) \<Longrightarrow> keeps_polls (request_then m p f)"
  by (rule frame.stays_request_then) (simp_all add: same_frame_def page_frame_def)

lemma keeps_request2 [keeps_acts]: "keeps_polls (request m p)"
  by (simp add: request_def keeps_acts)

lemma keeps_checked [keeps_acts]: "keeps_polls rest \<Longrightarrow> keeps_polls (checked v rest)"
  by (auto simp: checked_def keeps_acts checkResponseError_def intro!: frame.stays_for_each
      split: option.splits json.splits prod.splits)

text \<open>Sending on an open socket succeeds.\<close>

lemma request_open:
  "socket s = Some w \<Longrightarrow> fst (sockets s ! w) = OPEN \<Longrightarrow>
    \<exists>t i. sendJsonRequest m p s = (t, Inr i) \<and> request m p s = (t, None) \<and> page t = page s"
  by (simp add: request_def request_then_def pass_def sendJsonRequest_def send_def Let_def)

subsection \<open>Pages that poll\<close>

text \<open>
  A page whose state listener starts an interval timer when the socket opens.  \<open>ok\<close> is what the
  page needs for that (the elements it reads), \<open>polls\<close> the number of its timers.
\<close>

definition quiet_event :: "event \<Rightarrow> bool" where
  "quiet_event e = (case e of EvInit ok \<Rightarrow> False | EvPage \<Rightarrow> False | EvListener cb \<Rightarrow> False | _ \<Rightarrow> True)"

fun is_opening :: "event \<Rightarrow> bool" where
  "is_opening (EvOpened w) = True"
| "is_opening e = False"

locale polling_page = page_callbacks H for H :: "'pg handlers" +
  fixes ok :: "'pg \<Rightarrow> bool" and polls :: "'pg \<Rightarrow> nat"
  assumes opened: "ok (page s) \<Longrightarrow> socket s = Some w \<Longrightarrow> fst (sockets s ! w) = OPEN \<Longrightarrow>
      ok (page (fst (state_cb H cb Open_State s)))
      \<and> polls (page (fst (state_cb H cb Open_State s))) = Suc (polls (page s))"
    and closed: "page (fst (state_cb H cb Closed_State s)) = page s"
    and request_kept: "ok (page s) \<Longrightarrow> ok (page (fst (inboundRequest H r s)))
      \<and> polls (page (fst (inboundRequest H r s))) = polls (page s)"
    and response_kept: "ok (page s) \<Longrightarrow> ok (page (fst (inboundResponse H r q s)))
      \<and> polls (page (fst (inboundResponse H r q s))) = polls (page s)"
    and notification_kept: "ok (page s) \<Longrightarrow> ok (page (fst (inboundNotification H r s)))
      \<and> polls (page (fst (inboundNotification H r s))) = polls (page s)"
begin

lemma notify_one:
  assumes "stateListeners s = [cb]"
  shows "notifyStateListeners H s = Some (log_error (state_cb H cb (conn_state s) s))"
proof -
  let ?t = "log_error (state_cb H cb (conn_state s) s)"
  have "page_api s ?t" by (intro page_api_log_error state_cb_api)
  then have "stateListeners ?t = [cb]" using page_api_view assms by (fastforce simp: conn_view_def)
  then show ?thesis
    using assms unfolding notifyStateListeners_def
    by (subst notify_state_from.simps) (simp, subst notify_state_from.simps, simp)
qed

lemma page_log_error [simp]: "page (log_error r) = page (fst r)"
  by (auto simp: log_error_def log_line_def split: option.splits)

definition polling_inv :: "nat \<Rightarrow> 'pg cws \<Rightarrow> bool" where
  "polling_inv cb s \<longleftrightarrow> conn_inv s \<and> stateListeners s = [cb] \<and> ok (page s)"

lemma listeners_step:
  assumes "ws_step H s e s'" and "quiet_event e" and "stateListeners s = [cb]"
  shows "stateListeners s' = [cb]"
  using assms
proof cases
  case (step_opened w)
  obtain r where r: "notifyStateListeners H ((stopInterval (set_ready w OPEN s))\<lparr>conn_state := Open_State\<rparr>) = Some r"
    and v: "conn_view s' = conn_view r"
    by (rule onopen_view [OF step_opened(4)])
  show ?thesis
    using notifyE(1) [OF r] v assms(3)
    by (auto simp: conn_view_def stopInterval_def set_ready_def split: option.splits)
next
  case (step_message w parsed e')
  then show ?thesis using onmessage_view [OF step_message(4)] assms(3) by (simp add: conn_view_def)
next
  case (step_closed w)
  obtain r where r: "s' = startInterval (r\<lparr>socket := None\<rparr>)"
    "if conn_state (set_ready w CLOSED s) = Open_State
     then notifyStateListeners H ((log_line ''ws closed: '' (set_ready w CLOSED s))\<lparr>conn_state := Closed_State\<rparr>) = Some r
     else r = set_ready w CLOSED s"
    by (rule onclose_view [OF step_closed(4)])
  show ?thesis
    using r assms(3) notifyE(1) [of "(log_line ''ws closed: '' (set_ready w CLOSED s))\<lparr>conn_state := Closed_State\<rparr>" r]
    by (auto simp: conn_view_def startInterval_def set_ready_def log_line_def split: if_splits)
qed (auto simp: quiet_event_def checkOpen_def log_line_def)

lemma polling_step:
  assumes "ws_step H s e s'" and "quiet_event e" and "polling_inv cb s"
  shows "polling_inv cb s' \<and> polls (page s') = polls (page s) + (if is_opening e then 1 else 0)"
proof -
  have inv: "conn_inv s'" "stateListeners s' = [cb]"
    using assms step_conn_inv listeners_step by (auto simp: polling_inv_def)
  have s: "conn_inv s" "stateListeners s = [cb]" "ok (page s)" using assms(3) by (auto simp: polling_inv_def)
  from assms(1) have "ok (page s') \<and> polls (page s') = polls (page s) + (if is_opening e then 1 else 0)"
  proof cases
    case (step_opened w)
    define u where "u = (stopInterval (set_ready w OPEN s))\<lparr>conn_state := Open_State\<rparr>"
    have cu: "conn_inv u" unfolding u_def by (rule conn_inv_opened [OF s(1) step_opened(2,3)])
    have u: "stateListeners u = [cb]" "conn_state u = Open_State" "page u = page s"
      using s(2) by (auto simp: u_def stopInterval_def set_ready_def split: option.splits)
    then obtain v where v: "socket u = Some v" "fst (sockets u ! v) = OPEN"
      using cu by (auto simp: conn_inv_def)
    have "page s' = page (fst (state_cb H cb Open_State u))"
      using step_opened(4) notify_one [OF u(1)] u(2)
      by (auto simp: onopen_def u_def [symmetric] Let_def log_line_def)
    then show ?thesis using opened [of u v cb] v s(3) u(3) step_opened(1) by auto
  next
    case (step_message w parsed e')
    have "ok (page s') \<and> polls (page s') = polls (page s)"
      using step_message(4) s(3) request_kept [of s] response_kept [of s] notification_kept [of s]
      by (auto simp: onmessage_def split: option.splits sum.splits prod.splits dest: sym [of "(_, _)"])
        (metis fst_conv)+
    then show ?thesis using step_message(1) by simp
  next
    case (step_closed w)
    let ?u = "(log_line ''ws closed: '' (set_ready w CLOSED s))\<lparr>conn_state := Closed_State\<rparr>"
    have u: "stateListeners ?u = [cb]" "conn_state ?u = Closed_State" "page ?u = page s"
      using s(2) by (auto simp: log_line_def set_ready_def)
    have "page s' = page s"
      using step_closed(4) notify_one [OF u(1)] u closed [of cb ?u]
      by (auto simp: onclose_def startInterval_def set_ready_def split: if_splits)
    then show ?thesis using s(3) step_closed(1) by simp
  qed (use assms(2) s in \<open>auto simp: quiet_event_def checkOpen_def log_line_def\<close>)
  with inv show ?thesis by (simp add: polling_inv_def)
qed

lemma polling_run:
  assumes "ws_run H s es s'" and "\<forall>e \<in> set es. quiet_event e" and "polling_inv cb s"
  shows "polls (page s') = polls (page s) + length (filter is_opening es)"
  using assms
proof (induction rule: ws_run.induct)
  case (run_cons s e t es u)
  then show ?case using polling_step [OF run_cons(1), of cb] by auto
qed simp

text \<open>A course of events in which the socket opens twice.\<close>

lemma reopening:
  obtains n s where "ws_run H (addStateListener cb (ControllerWebSocket pg))
    [EvInit True, EvOpened 0, EvClosed 0, EvTick n True, EvOpened 1] s"
proof -
  let ?s0 = "addStateListener cb (ControllerWebSocket pg)"
  obtain t where t: "notifyStateListeners H ?s0 = Some t" "page_api ?s0 t" using notify_returns by blast
  define s1 where "s1 = checkOpen True t"
  have st1: "ws_step H ?s0 (EvInit True) s1" by (rule step_init) (simp add: init_def t(1) s1_def)
  have 1: "socket s1 = Some 0" "\<exists>b. sockets s1 = [(CONNECTING, b)]" "interval s1 = None"
    using page_api_view [OF t(2)]
    by (auto simp: s1_def checkOpen_def conn_view_def addStateListener_def ControllerWebSocket_def)
  obtain s2 where o2: "onopen H (set_ready 0 OPEN s1) = Some s2" using events_return(2) by blast
  have st2: "ws_step H s1 (EvOpened 0) s2" by (rule step_opened) (use 1 o2 in auto)
  obtain r2 where r2: "notifyStateListeners H ((stopInterval (set_ready 0 OPEN s1))\<lparr>conn_state := Open_State\<rparr>) = Some r2"
    "conn_view s2 = conn_view r2" by (rule onopen_view [OF o2])
  have 2: "socket s2 = Some 0" "\<exists>b. sockets s2 = [(OPEN, b)]" "interval s2 = None" "conn_state s2 = Open_State"
    using r2(2) notifyE(1) [OF r2(1)] 1 by (auto simp: conn_view_def set_ready_def stopInterval_def)
  obtain s3 where o3: "onclose H (set_ready 0 CLOSED s2) = Some s3" using events_return(3) by blast
  have st3: "ws_step H s2 (EvClosed 0) s3" by (rule step_closed) (use 2 o3 in auto)
  have c2: "conn_state (set_ready 0 CLOSED s2) = Open_State" by (simp add: set_ready_def 2(4))
  obtain r3 where r3: "s3 = startInterval (r3\<lparr>socket := None\<rparr>)"
    "notifyStateListeners H ((log_line ''ws closed: '' (set_ready 0 CLOSED s2))\<lparr>conn_state := Closed_State\<rparr>) = Some r3"
    using c2 by (auto intro: onclose_view [OF o3])
  have 3: "socket s3 = None" "\<exists>b. sockets s3 = [(CLOSED, b)]" "next_timer r3 \<in> set (timers s3)"
    using r3(1) notifyE(1) [OF r3(2)] 2 by (auto simp: conn_view_def set_ready_def log_line_def startInterval_def)
  define s4 where "s4 = checkOpen True s3"
  have st4: "ws_step H s3 (EvTick (next_timer r3) True) s4" unfolding s4_def by (rule step_tick [OF 3(3)])
  have 4: "length (sockets s4) = 2" "fst (sockets s4 ! 1) = CONNECTING"
    using 3 by (auto simp: s4_def checkOpen_def)
  obtain s5 where o5: "onopen H (set_ready 1 OPEN s4) = Some s5" using events_return(2) by blast
  have st5: "ws_step H s4 (EvOpened 1) s5" by (rule step_opened) (use 4 o5 in auto)
  show ?thesis
    by (rule that) (use st1 st2 st3 st4 st5 in \<open>blast intro: run_cons run_nil\<close>)
qed

text \<open>From the loading of the page: one timer per opening.\<close>

lemma one_poller_per_opening:
  assumes "ok pg" and "ws_run H (addStateListener cb (ControllerWebSocket pg)) (EvInit b # es) s"
    and "\<forall>e \<in> set es. quiet_event e"
  shows "polls (page s) = polls pg + length (filter is_opening es)"
proof -
  let ?s = "addStateListener cb (ControllerWebSocket pg)"
  obtain t where t: "ws_step H ?s (EvInit b) t" "ws_run H t es s"
    using assms(2) by (cases rule: ws_run.cases) auto
  have s: "stateListeners ?s = [cb]" "conn_state ?s = Closed_State" "page ?s = pg"
    by (simp_all add: addStateListener_def ControllerWebSocket_def)
  have "conn_inv ?s"
    using conn_inv_start(1) by (auto simp: addStateListener_def conn_inv_def live_def ControllerWebSocket_def)
  then have c: "conn_inv t" by (rule step_conn_inv [OF t(1)])
  have i: "init H b ?s = Some t" using t(1) by (auto elim: ws_step_initE)
  have v: "page_api ?s (log_error (state_cb H cb Closed_State ?s))"
    by (intro page_api_log_error state_cb_api)
  have "t = checkOpen b (log_error (state_cb H cb Closed_State ?s))"
    using i notify_one [OF s(1)] s(2) by (simp add: init_def)
  then have "page t = pg" "stateListeners t = [cb]"
    using closed [of cb ?s] page_api_view [OF v] s by (auto simp: checkOpen_def log_line_def conn_view_def)
  then show ?thesis
    using polling_run [OF t(2) assms(3), of cb] c assms(1) by (simp add: polling_inv_def)
qed

end

end
