(* ===== verification/Page_Dashboard.thy ===== *)
theory Page_Dashboard
  imports Page_Base
begin

text \<open>
  The scripts of \<^verbatim>\<open>web-admin/dashboard.html\<close> (lines 14-154), \<^verbatim>\<open>scheduler.html\<close> (14-111) and
  \<^verbatim>\<open>about.html\<close> (14-41): summaries shown in elements of the page.
\<close>

subsection \<open>The run state of the scheduler\<close>

definition check_icon :: string where
  "check_icon = ''<i class=\"fas fa-check-circle\"></i>''"

definition spinner_icon :: string where
  "spinner_icon = ''<i class=\"fas fa-spinner fa-pulse\">''"

definition state_id :: "json option \<Rightarrow> string" where
  "state_id st = ''scheduler_selected_'' @ to_str st"

text \<open>The loop over \<open>available_states\<close>, which the two pages share.\<close>

definition mark_states :: "json option \<Rightarrow> ('x dom_page_scheme) act" where
  "mark_states summary = read ''available_states'' summary (\<lambda>sts.
     for_each (in_values sts) (\<lambda>curState. read ''run_state'' summary (\<lambda>r.
       set_inner (state_id (Some curState)) (if strict_eq (Some curState) r then check_icon else []))))"

definition setScheduleRunState :: "string \<Rightarrow> ('x dom_page_scheme) act" where
  "setScheduleRunState newState = steps
     [set_inner (state_id (Some (JStr newState))) spinner_icon,
      request ''scheduler_set_run_state'' (Some (JObj [(''run_state'', JStr newState)]))]"

subsection \<open>The dashboard\<close>

definition dashboard_topics :: json where
  "dashboard_topics = JArr [JStr ''sensor_state_summary'', JStr ''inventory_summary'',
     JStr ''upstream_mqtt_status'', JStr ''downstream_mqtt_status'', JStr ''scheduler_run_state'']"

definition onSensorSummary :: "json option \<Rightarrow> ('x dom_page_scheme) act" where
  "onSensorSummary summary = steps
     [show_prop summary ''reading'' ''sensors_reading'',
      show_prop summary ''connected'' ''sensors_connected'',
      show_prop summary ''disconnected'' ''sensors_disconnected'']"

definition onTagStateSummary :: "json option \<Rightarrow> ('x dom_page_scheme) act" where
  "onTagStateSummary summary = steps
     [show_prop summary ''PRESENT'' ''tag_states_present'',
      show_prop summary ''EXITING'' ''tag_states_exiting'',
      show_prop summary ''DEPARTED_POS'' ''tag_states_departed_exit'',
      show_prop summary ''DEPARTED_EXIT'' ''tag_states_departed_pos'']"

definition onTagReadSummary :: "json option \<Rightarrow> ('x dom_page_scheme) act" where
  "onTagReadSummary summary = steps
     [show_prop summary ''reads_per_second'' ''tag_reads_reads_per_second'',
      show_prop summary ''within_last_01_min'' ''tag_reads_within_last_01_min'',
      show_prop summary ''from_01_to_05_min'' ''tag_reads_from_01_to_05_min'',
      show_prop summary ''from_05_to_30_min'' ''tag_reads_from_05_to_30_min'',
      show_prop summary ''from_30_to_60_min'' ''tag_reads_from_30_to_60_min'',
      show_prop summary ''from_60_min_to_24_hr'' ''tag_reads_from_60_min_to_24_hr'',
      show_prop summary ''more_than_24_hr'' ''tag_reads_more_than_24_hr'']"

definition onInventorySummary :: "json option \<Rightarrow> ('x dom_page_scheme) act" where
  "onInventorySummary summary = steps
     [read ''tag_read_summary'' summary onTagReadSummary,
      read ''tag_state_summary'' summary onTagStateSummary]"

definition append_inner :: "string \<Rightarrow> string \<Rightarrow> ('x dom_page_scheme) act" where
  "append_inner i t = set_element i (\<lambda>e. e\<lparr>inner := inner e @ t\<rparr>)"

definition list_topics :: "string \<Rightarrow> json option \<Rightarrow> ('x dom_page_scheme) act" where
  "list_topics i ts = for_each (in_values ts) (\<lambda>t.
     append_inner i (''<div class=\"w3-margin-left w3-small\">'' @ to_str (Some t) @ ''</div>''))"

definition onUpDownSummaryContent :: "string \<Rightarrow> json option \<Rightarrow> ('x dom_page_scheme) act" where
  "onUpDownSummaryContent nameId params = steps
     [show_prop params ''connection_state'' (nameId @ ''_connection_state''),
      show_prop params ''broker_uri'' (nameId @ ''_broker_uri''),
      set_inner (nameId @ ''_subscribes'') [],
      read ''subscribes'' params (list_topics (nameId @ ''_subscribes'')),
      set_inner (nameId @ ''_publishes'') [],
      read ''publishes'' params (list_topics (nameId @ ''_publishes''))]"

definition dashboard_onSchedulerSummary :: "json option \<Rightarrow> ('x dom_page_scheme) act" where
  "dashboard_onSchedulerSummary summary = checked summary (mark_states summary)"

definition dashboard_response :: "json \<Rightarrow> request \<Rightarrow> ('x dom_page_scheme) act" where
  "dashboard_response rsp req =
     (if req_method req \<in> {''scheduler_get_run_state'', ''scheduler_set_run_state''}
      then read ''result'' (Some rsp) dashboard_onSchedulerSummary else pass)"

definition dashboard_notification :: "json \<Rightarrow> ('x dom_page_scheme) act" where
  "dashboard_notification notif = read ''method'' (Some notif) (\<lambda>m.
     let params = read ''params'' (Some notif) in
     if m = Some (JStr ''sensor_state_summary'') then params onSensorSummary
     else if m = Some (JStr ''inventory_summary'') then params onInventorySummary
     else if m = Some (JStr ''upstream_mqtt_status'') then params (onUpDownSummaryContent ''upstream'')
     else if m = Some (JStr ''downstream_mqtt_status'') then params (onUpDownSummaryContent ''downstream'')
     else if m = Some (JStr ''scheduler_run_state'') then params dashboard_onSchedulerSummary
     else pass)"

definition dashboard_onSocketState :: "conn_state \<Rightarrow> ('x dom_page_scheme) act" where
  "dashboard_onSocketState st =
     (if st = Open_State then request ''scheduler_get_run_state'' None else pass)"

definition dashboard_handlers :: "('x dom_page_scheme) handlers" where
  "dashboard_handlers = unhandled_handlers\<lparr>state_cb := (\<lambda>cb. dashboard_onSocketState),
     inboundResponse := dashboard_response, inboundNotification := dashboard_notification\<rparr>"

subsection \<open>The scheduler page\<close>

text \<open>The text of a group: its members separated by commas.\<close>

definition group_text :: "json \<Rightarrow> string" where
  "group_text g = fold (\<lambda>k t. (if length t > 0 then t @ '', '' else t) @ to_str (Some k)) (in_values (Some g)) []"

definition cluster_row :: "json \<Rightarrow> js_error + string" where
  "cluster_row cluster =
     js_bind (json_prop ''id'' cluster) (\<lambda>i.
     js_bind (json_prop ''behavior_id'' cluster) (\<lambda>b.
     js_bind (json_prop ''sensor_groups'' cluster) (\<lambda>gs. Inr
       (''<tr><td class=\"w3-border-bottom w3-border-dark-grey\">'' @ to_str i
        @ ''</td><td class=\"w3-border-bottom w3-border-dark-grey\">'' @ to_str b
        @ ''</td><td class=\"w3-border-bottom w3-border-dark-grey\">''
        @ concat (map (\<lambda>g. ''<div>['' @ group_text g @ '']</div>'') (in_values gs))
        @ ''</td></tr>''))))"

fun cluster_rows :: "json list \<Rightarrow> js_error + string" where
  "cluster_rows [] = Inr []"
| "cluster_rows (c # cs) = js_bind (cluster_row c) (\<lambda>r. js_bind (cluster_rows cs) (\<lambda>rs. Inr (r @ rs)))"

text \<open>\<open>v == null || v.length === 0\<close>.\<close>

definition no_elements :: "json option \<Rightarrow> bool" where
  "no_elements v \<longleftrightarrow> v \<in> {None, Some JNull, Some (JArr []), Some (JStr [])}"

definition show_clusters :: "json option \<Rightarrow> ('x dom_page_scheme) act" where
  "show_clusters cls = (if no_elements cls then set_inner ''scheduler_clusters'' []
     else (case cluster_rows (in_values cls) of
       Inl e \<Rightarrow> throw e
     | Inr rows \<Rightarrow> set_inner ''scheduler_clusters''
         (''<table class=\"w3-table\">''
          @ ''<tr class=\"w3-grey\"><th>Cluster Id</th><th>Behavior</th><th>Sensors</th></tr>''
          @ rows @ ''</table>'')))"

definition scheduler_onSchedulerSummary :: "json option \<Rightarrow> ('x dom_page_scheme) act" where
  "scheduler_onSchedulerSummary summary = checked summary
     (steps [mark_states summary, read ''clusters'' summary show_clusters])"

definition reqeustSummary :: "'pg act" where
  "reqeustSummary = request ''scheduler_get_run_state'' None"

definition scheduler_onSocketState :: "conn_state \<Rightarrow> ('x dom_page_scheme) act" where
  "scheduler_onSocketState st = (if st = Open_State then steps [reqeustSummary, set_interval] else pass)"

definition scheduler_response :: "json \<Rightarrow> request \<Rightarrow> ('x dom_page_scheme) act" where
  "scheduler_response rsp req =
     (if req_method req \<in> {''scheduler_get_run_state'', ''scheduler_set_run_state''}
      then read ''result'' (Some rsp) scheduler_onSchedulerSummary else pass)"

definition scheduler_notification :: "json \<Rightarrow> ('x dom_page_scheme) act" where
  "scheduler_notification notif = read ''method'' (Some notif) (\<lambda>m.
     if m = Some (JStr ''scheduler_run_state'')
     then read ''params'' (Some notif) scheduler_onSchedulerSummary else pass)"

definition scheduler_handlers :: "('x dom_page_scheme) handlers" where
  "scheduler_handlers = unhandled_handlers\<lparr>state_cb := (\<lambda>cb. scheduler_onSocketState),
     inboundResponse := scheduler_response, inboundNotification := scheduler_notification\<rparr>"

subsection \<open>The about page\<close>

definition about_onSocketState :: "conn_state \<Rightarrow> ('x dom_page_scheme) act" where
  "about_onSocketState st =
     (if st = Open_State then request ''controller_get_versions'' (Some JNull) else pass)"

definition about_response :: "json \<Rightarrow> request \<Rightarrow> ('x dom_page_scheme) act" where
  "about_response rsp req = (if req_method req = ''controller_get_versions''
     then read ''result'' (Some rsp) (\<lambda>r. show_prop r ''software_version'' ''controller_software_version'')
     else pass)"

definition about_handlers :: "('x dom_page_scheme) handlers" where
  "about_handlers = unhandled_handlers\<lparr>state_cb := (\<lambda>cb. about_onSocketState),
     inboundResponse := about_response\<rparr>"

subsection \<open>The pages keep the contract of the socket\<close>

lemma page_act_marks [page_acts]: "page_act (mark_states v)"
  unfolding mark_states_def by (intro page_acts)

lemma page_act_dashboard [page_acts]:
  "page_act (onSensorSummary v)" "page_act (onTagStateSummary v)" "page_act (onTagReadSummary v)"
  "page_act (list_topics i v)" "page_act (dashboard_onSchedulerSummary v)"
  by (auto simp: onSensorSummary_def onTagStateSummary_def onTagReadSummary_def list_topics_def append_inner_def
      dashboard_onSchedulerSummary_def intro!: page_acts)

lemma page_act_dashboard2 [page_acts]:
  "page_act (onInventorySummary v)" "page_act (onUpDownSummaryContent i v)"
  by (auto simp: onInventorySummary_def onUpDownSummaryContent_def intro!: page_acts)

lemma page_act_clusters [page_acts]: "page_act (show_clusters v)"
  unfolding show_clusters_def by (cases "cluster_rows (in_values v)") (auto intro!: page_acts)

lemma page_act_scheduler [page_acts]: "page_act (scheduler_onSchedulerSummary v)"
  by (auto simp: scheduler_onSchedulerSummary_def intro!: page_acts)

lemma page_act_unhandled [page_acts]:
  "page_act (inboundRequest unhandled_handlers r)" "page_act (inboundResponse unhandled_handlers r q)"
  "page_act (inboundNotification unhandled_handlers r)"
  by (auto simp: page_act_def unhandled_handlers_def intro: api_log api_nothing)

interpretation dashboard: page_callbacks dashboard_handlers
  by (rule page_callbacksI)
    (auto simp: dashboard_handlers_def dashboard_onSocketState_def dashboard_response_def
      dashboard_notification_def Let_def intro!: page_acts)

interpretation scheduler: page_callbacks scheduler_handlers
  by (rule page_callbacksI)
    (auto simp: scheduler_handlers_def scheduler_onSocketState_def scheduler_response_def reqeustSummary_def
      scheduler_notification_def intro!: page_acts)

interpretation about: page_callbacks about_handlers
  by (rule page_callbacksI)
    (auto simp: about_handlers_def about_onSocketState_def about_response_def intro!: page_acts)

subsection \<open>What a summary shows\<close>

text \<open>Writing a list of properties into elements: the later ones win.\<close>

lemma show_props:
  assumes "\<forall>(k, i) \<in> set kis. shown s i \<noteq> None"
  shows "\<exists>t. steps (map (\<lambda>(k, i). show_prop (Some (JObj ps)) k i) kis) s = (t, None)
    \<and> shown t = shown s ++ map_of (rev (map (\<lambda>(k, i). (i, inner_text (obj_get ps k))) kis))"
  using assms
proof (induction kis arbitrary: s)
  case (Cons ki kis)
  obtain k i where ki: "ki = (k, i)" by (cases ki)
  obtain u where u: "set_inner i (inner_text (obj_get ps k)) s = (u, None)"
    "shown u = (shown s)(i \<mapsto> inner_text (obj_get ps k))"
    using set_inner_shown [of s i] Cons.prems ki by fastforce
  have "\<forall>(k, i) \<in> set kis. shown u i \<noteq> None" using Cons.prems u(2) by auto
  from Cons.IH [OF this] obtain t where
    t: "steps (map (\<lambda>(k, i). show_prop (Some (JObj ps)) k i) kis) u = (t, None)"
      "shown t = shown u ++ map_of (rev (map (\<lambda>(k, i). (i, inner_text (obj_get ps k))) kis))" by blast
  show ?case
    unfolding ki using u(1) t(1) by (intro exI [of _ t]) (simp add: show_prop_def read_def t(2) u(2))
qed simp

lemma for_each_inner:
  assumes "\<forall>x \<in> set xs. shown s (f x) \<noteq> None"
  shows "\<exists>t. for_each xs (\<lambda>x. set_inner (f x) (g x)) s = (t, None)
    \<and> shown t = shown s ++ map_of (rev (map (\<lambda>x. (f x, g x)) xs))"
  using assms
proof (induction xs arbitrary: s)
  case (Cons x xs)
  obtain u where u: "set_inner (f x) (g x) s = (u, None)" "shown u = (shown s)(f x \<mapsto> g x)"
    using set_inner_shown [of s "f x" "g x"] Cons.prems by auto
  have "\<forall>x \<in> set xs. shown u (f x) \<noteq> None" using Cons.prems u(2) by auto
  from Cons.IH [OF this] obtain t where
    t: "for_each xs (\<lambda>x. set_inner (f x) (g x)) u = (t, None)"
      "shown t = shown u ++ map_of (rev (map (\<lambda>x. (f x, g x)) xs))" by blast
  show ?case
    using u(1) t(1) by (intro exI [of _ t]) (simp add: for_each_def t(2) u(2))
qed (simp add: for_each_def)

lemma map_of_keyed: "inj f \<Longrightarrow> map_of (map (\<lambda>x. (f x, g x)) xs) (f y) = (if y \<in> set xs then Some (g y) else None)"
  by (induction xs) (auto simp: inj_eq)

text \<open>
  C28: A run state notification marks exactly the state it names.  When the summary lists states
  that have an element on the page and names the current one, the message is handled without
  an error, the element of the current state shows the check mark, those of the other listed
  states are empty, and no other element changes.
\<close>

theorem run_state_marked:
  assumes "obj_get ps ''error'' = None" and "obj_get ps ''available_states'' = Some (JArr (map JStr sts))"
    and "obj_get ps ''run_state'' = Some (JStr r)"
    and "\<forall>st \<in> set sts. shown s (''scheduler_selected_'' @ st) \<noteq> None"
  shows "\<exists>t. onmessage dashboard_handlers
        (Some (JObj [(''method'', JStr ''scheduler_run_state''), (''params'', JObj ps)])) s = (t, None)
    \<and> (\<forall>st \<in> set sts. shown t (''scheduler_selected_'' @ st) = Some (if st = r then check_icon else []))
    \<and> (\<forall>i. (\<forall>st \<in> set sts. i \<noteq> ''scheduler_selected_'' @ st) \<longrightarrow> shown t i = shown s i)"
proof -
  let ?f = "\<lambda>st. ''scheduler_selected_'' @ st" and ?g = "\<lambda>st. if st = r then check_icon else []"
  have run: "onmessage dashboard_handlers
      (Some (JObj [(''method'', JStr ''scheduler_run_state''), (''params'', JObj ps)])) s =
      for_each sts (\<lambda>st. set_inner (?f st) (?g st)) s"
    using assms(1-3)
    by (simp add: onmessage_def dashboard_handlers_def dashboard_notification_def read_def Let_def
        dashboard_onSchedulerSummary_def checked_def checkResponseError_def mark_states_def state_id_def
        to_str_def for_each_def comp_def)
  obtain t where t: "for_each sts (\<lambda>st. set_inner (?f st) (?g st)) s = (t, None)"
    "shown t = shown s ++ map_of (rev (map (\<lambda>st. (?f st, ?g st)) sts))"
    using for_each_inner [of sts s ?f ?g] assms(4) by auto
  have g: "map_of (rev (map (\<lambda>st. (?f st, ?g st)) sts)) (?f st) = (if st \<in> set sts then Some (?g st) else None)" for st
    using map_of_keyed [of ?f ?g "rev sts" st] by (simp add: rev_map inj_def)
  have "map_of (rev (map (\<lambda>st. (?f st, ?g st)) sts)) i = None" if "\<forall>st \<in> set sts. i \<noteq> ?f st" for i
    using that by (auto simp: map_of_eq_None_iff)
  then show ?thesis using run t g by (auto simp: map_add_def split: option.splits)
qed

definition demo_dashboard :: "unit dom_page_ext cws" where
  "demo_dashboard = ControllerWebSocket \<lparr>dom = map (\<lambda>i. (i, blank_element))
     [''scheduler_selected_INACTIVE'', ''scheduler_selected_ALL_ON'', ''tag_states_present'', ''tag_states_exiting'',
      ''tag_states_departed_exit'', ''tag_states_departed_pos''], alerts = [], pollers = 0, cookies = []\<rparr>"

lemma demo_dashboard_shown:
  "shown demo_dashboard i = (if i \<in> {''scheduler_selected_INACTIVE'', ''scheduler_selected_ALL_ON'', ''tag_states_present'',
      ''tag_states_exiting'', ''tag_states_departed_exit'', ''tag_states_departed_pos''} then Some [] else None)"
  by (simp add: shown_def demo_dashboard_def ControllerWebSocket_def blank_element_def)

theorem run_state_marked_witness:
  "\<exists>t. onmessage dashboard_handlers (Some (JObj [(''method'', JStr ''scheduler_run_state''),
      (''params'', JObj [(''run_state'', JStr ''ALL_ON''), (''available_states'', JArr [JStr ''INACTIVE'', JStr ''ALL_ON''])])]))
      demo_dashboard = (t, None) \<and> shown t ''scheduler_selected_ALL_ON'' = Some check_icon"
  using run_state_marked [of "[(''run_state'', JStr ''ALL_ON''), (''available_states'', JArr [JStr ''INACTIVE'', JStr ''ALL_ON''])]"
      "[''INACTIVE'', ''ALL_ON'']" "''ALL_ON''" demo_dashboard]
  by (auto simp: demo_dashboard_shown)

text \<open>
  The two tiles of the departed tags are exchanged.  The tile of the tags that left through
  an exit shows the count of those sold at a point of sale, and the other way round; the tiles
  of the present and of the exiting tags show their own counts.
\<close>

theorem departed_tiles_exchanged:
  assumes "\<forall>i \<in> {''tag_states_present'', ''tag_states_exiting'', ''tag_states_departed_exit'', ''tag_states_departed_pos''}.
      shown s i \<noteq> None"
  shows "\<exists>t. onTagStateSummary (Some (JObj ps)) s = (t, None)
    \<and> shown t ''tag_states_present'' = Some (inner_text (obj_get ps ''PRESENT''))
    \<and> shown t ''tag_states_exiting'' = Some (inner_text (obj_get ps ''EXITING''))
    \<and> shown t ''tag_states_departed_exit'' = Some (inner_text (obj_get ps ''DEPARTED_POS''))
    \<and> shown t ''tag_states_departed_pos'' = Some (inner_text (obj_get ps ''DEPARTED_EXIT''))"
  using show_props [of "[(''PRESENT'', ''tag_states_present''), (''EXITING'', ''tag_states_exiting''),
      (''DEPARTED_POS'', ''tag_states_departed_exit''), (''DEPARTED_EXIT'', ''tag_states_departed_pos'')]" s ps] assms
  by (auto simp: onTagStateSummary_def simp del: steps.simps)

theorem departed_tiles_exchanged_witness:
  "\<exists>t. onTagStateSummary (Some (JObj [(''DEPARTED_EXIT'', JNum (Fin 3)), (''DEPARTED_POS'', JNum (Fin 8))])) demo_dashboard = (t, None)
    \<and> shown t ''tag_states_departed_exit'' = Some ''8''"
proof -
  have "num_str (Fin 8) = ''8''" by code_simp
  then show ?thesis
    using departed_tiles_exchanged [of demo_dashboard "[(''DEPARTED_EXIT'', JNum (Fin 3)), (''DEPARTED_POS'', JNum (Fin 8))]"]
    by (auto simp: demo_dashboard_shown inner_text_def to_str_def)
qed

subsection \<open>Timers of the scheduler page\<close>

lemma keeps_marks [keeps_acts]: "keeps_polls (mark_states v)"
  unfolding mark_states_def by (intro keeps_acts)

lemma keeps_clusters [keeps_acts]: "keeps_polls (show_clusters v)"
  unfolding show_clusters_def by (cases "cluster_rows (in_values v)") (auto intro!: keeps_acts)

lemma keeps_scheduler [keeps_acts]: "keeps_polls (scheduler_onSchedulerSummary v)"
  by (auto simp: scheduler_onSchedulerSummary_def intro!: keeps_acts)

lemma keeps_scheduler_messages:
  "keeps_polls (scheduler_response r q)" "keeps_polls (scheduler_notification r)"
  by (auto simp: scheduler_response_def scheduler_notification_def intro!: keeps_acts)

interpretation scheduler_polls: polling_page scheduler_handlers "\<lambda>pg. True" pollers
proof unfold_locales
  fix s :: "('a dom_page_scheme) cws" and w cb
  assume "socket s = Some w" "fst (sockets s ! w) = OPEN"
  from request_open [OF this] show "True \<and> pollers (page (fst (state_cb scheduler_handlers cb Open_State s))) = Suc (pollers (page s))"
    by (auto simp: scheduler_handlers_def scheduler_onSocketState_def reqeustSummary_def set_interval_def change_page_def
        split: prod.splits option.splits) (metis Pair_inject option.distinct(1))+
next
  fix r q and s :: "('a dom_page_scheme) cws"
  show "True \<and> pollers (page (fst (inboundResponse scheduler_handlers r q s))) = pollers (page s)"
    "True \<and> pollers (page (fst (inboundNotification scheduler_handlers r s))) = pollers (page s)"
    using keeps_pollsD [OF keeps_scheduler_messages(1), of r q s] keeps_pollsD [OF keeps_scheduler_messages(2), of r s]
    by (simp_all add: scheduler_handlers_def page_frame_def)
qed (simp_all add: scheduler_handlers_def scheduler_onSocketState_def pass_def unhandled_handlers_def log_line_def)

text \<open>
  The scheduler page starts a timer every time its socket opens and never stops one.  After
  any course of openings, losses, reconnection ticks and messages, as many timers poll the
  controller as the socket has been opened.
\<close>

theorem scheduler_timers_pile_up:
  assumes "ws_run scheduler_handlers (addStateListener cb (ControllerWebSocket pg)) (EvInit b # es) s"
    and "\<forall>e \<in> set es. quiet_event e"
  shows "pollers (page s) = pollers pg + length (filter is_opening es)"
  by (rule scheduler_polls.one_poller_per_opening [OF TrueI assms])

definition demo_scheduler :: "unit dom_page_ext" where
  "demo_scheduler = \<lparr>dom = [], alerts = [], pollers = 0, cookies = []\<rparr>"

theorem scheduler_timers_pile_up_witness:
  "\<exists>es s. ws_run scheduler_handlers (addStateListener 0 (ControllerWebSocket demo_scheduler)) es s \<and> pollers (page s) = 2"
proof -
  obtain n and s :: "unit dom_page_ext cws" where r: "ws_run scheduler_handlers (addStateListener 0 (ControllerWebSocket demo_scheduler))
      [EvInit True, EvOpened 0, EvClosed 0, EvTick n True, EvOpened 1] s"
    by (rule scheduler_polls.reopening)
  have "pollers (page s) = 2"
    using scheduler_timers_pile_up [OF r] by (simp add: quiet_event_def demo_scheduler_def)
  then show ?thesis using r by blast
qed

end
