(* ===== verification/Page_Rows.thy ===== *)
theory Page_Rows
  imports Page_Base
begin

text \<open>
  The tables of the inventory and of the two sensor pages: rows of \<open>div\<close> elements inside the
  element \<open>table_data\<close>, one per key (an EPC, a device id), created on demand and inserted in the
  order of their keys.
\<close>

subsection \<open>The table\<close>

text \<open>
  A child of \<open>table_data\<close> is a text node or a row, which has an id and holds the elements of its
  cells (itself among them) by their ids.
\<close>

datatype child = TextNode | RowNode string "element obj"

record rows_page = dom_page +
  table :: "child list"

fun child_id :: "child \<Rightarrow> string option" where
  "child_id TextNode = None"
| "child_id (RowNode i els) = Some i"

text \<open>\<open>child.id > key\<close>: a text node has no id, and \<open>undefined\<close> is greater than nothing.\<close>

definition comes_after :: "child \<Rightarrow> string \<Rightarrow> bool" where
  "comes_after c key = (case child_id c of None \<Rightarrow> False | Some i \<Rightarrow> key < i)"

text \<open>
  The loop over the children and the insertion: before the first child that comes after the
  key, else at the end.
\<close>

fun insert_row :: "string \<Rightarrow> child \<Rightarrow> child list \<Rightarrow> child list" where
  "insert_row key new [] = [new]"
| "insert_row key new (c # cs) = (if comes_after c key then new # c # cs else c # insert_row key new cs)"

text \<open>\<open>document.getElementById\<close>: the elements outside the table, then the rows in their order.\<close>

fun find_in_rows :: "string \<Rightarrow> child list \<Rightarrow> element option" where
  "find_in_rows i [] = None"
| "find_in_rows i (TextNode # cs) = find_in_rows i cs"
| "find_in_rows i (RowNode r els # cs) =
     (case obj_get els i of Some e \<Rightarrow> Some e | None \<Rightarrow> find_in_rows i cs)"

fun set_in_rows :: "string \<Rightarrow> (element \<Rightarrow> element) \<Rightarrow> child list \<Rightarrow> child list" where
  "set_in_rows i f [] = []"
| "set_in_rows i f (TextNode # cs) = TextNode # set_in_rows i f cs"
| "set_in_rows i f (RowNode r els # cs) =
     (case obj_get els i of Some e \<Rightarrow> RowNode r (obj_set i (f e) els) # cs
      | None \<Rightarrow> RowNode r els # set_in_rows i f cs)"

definition getElementById :: "string \<Rightarrow> ('x rows_page_scheme) cws \<Rightarrow> element option" where
  "getElementById i s = (case element_of s i of
     Some e \<Rightarrow> Some e | None \<Rightarrow> find_in_rows i (table (page s)))"

definition on_element :: "string \<Rightarrow> (element \<Rightarrow> element) \<Rightarrow> ('x rows_page_scheme) act" where
  "on_element i f s = (if element_of s i \<noteq> None then set_element i f s
     else if find_in_rows i (table (page s)) = None then (s, Some TypeError)
     else change_page (\<lambda>pg. pg\<lparr>table := set_in_rows i f (table pg)\<rparr>) s)"

definition put_inner :: "string \<Rightarrow> string \<Rightarrow> ('x rows_page_scheme) act" where
  "put_inner i t = on_element i (\<lambda>e. e\<lparr>inner := t\<rparr>)"

definition clear_table :: "('x rows_page_scheme) act" where
  "clear_table = change_page (\<lambda>pg. pg\<lparr>table := []\<rparr>)"

text \<open>A new cell: a class, an id and three no-break spaces.\<close>

definition createStandardColumn :: "string \<Rightarrow> string \<Rightarrow> string \<times> element" where
  "createStandardColumn cls i =
     (i, blank_element\<lparr>className := cls, inner := ''&nbsp;&nbsp;&nbsp;''\<rparr>)"

text \<open>A row is created unless the element looked for exists.\<close>

definition create_row :: "(string \<Rightarrow> element obj) \<Rightarrow> string \<Rightarrow> ('x rows_page_scheme) act" where
  "create_row cells key = change_page (\<lambda>pg. pg\<lparr>table :=
     insert_row key (RowNode (key @ ''.row'') (cells key)) (table pg)\<rparr>)"

definition establish :: "(string \<Rightarrow> element obj) \<Rightarrow> string \<Rightarrow> string \<Rightarrow> ('x rows_page_scheme) act" where
  "establish cells key suffix s =
     (if getElementById (key @ suffix) s = None then create_row cells key s else (s, None))"

subsection \<open>Handlers\<close>

lemma page_act_on_element [page_acts]: "page_act (on_element i f)"
  using page_actD [OF page_act_element] page_actD [OF page_act_simple]
  by (auto simp: page_act_def on_element_def intro: api_nothing)

lemma page_act_rows [page_acts]:
  "page_act (put_inner i t)" "page_act clear_table" "page_act (create_row cells k)" "page_act (establish cells k x)"
  using page_actD [OF page_act_simple]
  by (auto simp: page_act_def put_inner_def clear_table_def create_row_def establish_def
      intro: api_nothing page_actD [OF page_act_on_element])

lemma page_frame_table [simp]: "page_frame (s\<lparr>page := (page s)\<lparr>table := cs\<rparr>\<rparr>) = page_frame s"
  by (simp add: page_frame_def)

lemma keeps_on_element [keeps_acts]: "keeps_polls (on_element i f)"
  using keeps_element [of i f] by (auto simp: keeps_polls_def on_element_def change_page_def)

lemma keeps_rows [keeps_acts]:
  "keeps_polls (put_inner i t)" "keeps_polls clear_table" "keeps_polls (create_row cells k)"
  "keeps_polls (establish cells k x)"
  using keeps_on_element
  by (auto simp: put_inner_def clear_table_def create_row_def establish_def keeps_polls_def change_page_def)

subsection \<open>Keys\<close>

text \<open>
  The id of a row is compared with a bare key.  The comparison is that of the keys when neither
  key begins the other.
\<close>

definition apart :: "string \<Rightarrow> string \<Rightarrow> bool" where
  "apart a b \<longleftrightarrow> \<not> starts_with a b \<and> \<not> starts_with b a"

definition prefix_free :: "string set \<Rightarrow> bool" where
  "prefix_free ks \<longleftrightarrow> (\<forall>a \<in> ks. \<forall>b \<in> ks. a = b \<or> apart a b)"

lemma apart_less: "apart a b \<Longrightarrow> a < b @ x \<longleftrightarrow> a < b"
proof (induction a arbitrary: b)
  case (Cons c a)
  then show ?case by (cases b) (auto simp: apart_def)
qed (simp add: apart_def)

lemma same_length_apart: "length a = length b \<Longrightarrow> a \<noteq> b \<Longrightarrow> apart a b"
  by (auto simp: apart_def starts_with_iff)

lemma same_length_prefix_free: "\<forall>k \<in> ks. length k = n \<Longrightarrow> prefix_free ks"
  by (auto simp: prefix_free_def intro: same_length_apart)

text \<open>The suffixes of the ids: a dot and a name without dots.\<close>

definition is_suffix :: "string \<Rightarrow> bool" where
  "is_suffix x \<longleftrightarrow> (\<exists>w. x = CHR ''.'' # w \<and> CHR ''.'' \<notin> set w)"

lemma is_suffix_code [code]: "is_suffix x \<longleftrightarrow> (case x of [] \<Rightarrow> False | c # w \<Rightarrow> c = CHR ''.'' \<and> CHR ''.'' \<notin> set w)"
  by (auto simp: is_suffix_def split: list.splits)

lemma suffix_unique:
  assumes "a @ x = b @ y" "is_suffix x" "is_suffix y"
  shows "a = b \<and> x = y"
proof -
  obtain v w where vw: "x = CHR ''.'' # v" "y = CHR ''.'' # w" "CHR ''.'' \<notin> set v" "CHR ''.'' \<notin> set w"
    using assms(2,3) by (auto simp: is_suffix_def)
  have "rev v @ CHR ''.'' # rev a = rev w @ CHR ''.'' # rev b"
    using assms(1) by (metis vw(1,2) append.assoc append_Cons append_Nil rev.simps(2) rev_append)
  then have "takeWhile (\<lambda>c. c \<noteq> CHR ''.'') (rev v @ CHR ''.'' # rev a) = takeWhile (\<lambda>c. c \<noteq> CHR ''.'') (rev w @ CHR ''.'' # rev b)"
    by simp
  moreover have "takeWhile (\<lambda>c. c \<noteq> CHR ''.'') (rev u @ CHR ''.'' # z) = rev u" if "CHR ''.'' \<notin> set u" for u z
    using that by (subst takeWhile_append2) auto
  ultimately have "v = w" using vw(3,4) by simp
  then show ?thesis using assms(1) vw by simp
qed

subsection \<open>Looking up and writing cells\<close>

lemma find_set_in_rows:
  "find_in_rows i cs \<noteq> None \<Longrightarrow>
    find_in_rows j (set_in_rows i f cs) = (if j = i then map_option f (find_in_rows i cs) else find_in_rows j cs)"
  by (induction i f cs rule: set_in_rows.induct) (auto simp: js_simps split: option.splits)

lemma find_insert_row:
  "obj_get els i = None \<Longrightarrow> find_in_rows i (insert_row key (RowNode r els) cs) = find_in_rows i cs"
  "find_in_rows i cs = None \<Longrightarrow> find_in_rows i (insert_row key (RowNode r els) cs) = obj_get els i"
  by (induction key "RowNode r els" cs rule: insert_row.induct) (auto split: option.splits, (case_tac c, auto split: option.splits)+)

text \<open>The texts of the page, by the ids of the elements.\<close>

definition text_of :: "('x rows_page_scheme) cws \<Rightarrow> string \<Rightarrow> string option" where
  "text_of s i = map_option inner (getElementById i s)"

lemma text_of_page: "page t = page s \<Longrightarrow> text_of t = text_of s"
  by (simp add: text_of_def getElementById_def fun_eq_iff split: option.splits)

lemma on_element_effect:
  assumes "getElementById i s = Some e"
  shows "\<exists>t. on_element i f s = (t, None) \<and> text_of t = (text_of s)(i \<mapsto> inner (f e)) \<and>
    (table (page t) = table (page s) \<or> table (page t) = set_in_rows i f (table (page s)))"
proof (cases "element_of s i")
  case None
  then show ?thesis
    using assms
    by (auto simp: text_of_def on_element_def getElementById_def change_page_def fun_eq_iff
        find_set_in_rows split: option.splits)
next
  case (Some e)
  then show ?thesis
    using assms
    by (auto simp: text_of_def on_element_def getElementById_def set_element_def change_page_def
        fun_eq_iff js_simps split: option.splits)
qed

subsection \<open>Tables with a row for each key\<close>

text \<open>
  What the pages promise about their rows: the cells of a key have the ids made of the key and
  the suffixes, among them that of the row.
\<close>

locale row_table =
  fixes cells :: "string \<Rightarrow> element obj" and suffixes :: "string list"
  assumes cell_ids: "obj_keys (cells k) = map (\<lambda>x. k @ x) suffixes"
    and suffix: "x \<in> set suffixes \<Longrightarrow> is_suffix x"
begin

definition is_row :: "string \<Rightarrow> child \<Rightarrow> bool" where
  "is_row k c \<longleftrightarrow> (\<exists>els. c = RowNode (k @ ''.row'') els \<and> obj_keys els = map (\<lambda>x. k @ x) suffixes)"

definition table_of :: "string list \<Rightarrow> child list \<Rightarrow> bool" where
  "table_of ks cs \<longleftrightarrow> list_all2 is_row ks (filter (\<lambda>c. c \<noteq> TextNode) cs)"

lemma table_of_simps [simp]:
  "table_of ks [] \<longleftrightarrow> ks = []"
  "table_of ks (TextNode # cs) \<longleftrightarrow> table_of ks cs"
  "table_of [] (RowNode i els # cs) \<longleftrightarrow> False"
  "table_of (k # ks) (RowNode i els # cs) \<longleftrightarrow>
     i = k @ ''.row'' \<and> obj_keys els = map (\<lambda>x. k @ x) suffixes \<and> table_of ks cs"
  by (auto simp: table_of_def is_row_def)

lemma table_of_RowE:
  assumes "table_of ks (RowNode i els # cs)"
  obtains k ks' where "ks = k # ks'" "i = k @ ''.row''" "obj_keys els = map (\<lambda>x. k @ x) suffixes" "table_of ks' cs"
  using assms by (cases ks) auto

text \<open>A new row keeps the keys in their order.\<close>

lemma insert_row_table:
  assumes "table_of ks cs" "\<forall>k \<in> set ks. apart key k" "sorted_wrt (<) ks"
  shows "table_of (insort key ks) (insert_row key (RowNode (key @ ''.row'') (cells key)) cs)
    \<and> sorted_wrt (<) (insort key ks)"
proof -
  have t: "table_of (insort key ks) (insert_row key (RowNode (key @ ''.row'') (cells key)) cs)"
    using assms
  proof (induction cs arbitrary: ks)
    case (Cons c cs)
    show ?case
    proof (cases c)
      case (RowNode i els)
      with Cons.prems(1) obtain k ks' where k: "ks = k # ks'" "i = k @ ''.row''"
        "obj_keys els = map (\<lambda>x. k @ x) suffixes" "table_of ks' cs" by (auto elim: table_of_RowE)
      have "apart key k" using Cons.prems(2) k by simp
      moreover from this have "key \<noteq> k" by (auto simp: apart_def starts_with_iff)
      ultimately have "key < k @ ''.row'' \<longleftrightarrow> key \<le> k" by (auto simp: apart_less)
      then show ?thesis
        using Cons k RowNode by (auto simp: comes_after_def cell_ids)
    qed (use Cons in \<open>simp add: comes_after_def\<close>)
  qed (simp add: cell_ids)
  have "key \<notin> set ks" using assms(2) by (auto simp: apart_def starts_with_iff)
  then have "sorted_wrt (<) (insort key ks)"
    using assms(3) by (auto simp: strict_sorted_iff sorted_insort distinct_insort)
  with t show ?thesis by simp
qed

lemma find_in_rows_iff:
  assumes "table_of ks cs" "x \<in> set suffixes"
  shows "find_in_rows (k @ x) cs \<noteq> None \<longleftrightarrow> k \<in> set ks"
  using assms(1)
proof (induction cs arbitrary: ks)
  case (Cons c cs)
  show ?case
  proof (cases c)
    case (RowNode i els)
    with Cons.prems obtain k' ks' where k: "ks = k' # ks'" "obj_keys els = map (\<lambda>x. k' @ x) suffixes" "table_of ks' cs"
      by (auto elim: table_of_RowE)
    have "k @ x \<in> (\<lambda>x. k' @ x) ` set suffixes \<longleftrightarrow> k = k'"
      using assms(2) suffix_unique [of k x k'] suffix by blast
    then have "obj_get els (k @ x) \<noteq> None \<longleftrightarrow> k = k'"
      using arg_cong [OF k(2), of set] by (simp add: map_of_eq_None_iff)
    then show ?thesis using Cons.IH [OF k(3)] RowNode k(1) by (auto split: option.splits)
  qed (use Cons in simp)
qed simp

lemma set_in_rows_table: "table_of ks cs \<Longrightarrow> table_of ks (set_in_rows i f cs)"
proof (induction cs arbitrary: ks)
  case (Cons c cs)
  show ?case
  proof (cases c)
    case (RowNode r els)
    with Cons.prems obtain k' ks' where "ks = k' # ks'" "r = k' @ ''.row''"
      "obj_keys els = map (\<lambda>x. k' @ x) suffixes" "table_of ks' cs" by (auto elim: table_of_RowE)
    moreover have "i \<in> set (obj_keys els)" if "obj_get els i = Some e" for e
      using map_of_SomeD [OF that] by force
    ultimately show ?thesis using Cons.IH RowNode by (auto simp: obj_keys_set split: option.splits)
  qed (use Cons in simp)
qed simp

end

subsection \<open>Rows on demand\<close>

definition static_ids :: "('x rows_page_scheme) cws \<Rightarrow> bool" where
  "static_ids s \<longleftrightarrow> (\<forall>i. element_of s i \<noteq> None \<longrightarrow> CHR ''.'' \<notin> set i)"

lemma static_ids_frame: "page_frame t = page_frame s \<Longrightarrow> static_ids t = static_ids s"
proof -
  assume "page_frame t = page_frame s"
  then have "{i. element_of t i \<noteq> None} = {i. element_of s i \<noteq> None}" by (simp add: page_frame_def)
  then have "element_of t i \<noteq> None \<longleftrightarrow> element_of s i \<noteq> None" for i by blast
  then show ?thesis by (simp add: static_ids_def)
qed

definition with_key :: "string \<Rightarrow> string list \<Rightarrow> string list" where
  "with_key k ks = (if k \<in> set ks then ks else insort k ks)"

lemma set_with_key [simp]: "set (with_key k ks) = insert k (set ks)"
  by (auto simp: with_key_def set_insort_key)

context row_table
begin

definition rows_ok :: "string list \<Rightarrow> ('x rows_page_scheme) cws \<Rightarrow> bool" where
  "rows_ok ks s \<longleftrightarrow> table_of ks (table (page s)) \<and> sorted_wrt (<) ks \<and> static_ids s"

lemma rows_ok_static: "rows_ok ks s \<Longrightarrow> x \<in> set suffixes \<Longrightarrow> element_of s (k @ x) = None"
  using suffix by (force simp: rows_ok_def static_ids_def is_suffix_def)

lemma rows_ok_text: "rows_ok ks s \<Longrightarrow> x \<in> set suffixes \<Longrightarrow> text_of s (k @ x) \<noteq> None \<longleftrightarrow> k \<in> set ks"
  using rows_ok_static [of ks s x k] find_in_rows_iff [of ks "table (page s)" x k]
  by (simp add: rows_ok_def text_of_def getElementById_def)

lemma on_effect:
  assumes "rows_ok ks s" and "getElementById i s = Some e"
  shows "\<exists>t. on_element i f s = (t, None) \<and> rows_ok ks t \<and> text_of t = (text_of s)(i \<mapsto> inner (f e))"
proof -
  obtain t where t: "on_element i f s = (t, None)" "text_of t = (text_of s)(i \<mapsto> inner (f e))"
    "table (page t) = table (page s) \<or> table (page t) = set_in_rows i f (table (page s))"
    using on_element_effect [OF assms(2)] by blast
  have "page_frame t = page_frame s" using keeps_pollsD [OF keeps_on_element, of i f s] t(1) by simp
  from static_ids_frame [OF this] have "rows_ok ks t"
    using assms(1) t(3) set_in_rows_table by (auto simp: rows_ok_def)
  with t show ?thesis by blast
qed

lemma put_effect:
  assumes "rows_ok ks s" and "text_of s i \<noteq> None"
  shows "\<exists>t. put_inner i v s = (t, None) \<and> rows_ok ks t \<and> text_of t = (text_of s)(i \<mapsto> v)"
proof -
  obtain e where "getElementById i s = Some e" using assms(2) by (auto simp: text_of_def)
  from on_effect [OF assms(1) this, of "\<lambda>e. e\<lparr>inner := v\<rparr>"] show ?thesis by (simp add: put_inner_def)
qed

lemma puts_effect:
  assumes "rows_ok ks s" and "\<forall>(i, v) \<in> set ivs. text_of s i \<noteq> None"
  shows "\<exists>t. steps (map (\<lambda>(i, v). put_inner i v) ivs) s = (t, None) \<and> rows_ok ks t
    \<and> text_of t = text_of s ++ map_of (rev ivs)"
  using assms
proof (induction ivs arbitrary: s)
  case (Cons iv ivs)
  obtain i v where iv: "iv = (i, v)" by (cases iv)
  obtain u where u: "put_inner i v s = (u, None)" "rows_ok ks u" "text_of u = (text_of s)(i \<mapsto> v)"
    using put_effect [OF Cons.prems(1)] Cons.prems(2) iv by fastforce
  have "\<forall>(i, v) \<in> set ivs. text_of u i \<noteq> None" using Cons.prems(2) u(3) by auto
  from Cons.IH [OF u(2) this] obtain t where
    t: "steps (map (\<lambda>(i, v). put_inner i v) ivs) u = (t, None)" "rows_ok ks t" "text_of t = text_of u ++ map_of (rev ivs)"
    by blast
  show ?case unfolding iv using u(1) t by (intro exI [of _ t]) (simp add: u(3))
qed simp

lemma establish_effect:
  assumes "rows_ok ks s" and "x \<in> set suffixes" and "prefix_free (insert k (set ks))"
  shows "\<exists>t. establish cells k x s = (t, None) \<and> rows_ok (with_key k ks) t
    \<and> (\<forall>i. i \<notin> (\<lambda>x. k @ x) ` set suffixes \<longrightarrow> text_of t i = text_of s i)
    \<and> (k \<in> set ks \<longrightarrow> t = s) \<and> page_frame t = page_frame s
    \<and> (k \<notin> set ks \<longrightarrow> (\<forall>x \<in> set suffixes. text_of t (k @ x) = map_option inner (obj_get (cells k) (k @ x))))"
proof (cases "k \<in> set ks")
  case True
  then obtain e where "getElementById (k @ x) s = Some e"
    using rows_ok_text [OF assms(1,2), of k] by (auto simp: text_of_def)
  then show ?thesis using assms(1) True by (simp add: establish_def with_key_def)
next
  case False
  then have "getElementById (k @ x) s = None" using rows_ok_text [OF assms(1,2), of k] by (auto simp: text_of_def)
  then have e: "establish cells k x s = create_row cells k s" by (simp add: establish_def)
  define cs where "cs = insert_row k (RowNode (k @ ''.row'') (cells k)) (table (page s))"
  define t where "t = s\<lparr>page := (page s)\<lparr>table := cs\<rparr>\<rparr>"
  have t: "create_row cells k s = (t, None)" by (simp add: create_row_def change_page_def t_def cs_def)
  have "\<forall>k' \<in> set ks. apart k k'" using assms(3) False by (auto simp: prefix_free_def)
  then have "table_of (insort k ks) cs \<and> sorted_wrt (<) (insort k ks)"
    unfolding cs_def using assms(1) by (intro insert_row_table) (auto simp: rows_ok_def)
  then have r: "rows_ok (with_key k ks) t"
    using assms(1) False by (auto simp: rows_ok_def t_def with_key_def static_ids_def)
  have "text_of t i = text_of s i" if "i \<notin> (\<lambda>x. k @ x) ` set suffixes" for i
  proof -
    have "obj_get (cells k) i = None"
      using that arg_cong [OF cell_ids [of k], of set] by (simp add: map_of_eq_None_iff)
    then show ?thesis
      using find_insert_row(1) [of "cells k" i k "k @ ''.row''"]
      by (simp add: t_def text_of_def getElementById_def cs_def split: option.splits)
  qed
  moreover have "text_of t (k @ x) = map_option inner (obj_get (cells k) (k @ x))" if "x \<in> set suffixes" for x
  proof -
    have "find_in_rows (k @ x) (table (page s)) = None"
      using find_in_rows_iff [OF _ that, of ks "table (page s)" k] assms(1) False by (auto simp: rows_ok_def)
    then show ?thesis
      using find_insert_row(2) rows_ok_static [OF assms(1) that]
      by (simp add: t_def text_of_def getElementById_def cs_def)
  qed
  ultimately show ?thesis using e t r False by (auto simp: t_def)
qed

lemma establish_puts:
  assumes "rows_ok ks s" and "x \<in> set suffixes" and "prefix_free (insert k (set ks))"
    and "\<forall>(y, v) \<in> set yvs. y \<in> set suffixes"
  shows "\<exists>t. steps (establish cells k x # map (\<lambda>(y, v). put_inner (k @ y) v) yvs) s = (t, None)
    \<and> rows_ok (with_key k ks) t
    \<and> (\<forall>y. map_of (rev yvs) y \<noteq> None \<longrightarrow> text_of t (k @ y) = map_of (rev yvs) y)
    \<and> (\<forall>i. i \<notin> (\<lambda>x. k @ x) ` set suffixes \<longrightarrow> text_of t i = text_of s i)"
proof -
  obtain u where u: "establish cells k x s = (u, None)" "rows_ok (with_key k ks) u"
    "\<forall>i. i \<notin> (\<lambda>x. k @ x) ` set suffixes \<longrightarrow> text_of u i = text_of s i"
    using establish_effect [OF assms(1-3)] by blast
  define ivs where "ivs = map (\<lambda>(y, v). (k @ y, v)) yvs"
  have "\<forall>(i, v) \<in> set ivs. text_of u i \<noteq> None"
    using rows_ok_text [OF u(2)] assms(4) by (auto simp: ivs_def)
  from puts_effect [OF u(2) this] obtain t where
    t: "steps (map (\<lambda>(i, v). put_inner i v) ivs) u = (t, None)" "rows_ok (with_key k ks) t"
      "text_of t = text_of u ++ map_of (rev ivs)" by blast
  have "map_of (map (\<lambda>(y, v). (k @ y, v)) zs) (k @ y) = map_of zs y" for zs :: "string obj" and y
    by (induction zs) auto
  then have m: "map_of (rev ivs) (k @ y) = map_of (rev yvs) y" for y by (simp add: ivs_def rev_map)
  have "map_of (rev ivs) i = None" if "i \<notin> (\<lambda>x. k @ x) ` set suffixes" for i
    using that assms(4) by (auto simp: ivs_def map_of_eq_None_iff)
  moreover have "steps (map (\<lambda>(y, v). put_inner (k @ y) v) yvs) u = (t, None)"
    using t(1) by (simp add: ivs_def comp_def case_prod_beta')
  ultimately show ?thesis
    using u t m by (intro exI [of _ t]) (auto simp: map_add_def split: option.splits)
qed

end

end
