(* ===== verification/Page_Inventory.thy ===== *)
theory Page_Inventory
  imports Page_Rows
begin

text \<open>
  The script of \<^verbatim>\<open>web-admin/inventory-main.html\<close> (lines 14-141): the tags of the inventory, one row
  for each EPC, polled with a filter pattern.
\<close>

subsection \<open>Rows\<close>

definition tag_columns :: "(string \<times> string) list" where
  "tag_columns = [(''.epc'', ''w3-col l3''), (''.tid'', ''w3-col l3''), (''.state'', ''w3-col l1''),
     (''.location'', ''w3-col l1''), (''.last_read_on'', ''w3-col l2''), (''.facility_id'', ''w3-col l2'')]"

definition tag_cells :: "string \<Rightarrow> element obj" where
  "tag_cells epc = (epc @ ''.row'', blank_element\<lparr>className := ''w3-row w3-padding w3-border-bottom''\<rparr>)
     # map (\<lambda>(x, cls). createStandardColumn cls (epc @ x)) tag_columns"

definition createTagRow :: "string \<Rightarrow> ('x rows_page_scheme) act" where
  "createTagRow epc = create_row tag_cells epc"

definition clearAllRows :: "('x rows_page_scheme) act" where
  "clearAllRows = clear_table"

text \<open>
  \<open>epochToGMT\<close> of a value: a number counts milliseconds, null is 0, and without a value the date
  is invalid, as is one outside the range of dates (the controller sends numbers; a string would
  be parsed as a date).
\<close>

definition date_text :: "json option \<Rightarrow> string" where
  "date_text v = (case v of
     Some (JNum (Fin x)) \<Rightarrow> epochToGMT (if 0 \<le> x then \<lfloor>x\<rfloor> else \<lceil>x\<rceil>)
   | Some JNull \<Rightarrow> epochToGMT 0
   | _ \<Rightarrow> epochToGMT (8640000000000000 + 1))"

definition tid_text :: "json option \<Rightarrow> string" where
  "tid_text v = (if v \<noteq> None \<and> v \<noteq> Some JNull then inner_text v else ''&nbsp;'')"

text \<open>The body of the loop of \<open>onTagInfo\<close>: the row is created unless it exists, then its cells are written.\<close>

definition show_tag :: "json \<Rightarrow> ('x rows_page_scheme) act" where
  "show_tag curTag = read ''epc'' (Some curTag) (\<lambda>epc. let k = to_str epc in steps
     [establish tag_cells k ''.row'',
      put_inner (k @ ''.epc'') (inner_text epc),
      read ''tid'' (Some curTag) (\<lambda>v. put_inner (k @ ''.tid'') (tid_text v)),
      read ''state'' (Some curTag) (\<lambda>v. put_inner (k @ ''.state'') (inner_text v)),
      read ''location'' (Some curTag) (\<lambda>v. put_inner (k @ ''.location'') (inner_text v)),
      read ''last_read_on'' (Some curTag) (\<lambda>v. put_inner (k @ ''.last_read_on'') (date_text v)),
      read ''facility_id'' (Some curTag) (\<lambda>v. put_inner (k @ ''.facility_id'') (inner_text v))])"

definition onTagInfo :: "json option \<Rightarrow> ('x rows_page_scheme) act" where
  "onTagInfo list = read_list list (\<lambda>tags. for_each tags show_tag)"

subsection \<open>The filter\<close>

definition requestInventoryTagInfo :: "('x rows_page_scheme) act" where
  "requestInventoryTagInfo s = (case getElementById ''epc_filter_pattern'' s of
     None \<Rightarrow> (s, Some TypeError)
   | Some e \<Rightarrow> request ''inventory_get_tag_info'' (Some (JObj [(''filter_pattern'', JStr (e_value e))])) s)"

definition store_pattern :: "('x rows_page_scheme) act" where
  "store_pattern s = (case getElementById ''epc_filter_pattern'' s of
     None \<Rightarrow> (s, Some TypeError)
   | Some e \<Rightarrow> store_cookie ''epc_filter_pattern'' (e_value e) s)"

definition sendEpcFilterPattern :: "('x rows_page_scheme) act" where
  "sendEpcFilterPattern = steps [clearAllRows, store_pattern, requestInventoryTagInfo]"

text \<open>The listener of the filter field, and its initial value.\<close>

definition filter_keyup :: "nat \<Rightarrow> ('x rows_page_scheme) act" where
  "filter_keyup keyCode = (if keyCode = 13 then sendEpcFilterPattern else pass)"

definition initEpcFilterInput :: "('x rows_page_scheme) act" where
  "initEpcFilterInput s = on_element ''epc_filter_pattern''
     (\<lambda>e. e\<lparr>e_value := read_cookie ''epc_filter_pattern'' s\<rparr>) s"

definition unload :: "'pg act" where
  "unload = request ''inventory_unload'' (Some JNull)"

subsection \<open>Callbacks\<close>

definition inventory_onSocketState :: "conn_state \<Rightarrow> ('x rows_page_scheme) act" where
  "inventory_onSocketState st =
     (if st = Open_State then steps [requestInventoryTagInfo, set_interval] else pass)"

definition inventory_response :: "json \<Rightarrow> request \<Rightarrow> ('x rows_page_scheme) act" where
  "inventory_response rsp req =
     (if req_method req = ''inventory_get_tag_info'' then read ''result'' (Some rsp) onTagInfo
      else if req_method req = ''inventory_unload'' then clearAllRows else pass)"

definition inventory_handlers :: "('x rows_page_scheme) handlers" where
  "inventory_handlers = unhandled_handlers\<lparr>state_cb := (\<lambda>cb. inventory_onSocketState),
     inboundResponse := inventory_response\<rparr>"

subsection \<open>Contracts\<close>

definition tag_suffixes :: "string list" where
  "tag_suffixes = [''.row'', ''.epc'', ''.tid'', ''.state'', ''.location'', ''.last_read_on'', ''.facility_id'']"

interpretation tags: row_table tag_cells tag_suffixes
  by unfold_locales
    (auto simp: tag_cells_def tag_suffixes_def tag_columns_def createStandardColumn_def is_suffix_code)

lemma page_act_inventory [page_acts]: "page_act (onTagInfo v)"
  unfolding onTagInfo_def show_tag_def Let_def by (intro page_acts) (auto intro!: page_acts)

lemma page_act_requestInventory [page_acts]: "page_act requestInventoryTagInfo"
  using page_actD [OF page_act_request]
  by (auto simp: page_act_def requestInventoryTagInfo_def intro: api_nothing split: option.splits)

lemma page_act_inventory_unhandled [page_acts]:
  "page_act (inboundRequest unhandled_handlers r)" "page_act (inboundNotification unhandled_handlers r)"
  by (auto simp: page_act_def unhandled_handlers_def intro: api_log api_nothing)

lemma keeps_inventory [keeps_acts]: "keeps_polls (onTagInfo v)"
  unfolding onTagInfo_def show_tag_def Let_def by (intro keeps_acts) (auto intro!: keeps_acts)

interpretation inventory: page_callbacks inventory_handlers
  by (rule page_callbacksI)
    (auto simp: inventory_handlers_def inventory_onSocketState_def inventory_response_def clearAllRows_def
      intro!: page_acts)

definition has_filter :: "('x rows_page_scheme) \<Rightarrow> bool" where
  "has_filter pg \<longleftrightarrow> obj_get (dom pg) ''epc_filter_pattern'' \<noteq> None"

interpretation inventory_polls: polling_page inventory_handlers has_filter pollers
proof unfold_locales
  fix s :: "('a rows_page_scheme) cws" and w cb
  assume s: "has_filter (page s)" "socket s = Some w" "fst (sockets s ! w) = OPEN"
  obtain e where "getElementById ''epc_filter_pattern'' s = Some e"
    using s(1) by (auto simp: has_filter_def getElementById_def)
  then obtain t where "requestInventoryTagInfo s = (t, None)" "page t = page s"
    using request_open [OF s(2,3)] unfolding requestInventoryTagInfo_def by fastforce
  then show "has_filter (page (fst (state_cb inventory_handlers cb Open_State s)))
      \<and> pollers (page (fst (state_cb inventory_handlers cb Open_State s))) = Suc (pollers (page s))"
    using s(1) by (simp add: inventory_handlers_def inventory_onSocketState_def set_interval_def change_page_def has_filter_def)
next
  fix r q and s :: "('a rows_page_scheme) cws"
  assume "has_filter (page s)"
  moreover have "keeps_polls (inventory_response r q :: ('a rows_page_scheme) act)"
    by (auto simp: inventory_response_def clearAllRows_def intro!: keeps_acts)
  ultimately show "has_filter (page (fst (inboundResponse inventory_handlers r q s)))
      \<and> pollers (page (fst (inboundResponse inventory_handlers r q s))) = pollers (page s)"
    using keeps_pollsD [of "inventory_response r q" s]
    by (auto simp: inventory_handlers_def page_frame_def has_filter_def)
qed (simp_all add: inventory_handlers_def inventory_onSocketState_def pass_def unhandled_handlers_def log_line_def)

subsection \<open>The rows follow the answers\<close>

text \<open>What the cells of a tag show.\<close>

definition tag_texts :: "string \<Rightarrow> json obj \<Rightarrow> string obj" where
  "tag_texts e ps = [(''.epc'', e), (''.tid'', tid_text (obj_get ps ''tid'')),
     (''.state'', inner_text (obj_get ps ''state'')), (''.location'', inner_text (obj_get ps ''location'')),
     (''.last_read_on'', date_text (obj_get ps ''last_read_on'')),
     (''.facility_id'', inner_text (obj_get ps ''facility_id''))]"

lemma show_tag_steps:
  "obj_get ps ''epc'' = Some (JStr e) \<Longrightarrow> show_tag (JObj ps) =
     steps (establish tag_cells e ''.row'' # map (\<lambda>(y, v). put_inner (e @ y) v) (tag_texts e ps))"
  by (simp add: show_tag_def read_def to_str_def tag_texts_def inner_text_def)

lemma show_tag_effect:
  assumes "tags.rows_ok ks s" and "prefix_free (insert e (set ks))" and "obj_get ps ''epc'' = Some (JStr e)"
  shows "\<exists>t. show_tag (JObj ps) s = (t, None) \<and> tags.rows_ok (with_key e ks) t
    \<and> (\<forall>(y, v) \<in> set (tag_texts e ps). text_of t (e @ y) = Some v)
    \<and> (\<forall>i. i \<notin> (\<lambda>x. e @ x) ` set tag_suffixes \<longrightarrow> text_of t i = text_of s i)"
proof -
  have d: "distinct (map fst (tag_texts e ps))" by (simp add: tag_texts_def)
  have sub: "\<forall>(y, v) \<in> set (tag_texts e ps). y \<in> set tag_suffixes"
    by (simp add: tag_texts_def tag_suffixes_def)
  have "''.row'' \<in> set tag_suffixes" by (simp add: tag_suffixes_def)
  note ep = tags.establish_puts [OF assms(1) this assms(2) sub]
  obtain t where
    t: "show_tag (JObj ps) s = (t, None)" "tags.rows_ok (with_key e ks) t"
      "\<forall>y. map_of (rev (tag_texts e ps)) y \<noteq> None \<longrightarrow> text_of t (e @ y) = map_of (rev (tag_texts e ps)) y"
      "\<forall>i. i \<notin> (\<lambda>x. e @ x) ` set tag_suffixes \<longrightarrow> text_of t i = text_of s i"
    using ep unfolding show_tag_steps [OF assms(3)] by blast
  have "map_of (rev (tag_texts e ps)) y = Some v" if "(y, v) \<in> set (tag_texts e ps)" for y v
    using that d map_of_eq_Some_iff [of "rev (tag_texts e ps)" y v] by (simp flip: rev_map)
  with t show ?thesis by fastforce
qed

text \<open>All the tags of an answer, and what the other elements show.\<close>

lemma show_tags_effect:
  assumes "tags.rows_ok ks s" and "distinct (map fst tgs)" and "prefix_free (set ks \<union> fst ` set tgs)"
    and "\<forall>(e, ps) \<in> set tgs. obj_get ps ''epc'' = Some (JStr e)"
  shows "\<exists>t ks'. for_each (map (\<lambda>(e, ps). JObj ps) tgs) show_tag s = (t, None)
    \<and> tags.rows_ok ks' t \<and> set ks' = set ks \<union> fst ` set tgs
    \<and> (\<forall>(e, ps) \<in> set tgs. \<forall>(y, v) \<in> set (tag_texts e ps). text_of t (e @ y) = Some v)
    \<and> (\<forall>i. i \<notin> {e @ x |e x. e \<in> fst ` set tgs \<and> x \<in> set tag_suffixes} \<longrightarrow> text_of t i = text_of s i)"
  using assms
proof (induction tgs arbitrary: s ks)
  case Nil
  then show ?case by (auto simp: for_each_def)
next
  case (Cons tg tgs)
  obtain e ps where tg: "tg = (e, ps)" by (cases tg)
  have pf: "prefix_free (insert e (set ks))" "prefix_free (set (with_key e ks) \<union> fst ` set tgs)"
    using Cons.prems(3) tg by (auto simp: prefix_free_def)
  have ps: "obj_get ps ''epc'' = Some (JStr e)" using Cons.prems(4) tg by simp
  obtain u where u: "show_tag (JObj ps) s = (u, None)" "tags.rows_ok (with_key e ks) u"
    "\<forall>(y, v) \<in> set (tag_texts e ps). text_of u (e @ y) = Some v"
    "\<forall>i. i \<notin> (\<lambda>x. e @ x) ` set tag_suffixes \<longrightarrow> text_of u i = text_of s i"
    using show_tag_effect [OF Cons.prems(1) pf(1) ps] by blast
  have "distinct (map fst tgs)" "\<forall>(e, ps) \<in> set tgs. obj_get ps ''epc'' = Some (JStr e)"
    using Cons.prems(2,4) by auto
  from Cons.IH [OF u(2) this(1) pf(2) this(2)] obtain t ks' where
    t: "for_each (map (\<lambda>(e, ps). JObj ps) tgs) show_tag u = (t, None)" "tags.rows_ok ks' t"
      "set ks' = set (with_key e ks) \<union> fst ` set tgs"
      "\<forall>(e, ps) \<in> set tgs. \<forall>(y, v) \<in> set (tag_texts e ps). text_of t (e @ y) = Some v"
      "\<forall>i. i \<notin> {e @ x |e x. e \<in> fst ` set tgs \<and> x \<in> set tag_suffixes} \<longrightarrow> text_of t i = text_of u i"
    by blast
  have e: "e \<notin> fst ` set tgs" using Cons.prems(2) tg by simp
  have keep: "text_of t (e @ y) = text_of u (e @ y)" if "y \<in> set tag_suffixes" for y
    using t(5) e suffix_unique [of e y] tags.suffix that by blast
  have own: "\<forall>(y, v) \<in> set (tag_texts e ps). text_of t (e @ y) = Some v"
    using u(3) keep by (auto simp: tag_texts_def tag_suffixes_def)
  have other: "text_of t i = text_of s i"
    if "i \<notin> {e' @ x |e' x. e' \<in> fst ` set (tg # tgs) \<and> x \<in> set tag_suffixes}" for i
  proof -
    have h: "i \<notin> (\<lambda>x. e @ x) ` set tag_suffixes" "i \<notin> {e @ x |e x. e \<in> fst ` set tgs \<and> x \<in> set tag_suffixes}"
      using that tg by auto
    show ?thesis using t(5) [rule_format, OF h(2)] u(4) [rule_format, OF h(1)] by simp
  qed
  show ?case
  proof (intro exI conjI)
    show "for_each (map (\<lambda>(e, ps). JObj ps) (tg # tgs)) show_tag s = (t, None)"
      using t(1) u(1) tg by (simp add: for_each_def)
    show "tags.rows_ok ks' t" by (rule t(2))
    show "set ks' = set ks \<union> fst ` set (tg # tgs)" using t(3) tg by simp
    show "\<forall>(e, ps) \<in> set (tg # tgs). \<forall>(y, v) \<in> set (tag_texts e ps). text_of t (e @ y) = Some v"
      using own t(4) tg by simp
    show "\<forall>i. i \<notin> {e @ x |e x. e \<in> fst ` set (tg # tgs) \<and> x \<in> set tag_suffixes} \<longrightarrow> text_of t i = text_of s i"
      using other by blast
  qed
qed

text \<open>
  C14: The inventory table follows the answers of the controller.  Whatever rows are shown, after
  an answer that lists tags (with EPCs of which none begins another) the message has been
  handled without an error, the table has exactly one row for every EPC shown or listed, in
  ascending order, and the cells of every listed tag show what the answer says of it.
\<close>

theorem inventory_follows_answers:
  assumes "tags.rows_ok ks s" and "distinct (map fst tgs)" and "prefix_free (set ks \<union> fst ` set tgs)"
    and "\<forall>(e, ps) \<in> set tgs. obj_get ps ''epc'' = Some (JStr e)"
  shows "\<exists>t ks'. onTagInfo (Some (JArr (map (\<lambda>(e, ps). JObj ps) tgs))) s = (t, None)
    \<and> tags.rows_ok ks' t \<and> set ks' = set ks \<union> fst ` set tgs
    \<and> (\<forall>(e, ps) \<in> set tgs. \<forall>(y, v) \<in> set (tag_texts e ps). text_of t (e @ y) = Some v)"
  using show_tags_effect [OF assms] by (auto simp: onTagInfo_def read_list_def)

definition demo_inventory :: "unit rows_page_ext dom_page_ext" where
  "demo_inventory = \<lparr>dom = [(''epc_filter_pattern'', blank_element)], alerts = [], pollers = 0, cookies = [],
     table = [TextNode]\<rparr>"

lemma demo_inventory_ok: "tags.rows_ok [] (ControllerWebSocket demo_inventory)"
  by (simp add: tags.rows_ok_def demo_inventory_def ControllerWebSocket_def static_ids_def)

theorem inventory_follows_answers_witness:
  "\<exists>t ks'. onTagInfo (Some (JArr [JObj [(''epc'', JStr ''30B2'')], JObj [(''epc'', JStr ''30A1''), (''state'', JStr ''PRESENT'')]]))
      (ControllerWebSocket demo_inventory) = (t, None)
    \<and> tags.rows_ok ks' t \<and> set ks' = {''30A1'', ''30B2''} \<and> text_of t ''30A1.state'' = Some ''PRESENT''"
proof -
  let ?tgs = "[(''30B2'', [(''epc'', JStr ''30B2'')]), (''30A1'', [(''epc'', JStr ''30A1''), (''state'', JStr ''PRESENT'')])]"
  have "prefix_free (set [] \<union> fst ` set ?tgs)" by (rule same_length_prefix_free [where n = 4]) simp
  from inventory_follows_answers [OF demo_inventory_ok _ this]
  show ?thesis by (fastforce simp: tag_texts_def inner_text_def to_str_def)
qed

end
