(* ===== verification/Page_Disti.thy ===== *)
theory Page_Disti
  imports Page_Rows
begin

text \<open>
  The script of \<^verbatim>\<open>web-admin/sensors-disti.html\<close> (lines 14-353): connected sensors are brought to the
  software of the repository and to a selected region; each has a row with its state.
\<close>

subsection \<open>State\<close>

text \<open>
  What is known of a sensor, a value each (\<open>"???"\<close> at first).  Device ids are strings, as the
  controller sends them.
\<close>

record sensor =
  connection_state :: "json option"
  app_version :: "json option"
  platform_support_version :: "json option"
  region :: "json option"

text \<open>
  The variables of the page.  \<open>tracked\<close> holds the device ids that \<open>sendSensorRequest\<close> hangs on the
  pending requests, by their ids; \<open>regions\<close> are the entries of \<open>regions_container\<close>.
\<close>

record disti_page = rows_page +
  sensors :: "sensor obj"
  availableAppVersion :: "json option"
  availablePlatformSupportVersion :: "json option"
  selectedRegion :: "json option"
  regions :: "json list"
  tracked :: "string obj"

type_synonym disti = "unit disti_page_ext rows_page_ext dom_page_ext"

definition unknown :: "json option" where
  "unknown = Some (JStr ''???'')"

definition new_sensor :: sensor where
  "new_sensor = \<lparr>connection_state = unknown, app_version = unknown,
     platform_support_version = unknown, region = unknown\<rparr>"

subsection \<open>Rows\<close>

definition sensor_cells :: "string \<Rightarrow> element obj" where
  "sensor_cells d = [(d @ ''.row'', blank_element\<lparr>className := ''w3-row w3-padding''\<rparr>),
     (d @ ''.connection_state'', blank_element),
     createStandardColumn ''w3-col l2'' (d @ ''.app_version''),
     createStandardColumn ''w3-col l2'' (d @ ''.platform_support_version''),
     createStandardColumn ''w3-col l2'' (d @ ''.region''),
     createStandardColumn ''w3-col l4'' (d @ ''.status'')]"

text \<open>\<open>createSensorRow\<close> enters the sensor as unknown, then inserts its row.\<close>

definition createSensorRow :: "string \<Rightarrow> disti act" where
  "createSensorRow d = steps
     [change_page (\<lambda>pg. pg\<lparr>sensors := obj_set d new_sensor (sensors pg)\<rparr>), create_row sensor_cells d]"

definition establishSensorElement :: "string \<Rightarrow> string \<Rightarrow> disti act" where
  "establishSensorElement d x s =
     (if getElementById (d @ x) s = None then createSensorRow d s else (s, None))"

text \<open>\<open>sensors[d].k = v\<close>; for an unknown sensor it throws.\<close>

definition set_sensor :: "string \<Rightarrow> (sensor \<Rightarrow> sensor) \<Rightarrow> disti act" where
  "set_sensor d f s = (case obj_get (sensors (page s)) d of
     None \<Rightarrow> (s, Some TypeError)
   | Some r \<Rightarrow> change_page (\<lambda>pg. pg\<lparr>sensors := obj_set d (f r) (sensors pg)\<rparr>) s)"

definition clearAllData :: "disti act" where
  "clearAllData = steps [change_page (\<lambda>pg. pg\<lparr>sensors := []\<rparr>), clear_table]"

subsection \<open>Requests about a sensor\<close>

definition track :: "string \<Rightarrow> nat \<Rightarrow> disti act" where
  "track d i = change_page (\<lambda>pg. pg\<lparr>tracked := obj_set (nat_str i) d (tracked pg)\<rparr>)"

definition sendSensorRequest :: "string \<Rightarrow> string \<Rightarrow> disti act" where
  "sendSensorRequest d m = request_then m (Some (JObj [(''device_id'', JStr d)])) (track d)"

definition mapPendingSensor :: "json option \<Rightarrow> (string option \<Rightarrow> disti act) \<Rightarrow> disti act" where
  "mapPendingSensor i f s = (case obj_get (pendingRequests s) (to_str i) of
     None \<Rightarrow> (s, Some TypeError)
   | Some q \<Rightarrow> f (obj_get (tracked (page s)) (to_str i)) s)"

subsection \<open>The state of a sensor\<close>

text \<open>\<open>a.startsWith(b)\<close>: of anything but a string there is no such method.\<close>

definition startsWith :: "json option \<Rightarrow> json option \<Rightarrow> js_error + bool" where
  "startsWith a b = (case a of Some (JStr t) \<Rightarrow> Inr (starts_with (to_str b) t) | _ \<Rightarrow> Inl TypeError)"

definition set_region_params :: "string \<Rightarrow> json option \<Rightarrow> json" where
  "set_region_params d r = JObj ((''device_id'', JStr d) # (case r of None \<Rightarrow> [] | Some v \<Rightarrow> [(''region'', v)]))"

definition status_id :: "string \<Rightarrow> string" where
  "status_id d = d @ ''.status''"

text \<open>The decision of \<open>checkSensorConfigStatus\<close>, for the sensor \<open>r\<close> of the device.\<close>

definition decideStatus :: "string \<Rightarrow> sensor \<Rightarrow> disti act" where
  "decideStatus d r s = (let pg = page s; status = put_inner (status_id d) in
     if \<not> strict_eq (connection_state r) (Some (JStr ''CONNECTED'')) then
       status ''Waiting for sensor connection'' s
     else if strict_eq (availableAppVersion pg) (Some (JStr ''UNKNOWN'')) then status [] s
     else case startsWith (availableAppVersion pg) (app_version r) of
       Inl e \<Rightarrow> (s, Some e)
     | Inr current \<Rightarrow>
        if \<not> current \<or> \<not> strict_eq (platform_support_version r) (availablePlatformSupportVersion pg) then
          steps [status ''Requested sensor software update'', sendSensorRequest d ''sensor_update_software''] s
        else if selectedRegion pg = Some JNull then status ''&nbsp;'' s
        else if strict_eq (region r) (selectedRegion pg) then status ''OK'' s
        else steps [status ''Changing region'',
          request_then ''sensor_set_geo_region'' (Some (set_region_params d (selectedRegion pg))) (track d),
          put_inner (d @ ''.region'') ''&nbsp;''] s)"

definition checkSensorConfigStatus :: "string \<Rightarrow> disti act" where
  "checkSensorConfigStatus d = steps [establishSensorElement d ''.status'',
     (\<lambda>s. case obj_get (sensors (page s)) d of None \<Rightarrow> (s, Some TypeError) | Some r \<Rightarrow> decideStatus d r s)]"

definition connection_id :: "string \<Rightarrow> string" where
  "connection_id d = d @ ''.connection_state''"

text \<open>The icon of the connection; for a connected sensor its versions and region are asked for.\<close>

definition showConnection :: "string \<Rightarrow> json option \<Rightarrow> disti act" where
  "showConnection d st = (if strict_eq st (Some (JStr ''CONNECTED'')) then steps
       [on_element (connection_id d) (\<lambda>e. e\<lparr>className := the (obj_get icons ''connected''), tooltip := ''Connected''\<rparr>),
        sendSensorRequest d ''sensor_get_versions'', sendSensorRequest d ''sensor_get_geo_region'']
     else on_element (connection_id d)
       (\<lambda>e. e\<lparr>className := the (obj_get icons ''disconnected''), tooltip := ''Disconnected''\<rparr>))"

definition handleConnectionState :: "string \<Rightarrow> json option \<Rightarrow> disti act" where
  "handleConnectionState d st = steps
     [establishSensorElement d ''.connection_state'', set_sensor d (\<lambda>r. r\<lparr>connection_state := st\<rparr>),
      showConnection d st, checkSensorConfigStatus d]"

subsection \<open>Messages\<close>

definition onGetAllSensorIds :: "json option \<Rightarrow> disti act" where
  "onGetAllSensorIds ids = read_list ids (\<lambda>vs. for_each vs (\<lambda>v.
     request ''sensor_get_basic_info'' (Some (JObj [(''device_id'', v)]))))"

definition onGeoRegionResponse :: "string \<Rightarrow> json option \<Rightarrow> disti act" where
  "onGeoRegionResponse d result = steps
     [establishSensorElement d ''.region'',
      read ''region'' result (\<lambda>v. steps [set_sensor d (\<lambda>r. r\<lparr>region := v\<rparr>), put_inner (d @ ''.region'') (inner_text v)]),
      checkSensorConfigStatus d]"

definition onSoftwareVersionResponse :: "string \<Rightarrow> json option \<Rightarrow> disti act" where
  "onSoftwareVersionResponse d result = steps
     [establishSensorElement d ''.app_version'',
      read ''app_version'' result (\<lambda>v. steps [set_sensor d (\<lambda>r. r\<lparr>app_version := v\<rparr>), put_inner (d @ ''.app_version'') (inner_text v)]),
      establishSensorElement d ''.platform_support_version'',
      read ''platform_support_version'' result (\<lambda>v. steps
        [set_sensor d (\<lambda>r. r\<lparr>platform_support_version := v\<rparr>),
         put_inner (d @ ''.platform_support_version'') (inner_text v)])]"

definition onSensorConnectionState :: "json option \<Rightarrow> disti act" where
  "onSensorConnectionState params = read ''device_id'' params (\<lambda>d. read ''connection_state'' params (\<lambda>st.
     handleConnectionState (to_str d) st))"

definition onSensorBasicInfo :: "json option \<Rightarrow> disti act" where
  "onSensorBasicInfo info = read ''connection_state'' info (\<lambda>st.
     if strict_eq st (Some (JStr ''CONNECTED'')) then onSensorConnectionState info else pass)"

definition onRepoVersions :: "json option \<Rightarrow> disti act" where
  "onRepoVersions params = steps
     [read ''app_version'' params (\<lambda>v. change_page (\<lambda>pg. pg\<lparr>availableAppVersion := v\<rparr>)),
      read ''platform_support_version'' params (\<lambda>v. change_page (\<lambda>pg. pg\<lparr>availablePlatformSupportVersion := v\<rparr>)),
      show_prop params ''app_version'' ''repo_app_version'',
      show_prop params ''platform_support_version'' ''repo_platform_support'']"

text \<open>The list of regions: the container is emptied, then filled.\<close>

definition onAllGeoRegions :: "json option \<Rightarrow> disti act" where
  "onAllGeoRegions params = steps
     [set_element ''regions_container'' (\<lambda>e. e), change_page (\<lambda>pg. pg\<lparr>regions := []\<rparr>),
      read_list params (\<lambda>vs. change_page (\<lambda>pg. pg\<lparr>regions := vs\<rparr>))]"

definition percent :: "json option \<Rightarrow> json option \<Rightarrow> jsnum" where
  "percent line lines = (if strict_eq lines (Some (JNum (Fin 0))) then Fin 0
     else num_ceil (num_mul (num_div (json_number line) (json_number lines)) (Fin 100)))"

definition onOemCfgUpdateStatus :: "json option \<Rightarrow> disti act" where
  "onOemCfgUpdateStatus params = read ''region'' params (\<lambda>r. read ''status'' params (\<lambda>st.
     read ''device_id'' params (\<lambda>dv. let d = to_str dv; s0 = ''Setting region '' @ to_str r;
       finish = (\<lambda>t. steps [establishSensorElement d ''.status'', put_inner (status_id d) t]) in
     if st = Some (JStr ''IN_PROGRESS'') then
       read ''total_lines'' params (\<lambda>lines. read ''current_line_num'' params (\<lambda>line.
         finish (s0 @ '': '' @ num_str (percent line lines)
           @ ''% complete <i class=\"fas fa-spinner fa-pulse\"></i>'')))
     else if st = Some (JStr ''ERROR'') \<or> st = Some (JStr ''FAIL'') then
       read ''message'' params (\<lambda>m. finish (s0 @ to_str st @ '': '' @ to_str m))
     else if st = Some (JStr ''COMPLETE'') then
       steps [sendSensorRequest d ''sensor_get_geo_region'', finish s0]
     else finish s0)))"

definition disti_onSocketState :: "conn_state \<Rightarrow> disti act" where
  "disti_onSocketState st = (if st = Open_State then steps
     [clearAllData,
      request ''scheduler_set_run_state'' (Some (JObj [(''run_state'', JStr ''INACTIVE'')])),
      request ''controller_get_sensor_sw_repo_versions'' None,
      request ''controller_get_all_geo_regions'' None,
      request ''sensor_get_device_ids'' None] else pass)"

text \<open>The test \<open>jsonRsp.result === 'undefined'\<close> compares with a string.\<close>

definition disti_response :: "json \<Rightarrow> request \<Rightarrow> disti act" where
  "disti_response rsp req = read ''result'' (Some rsp) (\<lambda>result.
     if result = Some (JStr ''undefined'') then (\<lambda>s. (log_line ''jsonRsp error: '' s, None))
     else let m = req_method req;
       about = (\<lambda>f. read ''id'' (Some rsp) (\<lambda>i. mapPendingSensor i (\<lambda>d.
         case d of None \<Rightarrow> pass | Some d \<Rightarrow> f d result))) in
       if m = ''sensor_get_device_ids'' then onGetAllSensorIds result
       else if m = ''sensor_get_basic_info'' then onSensorBasicInfo result
       else if m = ''controller_get_all_geo_regions'' then onAllGeoRegions result
       else if m = ''controller_get_sensor_sw_repo_versions'' then onRepoVersions result
       else if m = ''sensor_get_geo_region'' then about onGeoRegionResponse
       else if m = ''sensor_get_versions'' then about onSoftwareVersionResponse
       else pass)"

definition disti_notification :: "json \<Rightarrow> disti act" where
  "disti_notification notif = read ''method'' (Some notif) (\<lambda>m.
     if m = Some (JStr ''sensor_connection_state_notification'') then read ''params'' (Some notif) onSensorConnectionState
     else if m = Some (JStr ''oem_cfg_update_status'') then read ''params'' (Some notif) onOemCfgUpdateStatus
     else pass)"

subsection \<open>The selection of a region\<close>

definition closeRegionView :: "disti act" where
  "closeRegionView = set_element ''regions_view'' (\<lambda>e. e\<lparr>className := remove_first '' w3-show'' (className e)\<rparr>)"

definition toggleRegionView :: "disti act" where
  "toggleRegionView = set_element ''regions_view'' (\<lambda>e. e\<lparr>className :=
     (if index_of ''w3-show'' (className e) = -1 then className e @ '' w3-show''
      else remove_first '' w3-show'' (className e))\<rparr>)"

definition setSelectedRegion :: "json \<Rightarrow> disti act" where
  "setSelectedRegion r = steps
     [change_page (\<lambda>pg. pg\<lparr>selectedRegion := Some r\<rparr>),
      set_inner ''selected_region'' (inner_text (Some r)),
      closeRegionView,
      (\<lambda>s. for_each (obj_keys (sensors (page s))) checkSensorConfigStatus s)]"

definition disti_handlers :: "disti handlers" where
  "disti_handlers = unhandled_handlers\<lparr>state_cb := (\<lambda>cb. disti_onSocketState),
     inboundResponse := disti_response, inboundNotification := disti_notification\<rparr>"

subsection \<open>The handlers keep the contract of the socket\<close>

lemmas page_chain = api.stays_chain page_act_simple page_act_derived page_act_on_element page_act_rows
  page_act_request page_act_request_then api.stays_simple api.stays_if api.stays_read api.stays_read_list

lemma page_act_set_sensor: "page_act (set_sensor d f)"
  using page_actD [OF page_act_simple] by (auto simp: page_act_def set_sensor_def intro: api_nothing split: option.splits)

lemma page_act_establishSensor: "page_act (establishSensorElement d x)"
proof -
  have "page_act (createSensorRow d)" unfolding createSensorRow_def by (intro page_chain)
  from page_actD [OF this] show ?thesis by (auto simp: page_act_def establishSensorElement_def intro: api_nothing)
qed

lemma page_act_sendSensor: "page_act (sendSensorRequest d m)"
  unfolding sendSensorRequest_def track_def by (intro page_chain)

lemmas sensor_chain = page_chain page_act_set_sensor page_act_establishSensor page_act_sendSensor

lemma page_act_check: "page_act (checkSensorConfigStatus d)"
proof -
  have "page_api s (fst (decideStatus d r s))" for r and s :: "disti cws"
  proof -
    have put: "page_act (put_inner i v)" for i v :: string by (rule page_act_rows)
    have update: "page_act (steps [put_inner i v, sendSensorRequest d m])" for i v m by (intro sensor_chain)
    have change: "page_act (steps [put_inner i v, request_then m p (track d), put_inner j w])" for i v m p j w
      unfolding track_def by (intro sensor_chain)
    show ?thesis
      using page_actD [OF put, of s] page_actD [OF update, of s] page_actD [OF change, of s]
      by (cases "startsWith (availableAppVersion (page s)) (app_version r)")
        (simp_all add: decideStatus_def Let_def api_nothing del: steps.simps)
  qed
  then have "page_act (\<lambda>s. case obj_get (sensors (page s)) d of None \<Rightarrow> (s, Some TypeError) | Some r \<Rightarrow> decideStatus d r s)"
    by (auto simp: page_act_def intro: api_nothing split: option.splits)
  then show ?thesis unfolding checkSensorConfigStatus_def by (intro sensor_chain)
qed

lemma page_act_handleConnection: "page_act (handleConnectionState d st)"
  unfolding handleConnectionState_def showConnection_def by (intro sensor_chain page_act_check)

lemma page_act_mapPending: "(\<And>d. page_act (f d)) \<Longrightarrow> page_act (mapPendingSensor i f)"
  by (auto simp: page_act_def mapPendingSensor_def intro: api_nothing split: option.splits)

lemma page_act_connection: "page_act (onSensorConnectionState v)"
  unfolding onSensorConnectionState_def by (intro sensor_chain page_act_handleConnection)

lemma page_act_answers:
  "page_act (onGeoRegionResponse d v)" "page_act (onSoftwareVersionResponse d v)" "page_act (onSensorBasicInfo v)"
  "page_act (onRepoVersions v)" "page_act (onAllGeoRegions v)" "page_act (onGetAllSensorIds v)"
proof -
  show "page_act (onGeoRegionResponse d v)" "page_act (onSoftwareVersionResponse d v)"
    unfolding onGeoRegionResponse_def onSoftwareVersionResponse_def by (intro sensor_chain page_act_check)+
  show "page_act (onSensorBasicInfo v)" unfolding onSensorBasicInfo_def by (intro sensor_chain page_act_connection)
  show "page_act (onRepoVersions v)" "page_act (onAllGeoRegions v)"
    unfolding onRepoVersions_def onAllGeoRegions_def by (intro sensor_chain page_act_element)+
  show "page_act (onGetAllSensorIds v)"
    unfolding onGetAllSensorIds_def by (intro api.stays_read_list api.stays_for_each page_act_request)
qed

lemma page_act_oem: "page_act (onOemCfgUpdateStatus v)"
proof -
  have finish: "page_act (steps [establishSensorElement d ''.status'', put_inner (status_id d) t])" for d t
    by (intro sensor_chain)
  have complete: "page_act (steps [sendSensorRequest d m, steps [establishSensorElement d ''.status'', put_inner (status_id d) t]])" for d m t
    by (intro sensor_chain)
  show ?thesis unfolding onOemCfgUpdateStatus_def Let_def
    by (intro api.stays_read api.stays_if finish complete)
qed

lemma page_act_disti_response: "page_act (disti_response r q)"
proof -
  have about: "page_act (read ''id'' (Some r) (\<lambda>i. mapPendingSensor i (\<lambda>d. case d of None \<Rightarrow> pass | Some d \<Rightarrow> f d v)))"
    if "\<And>d. page_act (f d v)" for f and v :: "json option"
  proof (intro api.stays_read page_act_mapPending)
    show "page_act (case d of None \<Rightarrow> pass | Some d \<Rightarrow> f d v)" for d
      by (cases d) (simp_all add: api.stays_simple that)
  qed
  have log: "page_act (\<lambda>s. (log_line m s, None))" for m
    by (auto simp: page_act_def intro: api_log api_nothing)
  show ?thesis unfolding disti_response_def Let_def
    by (intro api.stays_read api.stays_if about page_act_answers log api.stays_simple)
qed

lemma page_act_disti_unhandled: "page_act (inboundRequest unhandled_handlers r)"
  by (auto simp: page_act_def unhandled_handlers_def intro: api_log api_nothing)

interpretation disti: page_callbacks disti_handlers
proof (rule page_callbacksI)
  have state: "page_act (disti_onSocketState st)" for st
    unfolding disti_onSocketState_def clearAllData_def by (intro sensor_chain)
  have "page_act (disti_notification r)" for r
    unfolding disti_notification_def by (intro api.stays_read api.stays_if page_act_connection page_act_oem api.stays_simple)
  then show "page_act (state_cb disti_handlers cb st)" "page_act (inboundRequest disti_handlers r)"
    "page_act (inboundResponse disti_handlers r q)" "page_act (inboundNotification disti_handlers r)" for cb st r q
    using state page_act_disti_response page_act_disti_unhandled by (simp_all add: disti_handlers_def)
qed

subsection \<open>Rows and sensors\<close>

definition disti_suffixes :: "string list" where
  "disti_suffixes = [''.row'', ''.connection_state'', ''.app_version'', ''.platform_support_version'', ''.region'', ''.status'']"

interpretation srow: row_table sensor_cells disti_suffixes
  by unfold_locales (auto simp: sensor_cells_def disti_suffixes_def createStandardColumn_def is_suffix_code)

text \<open>
  The sensors entered are those with a row, and all belong to the devices \<open>U\<close> of the installation.
\<close>

definition disti_rows :: "string set \<Rightarrow> string list \<Rightarrow> disti cws \<Rightarrow> bool" where
  "disti_rows U ks s \<longleftrightarrow> srow.rows_ok ks s \<and> set (obj_keys (sensors (page s))) = set ks \<and> set ks \<subseteq> U
     \<and> snd ` set (tracked (page s)) \<subseteq> U"

definition disti_inv :: "string set \<Rightarrow> disti cws \<Rightarrow> bool" where
  "disti_inv U s \<longleftrightarrow> (\<exists>ks. disti_rows U ks s)"

lemma establish_sensor:
  assumes "disti_rows U ks s" "x \<in> set disti_suffixes" "prefix_free U" "d \<in> U"
  shows "\<exists>t. establishSensorElement d x s = (t, None) \<and> disti_rows U (with_key d ks) t
    \<and> (\<forall>i. i \<notin> (\<lambda>x. d @ x) ` set disti_suffixes \<longrightarrow> text_of t i = text_of s i)
    \<and> sensors (page t) = (if d \<in> set ks then sensors (page s) else obj_set d new_sensor (sensors (page s)))
    \<and> page t = (page s)\<lparr>table := table (page t), sensors := sensors (page t)\<rparr> \<and> conn_view t = conn_view s \<and> sent t = sent s"
proof (cases "d \<in> set ks")
  case True
  have "text_of s (d @ x) \<noteq> None" using srow.rows_ok_text [of ks s x d] True assms(1,2) by (simp add: disti_rows_def)
  then obtain e where "getElementById (d @ x) s = Some e" by (auto simp: text_of_def)
  then show ?thesis using assms(1) True by (simp add: establishSensorElement_def with_key_def)
next
  case False
  let ?u = "s\<lparr>page := (page s)\<lparr>sensors := obj_set d new_sensor (sensors (page s))\<rparr>\<rparr>"
  have ro: "srow.rows_ok ks ?u" using assms(1) by (auto simp: disti_rows_def srow.rows_ok_def static_ids_def)
  have "set ks \<subseteq> U" using assms(1) by (simp add: disti_rows_def)
  then have pf: "prefix_free (insert d (set ks))" using assms(3,4) by (auto simp: prefix_free_def)
  have tx: "text_of ?u = text_of s" by (simp add: text_of_def getElementById_def fun_eq_iff split: option.splits)
  have "text_of ?u (d @ x) = None" "text_of s (d @ x) = None"
    using srow.rows_ok_text [OF ro assms(2), of d] False tx by simp_all
  then have ge: "getElementById (d @ x) ?u = None" "getElementById (d @ x) s = None"
    by (simp_all add: text_of_def)
  obtain t where t: "establish sensor_cells d x ?u = (t, None)" "srow.rows_ok (with_key d ks) t"
    "\<forall>i. i \<notin> (\<lambda>x. d @ x) ` set disti_suffixes \<longrightarrow> text_of t i = text_of ?u i"
    using srow.establish_effect [OF ro assms(2) pf] by blast
  have c: "create_row sensor_cells d ?u = (t, None)" using t(1) ge(1) by (simp add: establish_def)
  then have pt: "page t = (page ?u)\<lparr>table := table (page t)\<rparr>" "conn_view t = conn_view s" "sent t = sent s"
    by (auto simp: create_row_def change_page_def conn_view_def)
  have "establishSensorElement d x s = (t, None)"
    using ge(2) c by (simp add: establishSensorElement_def createSensorRow_def change_page_def)
  moreover have "sensors (page t) = obj_set d new_sensor (sensors (page s))" "tracked (page t) = tracked (page s)"
    using arg_cong [OF pt(1), of sensors] arg_cong [OF pt(1), of tracked] by simp_all
  moreover have "page t = (page s)\<lparr>table := table (page t), sensors := sensors (page t)\<rparr>"
    by (subst pt(1)) (use calculation(2) in simp)
  moreover have "disti_rows U (with_key d ks) t"
    using t(2) assms(1,4) False calculation(2,3) by (auto simp: disti_rows_def obj_keys_set)
  ultimately show ?thesis
    using t(3) pt(2,3) False by (intro exI [of _ t]) (simp add: tx)
qed

text \<open>What writing to an element, and sending, leave alone.\<close>

definition vars :: "disti_page \<Rightarrow> sensor obj \<times> json option \<times> json option \<times> json option" where
  "vars pg = (sensors pg, availableAppVersion pg, availablePlatformSupportVersion pg, selectedRegion pg)"

lemma on_element_vars:
  "vars (page (fst (on_element i f s))) = vars (page s)"
  "tracked (page (fst (on_element i f s))) = tracked (page s)"
  "conn_view (fst (on_element i f s)) = conn_view s" "sent (fst (on_element i f s)) = sent s"
  by (auto simp: on_element_def set_element_def change_page_def vars_def conn_view_def split: option.splits)

lemma on_sensor:
  assumes "disti_rows U ks s" and "text_of s i = Some v"
  shows "\<exists>e t. inner e = v \<and> on_element i f s = (t, None) \<and> disti_rows U ks t
    \<and> text_of t = (text_of s)(i \<mapsto> inner (f e)) \<and> vars (page t) = vars (page s) \<and> conn_view t = conn_view s \<and> sent t = sent s"
proof -
  obtain e where e: "getElementById i s = Some e" "inner e = v" using assms(2) by (auto simp: text_of_def)
  have "srow.rows_ok ks s" using assms(1) by (simp add: disti_rows_def)
  from srow.on_effect [OF this e(1)] obtain t where
    t: "on_element i f s = (t, None)" "srow.rows_ok ks t" "text_of t = (text_of s)(i \<mapsto> inner (f e))" by blast
  have "vars (page t) = vars (page s)" "tracked (page t) = tracked (page s)" "conn_view t = conn_view s" "sent t = sent s"
    using on_element_vars [of i f s] t(1) by simp_all
  then show ?thesis using t e(2) assms(1) by (auto simp: disti_rows_def vars_def)
qed

lemma put_sensor:
  assumes "disti_rows U ks s" and "text_of s i \<noteq> None"
  shows "\<exists>t. put_inner i v s = (t, None) \<and> disti_rows U ks t \<and> text_of t = (text_of s)(i \<mapsto> v)
    \<and> vars (page t) = vars (page s) \<and> conn_view t = conn_view s \<and> sent t = sent s"
proof -
  obtain w where "text_of s i = Some w" using assms(2) by blast
  from on_sensor [OF assms(1) this, of "\<lambda>e. e\<lparr>inner := v\<rparr>"] show ?thesis by (auto simp: put_inner_def)
qed

definition open_socket :: "'pg cws \<Rightarrow> nat \<Rightarrow> bool" where
  "open_socket s w \<longleftrightarrow> socket s = Some w \<and> fst (sockets s ! w) = OPEN"

lemma open_socket_view: "conn_view t = conn_view s \<Longrightarrow> open_socket t w = open_socket s w"
  by (simp add: conn_view_def open_socket_def)

text \<open>A request about a sensor, on an open socket: it is sent, tracked, and nothing else happens.\<close>

lemma tracked_request:
  assumes "disti_rows U ks s" and "open_socket s w" and "d \<in> U"
  shows "\<exists>t i. request_then m p (track d) s = (t, None) \<and> disti_rows U ks t \<and> text_of t = text_of s
    \<and> vars (page t) = vars (page s) \<and> conn_view t = conn_view s
    \<and> sent t = sent s @ [(w, RequestFrame \<lparr>req_jsonrpc = ''2.0'', req_id = i, req_method = m, req_params = p\<rparr>)]"
proof -
  define q where "q = \<lparr>req_jsonrpc = ''2.0'', req_id = reqId s, req_method = m, req_params = p\<rparr>"
  define u where "u = s\<lparr>reqId := reqId s + 1, pendingRequests := obj_set (nat_str (reqId s)) q (pendingRequests s),
    sent := sent s @ [(w, RequestFrame q)]\<rparr>"
  define t where "t = u\<lparr>page := (page s)\<lparr>tracked := obj_set (nat_str (reqId s)) d (tracked (page s))\<rparr>\<rparr>"
  have "sendJsonRequest m p s = (u, Inr (reqId s))"
    using assms(2) by (simp add: sendJsonRequest_def send_def Let_def open_socket_def u_def q_def)
  then have r: "request_then m p (track d) s = (t, None)"
    by (simp add: request_then_def track_def change_page_def t_def u_def)
  have pt: "page t = (page s)\<lparr>tracked := obj_set (nat_str (reqId s)) d (tracked (page s))\<rparr>" "conn_view t = conn_view s"
    "sent t = sent s @ [(w, RequestFrame q)]"
    by (simp_all add: t_def u_def conn_view_def)
  have tx: "text_of t = text_of s"
    by (rule ext) (simp add: text_of_def getElementById_def pt(1) split: option.splits)
  have "snd ` set (obj_set (nat_str (reqId s)) d (tracked (page s))) \<subseteq> insert d (snd ` set (tracked (page s)))"
    using set_obj_set [of "nat_str (reqId s)" d "tracked (page s)"] by force
  moreover have "snd ` set (tracked (page s)) \<subseteq> U" using assms(1) by (simp add: disti_rows_def)
  ultimately have "snd ` set (tracked (page t)) \<subseteq> U" using assms(3) by (auto simp: pt(1))
  moreover have "srow.rows_ok ks t"
    using assms(1) by (simp add: disti_rows_def srow.rows_ok_def static_ids_def pt(1))
  ultimately have "disti_rows U ks t" using assms(1) by (simp add: disti_rows_def pt(1))
  then show ?thesis
    using r tx pt by (intro exI [of _ t] exI [of _ "reqId s"]) (simp add: q_def vars_def)
qed

subsection \<open>The state a sensor is shown in\<close>

text \<open>What the status of a sensor should say, given what is known of it.\<close>

definition config_status :: "disti_page \<Rightarrow> sensor \<Rightarrow> string" where
  "config_status pg r =
     (if \<not> strict_eq (connection_state r) (Some (JStr ''CONNECTED'')) then ''Waiting for sensor connection''
      else if strict_eq (availableAppVersion pg) (Some (JStr ''UNKNOWN'')) then []
      else if startsWith (availableAppVersion pg) (app_version r) \<noteq> Inr True
        \<or> \<not> strict_eq (platform_support_version r) (availablePlatformSupportVersion pg) then ''Requested sensor software update''
      else if selectedRegion pg = Some JNull then ''&nbsp;''
      else if strict_eq (region r) (selectedRegion pg) then ''OK'' else ''Changing region'')"

lemma config_status_vars: "snd (vars pg) = snd (vars pg') \<Longrightarrow> config_status pg r = config_status pg' r"
  by (simp add: config_status_def vars_def)

lemma check_effect:
  assumes "disti_rows U ks s" and "prefix_free U" and "d \<in> set ks" and "open_socket s w"
    and "availableAppVersion (page s) = Some (JStr a)" and "obj_get (sensors (page s)) d = Some r"
  shows "\<exists>t. checkSensorConfigStatus d s = (t, None) \<and> disti_rows U ks t \<and> vars (page t) = vars (page s)
    \<and> conn_view t = conn_view s \<and> text_of t (status_id d) = Some (config_status (page s) r)
    \<and> (\<forall>i. i \<notin> {status_id d, d @ ''.region''} \<longrightarrow> text_of t i = text_of s i)
    \<and> (config_status (page s) r = ''Requested sensor software update'' \<longrightarrow>
        (\<exists>i. (w, RequestFrame \<lparr>req_jsonrpc = ''2.0'', req_id = i, req_method = ''sensor_update_software'',
           req_params = Some (JObj [(''device_id'', JStr d)])\<rparr>) \<in> set (sent t)))"
proof -
  have dU: "d \<in> U" and x: "''.status'' \<in> set disti_suffixes" "''.region'' \<in> set disti_suffixes"
    using assms(1,3) by (auto simp: disti_rows_def disti_suffixes_def)
  have ids: "text_of s (status_id d) \<noteq> None" "text_of s (d @ ''.region'') \<noteq> None"
    using srow.rows_ok_text [of ks s _ d] x assms(1,3) by (simp_all add: disti_rows_def status_id_def)
  have e: "establishSensorElement d ''.status'' s = (s, None)"
    using ids(1) by (auto simp: establishSensorElement_def text_of_def status_id_def)
  obtain cur where cur: "startsWith (availableAppVersion (page s)) (app_version r) = Inr cur"
    using assms(5) by (simp add: startsWith_def)
  have c0: "checkSensorConfigStatus d s = decideStatus d r s"
    unfolding checkSensorConfigStatus_def steps_next [of "establishSensorElement d ''.status''", OF e] steps_one by (simp add: assms(6))
  have put: "\<exists>t. put_inner (status_id d) v s = (t, None) \<and> disti_rows U ks t \<and> text_of t = (text_of s)(status_id d \<mapsto> v)
    \<and> vars (page t) = vars (page s) \<and> conn_view t = conn_view s \<and> sent t = sent s" for v
    by (rule put_sensor [OF assms(1) ids(1)])
  show ?thesis
  proof (cases "config_status (page s) r \<in> {''Requested sensor software update'', ''Changing region''}")
    case False
    then have "checkSensorConfigStatus d s = put_inner (status_id d) (config_status (page s) r) s"
      unfolding c0 using cur by (simp add: decideStatus_def config_status_def Let_def split: if_splits)
    then show ?thesis using put [of "config_status (page s) r"] False by fastforce
  next
    case True
    obtain u where u: "put_inner (status_id d) (config_status (page s) r) s = (u, None)" "disti_rows U ks u"
      "text_of u = (text_of s)(status_id d \<mapsto> config_status (page s) r)"
      "vars (page u) = vars (page s)" "conn_view u = conn_view s" "sent u = sent s"
      using put by blast
    have ow: "open_socket u w" using assms(4) open_socket_view [OF u(5)] by simp
    consider (update) "config_status (page s) r = ''Requested sensor software update''"
      | (change) "config_status (page s) r = ''Changing region''" using True by blast
    then show ?thesis
    proof cases
      case update
      then have c: "checkSensorConfigStatus d s = sendSensorRequest d ''sensor_update_software'' u"
        unfolding c0 using cur u(1)
        by (cases cur) (simp_all add: decideStatus_def config_status_def Let_def steps_next steps_one del: steps.simps split: if_splits)
      show ?thesis
        using tracked_request [OF u(2) ow dU, of "''sensor_update_software''" "Some (JObj [(''device_id'', JStr d)])"] u(3-5) update
        unfolding c sendSensorRequest_def by auto
    next
      case change
      obtain v i where v: "request_then ''sensor_set_geo_region'' (Some (set_region_params d (selectedRegion (page s)))) (track d) u = (v, None)"
        "disti_rows U ks v" "text_of v = text_of u" "vars (page v) = vars (page u)" "conn_view v = conn_view u"
        using tracked_request [OF u(2) ow dU] by blast
      have "text_of v (d @ ''.region'') \<noteq> None" using ids(2) v(3) u(3) by simp
      from put_sensor [OF v(2) this, of "''&nbsp;''"] obtain t where
        t: "put_inner (d @ ''.region'') ''&nbsp;'' v = (t, None)" "disti_rows U ks t"
          "text_of t = (text_of v)(d @ ''.region'' \<mapsto> ''&nbsp;'')" "vars (page t) = vars (page v)" "conn_view t = conn_view v" by blast
      have "checkSensorConfigStatus d s = (t, None)"
        unfolding c0 using cur u(1) v(1) t(1) change
        by (simp add: decideStatus_def config_status_def Let_def steps_next steps_one del: steps.simps split: if_splits)
      then show ?thesis using t v(3-5) u(3-5) change by (auto simp: status_id_def)
    qed
  qed
qed

lemma set_sensor_effect:
  assumes "disti_rows U ks s" and "d \<in> set ks"
  shows "\<exists>r t. obj_get (sensors (page s)) d = Some r \<and> set_sensor d f s = (t, None) \<and> disti_rows U ks t
    \<and> text_of t = text_of s \<and> sensors (page t) = obj_set d (f r) (sensors (page s))
    \<and> snd (vars (page t)) = snd (vars (page s)) \<and> conn_view t = conn_view s \<and> sent t = sent s"
proof -
  have "d \<in> set (obj_keys (sensors (page s)))" using assms by (simp add: disti_rows_def)
  then obtain r where r: "obj_get (sensors (page s)) d = Some r" by (metis map_of_eq_None_iff list.set_map not_None_eq)
  define t where "t = s\<lparr>page := (page s)\<lparr>sensors := obj_set d (f r) (sensors (page s))\<rparr>\<rparr>"
  have "set_sensor d f s = (t, None)" by (simp add: set_sensor_def r change_page_def t_def)
  moreover have "text_of t = text_of s"
    by (rule ext) (simp add: text_of_def getElementById_def t_def split: option.splits)
  moreover have "disti_rows U ks t"
    using assms by (auto simp: disti_rows_def srow.rows_ok_def static_ids_def t_def obj_keys_set)
  ultimately show ?thesis
    using r by (intro exI [of _ r] exI [of _ t]) (simp add: t_def conn_view_def vars_def)
qed

lemma showConnection_effect:
  assumes "disti_rows U ks s" and "d \<in> set ks" and "open_socket s w"
  shows "\<exists>t. showConnection d st s = (t, None) \<and> disti_rows U ks t \<and> text_of t = text_of s
    \<and> vars (page t) = vars (page s) \<and> conn_view t = conn_view s"
proof -
  have dU: "d \<in> U" and x: "''.connection_state'' \<in> set disti_suffixes"
    using assms(1,2) by (auto simp: disti_rows_def disti_suffixes_def)
  obtain tx where tx: "text_of s (connection_id d) = Some tx"
    using srow.rows_ok_text [of ks s "''.connection_state''" d] assms(1,2) x by (auto simp: disti_rows_def connection_id_def)
  have on: "\<exists>t. on_element (connection_id d) f s = (t, None) \<and> disti_rows U ks t
      \<and> text_of t = text_of s \<and> vars (page t) = vars (page s) \<and> conn_view t = conn_view s"
    if "\<And>e. inner (f e) = inner e" for f
    using on_sensor [OF assms(1) tx, of f] that tx by (auto simp: fun_upd_idem)
  show ?thesis
  proof (cases "strict_eq st (Some (JStr ''CONNECTED''))")
    case False
    then show ?thesis using on by (simp add: showConnection_def)
  next
    case True
    obtain z1 where z1: "on_element (connection_id d)
        (\<lambda>e. e\<lparr>className := the (obj_get icons ''connected''), tooltip := ''Connected''\<rparr>) s = (z1, None)"
      "disti_rows U ks z1" "text_of z1 = text_of s" "vars (page z1) = vars (page s)" "conn_view z1 = conn_view s"
      using on [of "\<lambda>e. e\<lparr>className := the (obj_get icons ''connected''), tooltip := ''Connected''\<rparr>"] by auto
    have o1: "open_socket z1 w" using assms(3) open_socket_view [OF z1(5)] by simp
    obtain z2 where z2: "sendSensorRequest d ''sensor_get_versions'' z1 = (z2, None)" "disti_rows U ks z2"
      "text_of z2 = text_of z1" "vars (page z2) = vars (page z1)" "conn_view z2 = conn_view z1"
      using tracked_request [OF z1(2) o1 dU] unfolding sendSensorRequest_def by blast
    have o2: "open_socket z2 w" using o1 open_socket_view [OF z2(5)] by simp
    obtain z3 where z3: "sendSensorRequest d ''sensor_get_geo_region'' z2 = (z3, None)" "disti_rows U ks z3"
      "text_of z3 = text_of z2" "vars (page z3) = vars (page z2)" "conn_view z3 = conn_view z2"
      using tracked_request [OF z2(2) o2 dU] unfolding sendSensorRequest_def by blast
    have "showConnection d st s = (z3, None)" using True z1(1) z2(1) z3(1) by (simp add: showConnection_def)
    then show ?thesis using z1 z2 z3 by simp
  qed
qed

text \<open>
  A notification about a connection, on an open socket: after it the sensor is entered with the
  state it says, its row exists, and its status is the one it should have.
\<close>

lemma handleConnectionState_effect:
  assumes "disti_rows U ks s" and "prefix_free U" and "d \<in> U" and "open_socket s w"
    and "availableAppVersion (page s) = Some (JStr a)"
  shows "\<exists>t r0 r. handleConnectionState d st s = (t, None) \<and> disti_rows U (with_key d ks) t
    \<and> obj_get (if d \<in> set ks then sensors (page s) else [(d, new_sensor)]) d = Some r0
    \<and> r = r0\<lparr>connection_state := st\<rparr> \<and> obj_get (sensors (page t)) d = Some r
    \<and> text_of t (status_id d) = Some (config_status (page s) r)
    \<and> (\<forall>i. i \<notin> (\<lambda>x. d @ x) ` set disti_suffixes \<longrightarrow> text_of t i = text_of s i)
    \<and> (\<forall>d'. d' \<noteq> d \<longrightarrow> obj_get (sensors (page t)) d' = obj_get (sensors (page s)) d')
    \<and> (config_status (page s) r = ''Requested sensor software update'' \<longrightarrow>
        (\<exists>i. (w, RequestFrame \<lparr>req_jsonrpc = ''2.0'', req_id = i, req_method = ''sensor_update_software'',
           req_params = Some (JObj [(''device_id'', JStr d)])\<rparr>) \<in> set (sent t)))"
proof -
  have x: "''.connection_state'' \<in> set disti_suffixes" by (simp add: disti_suffixes_def)
  obtain u where u: "establishSensorElement d ''.connection_state'' s = (u, None)" "disti_rows U (with_key d ks) u"
    "\<forall>i. i \<notin> (\<lambda>x. d @ x) ` set disti_suffixes \<longrightarrow> text_of u i = text_of s i"
    "sensors (page u) = (if d \<in> set ks then sensors (page s) else obj_set d new_sensor (sensors (page s)))"
    "page u = (page s)\<lparr>table := table (page u), sensors := sensors (page u)\<rparr>" "conn_view u = conn_view s"
    using establish_sensor [OF assms(1) x assms(2,3)] by blast
  have au: "snd (vars (page u)) = snd (vars (page s))"
    using arg_cong [OF u(5), of "\<lambda>pg. snd (vars pg)"] by (simp add: vars_def)
  have dk: "d \<in> set (with_key d ks)" by simp
  obtain r0 v where v: "obj_get (sensors (page u)) d = Some r0" "set_sensor d (\<lambda>r. r\<lparr>connection_state := st\<rparr>) u = (v, None)"
    "disti_rows U (with_key d ks) v" "text_of v = text_of u"
    "sensors (page v) = obj_set d (r0\<lparr>connection_state := st\<rparr>) (sensors (page u))"
    "snd (vars (page v)) = snd (vars (page u))" "conn_view v = conn_view u"
    using set_sensor_effect [OF u(2) dk] by blast
  define r where "r = r0\<lparr>connection_state := st\<rparr>"
  have r: "obj_get (sensors (page v)) d = Some r" "availableAppVersion (page v) = Some (JStr a)"
    using v(5,6) au assms(5) by (simp_all add: js_simps r_def vars_def)
  have ow: "open_socket v w" using assms(4) open_socket_view [OF v(7)] open_socket_view [OF u(6)] by simp
  obtain z where z: "showConnection d st v = (z, None)" "disti_rows U (with_key d ks) z" "text_of z = text_of v"
    "vars (page z) = vars (page v)" "conn_view z = conn_view v"
    using showConnection_effect [OF v(3) dk ow] by blast
  have rz: "obj_get (sensors (page z)) d = Some r" "availableAppVersion (page z) = Some (JStr a)"
    using z(4) r by (simp_all add: vars_def)
  have oz: "open_socket z w" using ow open_socket_view [OF z(5)] by simp
  obtain t where t: "checkSensorConfigStatus d z = (t, None)" "disti_rows U (with_key d ks) t" "vars (page t) = vars (page z)"
    "text_of t (status_id d) = Some (config_status (page z) r)"
    "\<forall>i. i \<notin> {status_id d, d @ ''.region''} \<longrightarrow> text_of t i = text_of z i"
    "config_status (page z) r = ''Requested sensor software update'' \<longrightarrow>
        (\<exists>i. (w, RequestFrame \<lparr>req_jsonrpc = ''2.0'', req_id = i, req_method = ''sensor_update_software'',
           req_params = Some (JObj [(''device_id'', JStr d)])\<rparr>) \<in> set (sent t))"
    using check_effect [OF z(2) assms(2) dk oz rz(2,1)] by blast
  have run: "handleConnectionState d st s = (t, None)"
    unfolding handleConnectionState_def using u(1) v(2) z(1) t(1) by simp
  have cs: "config_status (page s) r = config_status (page z) r"
    by (rule config_status_vars) (use z(4) v(6) au in simp)
  have sens: "sensors (page t) = sensors (page v)" using t(3) z(4) by (simp add: vars_def)
  have "text_of t i = text_of s i" if "i \<notin> (\<lambda>x. d @ x) ` set disti_suffixes" for i
  proof -
    have "i \<notin> {status_id d, d @ ''.region''}" using that by (auto simp: status_id_def disti_suffixes_def)
    then show ?thesis using t(5) z(3) v(4) u(3) that by simp
  qed
  moreover have "obj_get (if d \<in> set ks then sensors (page s) else [(d, new_sensor)]) d = Some r0"
    using v(1) u(4) by (simp add: js_simps split: if_splits)
  moreover have "obj_get (sensors (page t)) d' = obj_get (sensors (page s)) d'" if "d' \<noteq> d" for d'
    using sens v(5) u(4) that by (simp add: js_simps)
  ultimately show ?thesis
    using run t(2,4,6) cs sens r(1) r_def by (intro exI [of _ t] exI [of _ r0] exI [of _ r]) simp
qed

subsection \<open>Every event keeps rows and sensors together\<close>

lemma stays_kept: "stays (kept P) a \<longleftrightarrow> (\<forall>s. P s \<longrightarrow> P (fst (a s)))"
  by (simp add: stays_def kept_def)

abbreviation safe :: "string set \<Rightarrow> disti act \<Rightarrow> bool" where
  "safe U \<equiv> stays (kept (disti_inv U))"

named_theorems safe_acts \<open>introduction rules for handlers that keep rows and sensors together\<close>

lemmas safe_intros [safe_acts] = kept.stays_simple kept.stays_steps kept.stays_for_each kept.stays_if
  kept.stays_read_list

lemma safeD: "safe U a \<Longrightarrow> disti_inv U s \<Longrightarrow> disti_inv U (fst (a s))"
  by (simp add: stays_kept)

lemma safe_read [safe_acts]: "(\<And>j x. v = Some j \<Longrightarrow> json_prop k j = Inr x \<Longrightarrow> safe U (f x)) \<Longrightarrow> safe U (read k v f)"
  by (auto simp: read_def kept.stays_simple split: option.splits sum.splits)

lemma safe_change: 
  assumes "\<And>pg. table (f pg) = table pg \<and> dom (f pg) = dom pg \<and> sensors (f pg) = sensors pg \<and> tracked (f pg) = tracked pg"
  shows "safe U (change_page f)"
  using assms by (auto simp: stays_kept disti_inv_def disti_rows_def srow.rows_ok_def static_ids_def change_page_def)

lemma safe_rows:
  assumes "\<And>ks s. srow.rows_ok ks s \<Longrightarrow> srow.rows_ok ks (fst (a s))"
    and "\<And>s. sensors (page (fst (a s))) = sensors (page s)" and "\<And>s. tracked (page (fst (a s))) = tracked (page s)"
  shows "safe U a"
  using assms unfolding stays_kept disti_inv_def disti_rows_def by metis

lemma safe_element [safe_acts]: "safe U (set_element i f)"
proof (rule safe_rows)
  fix ks and s :: "disti cws"
  assume "srow.rows_ok ks s"
  moreover have "static_ids (fst (set_element i f s)) = static_ids s"
    by (rule static_ids_frame) (rule keeps_pollsD [OF keeps_element])
  ultimately show "srow.rows_ok ks (fst (set_element i f s))"
    by (auto simp: srow.rows_ok_def set_element_def change_page_def split: option.splits)
qed (auto simp: set_element_def change_page_def split: option.splits)

lemma safe_on_element [safe_acts]: "safe U (on_element i f)"
proof (rule safe_rows)
  fix ks and s :: "disti cws"
  assume "srow.rows_ok ks s"
  moreover have "static_ids (fst (on_element i f s)) = static_ids s"
    by (rule static_ids_frame) (rule keeps_pollsD [OF keeps_on_element])
  ultimately show "srow.rows_ok ks (fst (on_element i f s))"
    using srow.set_in_rows_table
    by (auto simp: srow.rows_ok_def on_element_def set_element_def change_page_def split: option.splits)
qed (auto simp: on_element_def set_element_def change_page_def split: option.splits)

lemma safe_derived [safe_acts]: "safe U (put_inner i t)" "safe U (set_inner i t)" "safe U (show_prop v k i)"
  by (auto simp: put_inner_def set_inner_def show_prop_def intro!: safe_acts)

lemma disti_inv_page: "page t = page s \<Longrightarrow> disti_inv U t = disti_inv U s"
  by (simp add: disti_inv_def disti_rows_def srow.rows_ok_def static_ids_def)

lemma safe_request_then [safe_acts]: "(\<And>i. safe U (f i)) \<Longrightarrow> safe U (request_then m p f)"
  by (rule kept.stays_request_then) (simp_all add: kept_def disti_inv_page [OF page_sendJsonRequest])

lemma safe_request [safe_acts]: "safe U (request m p)"
  by (simp add: request_def safe_acts)

lemma disti_rows_page:
  "page t = pg \<Longrightarrow> table pg = table (page s) \<Longrightarrow> dom pg = dom (page s) \<Longrightarrow> sensors pg = sensors (page s) \<Longrightarrow>
    snd ` set (tracked pg) \<subseteq> U \<Longrightarrow> disti_rows U ks s \<Longrightarrow> disti_rows U ks t"
  by (simp add: disti_rows_def srow.rows_ok_def static_ids_def)

lemma safe_track [safe_acts]: "d \<in> U \<Longrightarrow> safe U (track d i)"
proof -
  assume d: "d \<in> U"
  have "disti_rows U ks (fst (track d i s))" if "disti_rows U ks s" for ks and s :: "disti cws"
  proof -
    have "snd ` set (obj_set (nat_str i) d (tracked (page s))) \<subseteq> insert d (snd ` set (tracked (page s)))"
      using set_obj_set [of "nat_str i" d "tracked (page s)"] by force
    also have "\<dots> \<subseteq> U" using that d by (simp add: disti_rows_def)
    finally have "snd ` set (obj_set (nat_str i) d (tracked (page s))) \<subseteq> U" .
    then show ?thesis
      by (intro disti_rows_page [OF _ _ _ _ _ that, of _ "(page s)\<lparr>tracked := obj_set (nat_str i) d (tracked (page s))\<rparr>"])
        (simp_all add: track_def change_page_def)
  qed
  then show ?thesis unfolding stays_kept disti_inv_def by blast
qed

lemma safe_send [safe_acts]: "d \<in> U \<Longrightarrow> safe U (sendSensorRequest d m)"
  unfolding sendSensorRequest_def by (intro safe_acts)

lemma safe_set_sensor [safe_acts]: "safe U (set_sensor d f)"
proof -
  have "disti_rows U ks (fst (set_sensor d f s))" if "disti_rows U ks s" for ks and s :: "disti cws"
  proof (cases "obj_get (sensors (page s)) d")
    case (Some r)
    then have "d \<in> set (obj_keys (sensors (page s)))" by (metis map_of_eq_None_iff list.set_map option.distinct(1))
    then have "d \<in> set ks" using that by (simp add: disti_rows_def)
    from set_sensor_effect [OF that this, of f] show ?thesis by auto
  qed (use that in \<open>simp add: set_sensor_def\<close>)
  then show ?thesis unfolding stays_kept disti_inv_def by blast
qed

lemma safe_establish:
  assumes "prefix_free U" "d \<in> U" "x \<in> set disti_suffixes"
  shows "safe U (establishSensorElement d x)"
proof -
  have "disti_inv U (fst (establishSensorElement d x s))" if "disti_rows U ks s" for ks s
    using establish_sensor [OF that assms(3,1,2)] by (auto simp: disti_inv_def)
  then show ?thesis unfolding stays_kept disti_inv_def by blast
qed

lemma suffixes_listed [simp]:
  "''.region'' \<in> set disti_suffixes" "''.status'' \<in> set disti_suffixes" "''.connection_state'' \<in> set disti_suffixes"
  "''.app_version'' \<in> set disti_suffixes" "''.platform_support_version'' \<in> set disti_suffixes"
  by (simp_all add: disti_suffixes_def)

lemma safe_clear [safe_acts]: "safe U clearAllData"
proof -
  have "disti_rows U [] (fst (clearAllData s))" if "disti_inv U s" for s
    using that by (auto simp: clearAllData_def clear_table_def change_page_def disti_inv_def disti_rows_def
        srow.rows_ok_def static_ids_def)
  then show ?thesis unfolding stays_kept disti_inv_def by blast
qed

lemma safe_check:
  assumes "prefix_free U" "d \<in> U"
  shows "safe U (checkSensorConfigStatus d)"
proof -
  have decide: "disti_inv U (fst (decideStatus d r s))" if inv: "disti_inv U s" for r s
  proof -
    have put: "disti_inv U (fst (put_inner i t s))" for i t by (rule safeD [OF _ inv]) (intro safe_acts)
    have update: "disti_inv U (fst (steps [put_inner i t, sendSensorRequest d m] s))" for i t m
      by (rule safeD [OF _ inv], intro safe_acts) (auto intro!: safe_acts assms(2))
    have change: "disti_inv U (fst (steps [put_inner i t, request_then m p (track d), put_inner i' t'] s))" for i t m p i' t'
      by (rule safeD [OF _ inv], intro safe_acts) (auto intro!: safe_acts assms(2))
    show ?thesis
      unfolding decideStatus_def Let_def
      by (cases "startsWith (availableAppVersion (page s)) (app_version r)")
        (simp_all add: put update change inv del: steps.simps)
  qed
  have "safe U (\<lambda>s. case obj_get (sensors (page s)) d of None \<Rightarrow> (s, Some TypeError) | Some r \<Rightarrow> decideStatus d r s)"
    using decide by (auto simp: stays_kept split: option.splits)
  then show ?thesis
    unfolding checkSensorConfigStatus_def using assms by (auto intro!: safe_acts safe_establish)
qed

lemma safe_handle:
  assumes "prefix_free U" "d \<in> U"
  shows "safe U (handleConnectionState d st)"
  using assms by (auto simp: handleConnectionState_def showConnection_def intro!: safe_acts safe_establish safe_check)

subsection \<open>Runs of the page\<close>

text \<open>A message that is about a device names one of the installation.\<close>

definition about_device :: "string set \<Rightarrow> json option \<Rightarrow> bool" where
  "about_device U p \<longleftrightarrow> (\<forall>j v. p = Some j \<and> json_prop ''device_id'' j = Inr v \<longrightarrow> to_str v \<in> U)"

inductive disti_step :: "string set \<Rightarrow> disti cws \<Rightarrow> disti cws \<Rightarrow> bool" for U where
  state_change: "disti_step U s (fst (state_cb disti_handlers cb st s))"
| response: "(\<And>p. req_method q = ''sensor_get_basic_info'' \<Longrightarrow> json_prop ''result'' rsp = Inr p \<Longrightarrow> about_device U p) \<Longrightarrow>
    disti_step U s (fst (inboundResponse disti_handlers rsp q s))"
| notification: "(\<And>p. json_prop ''params'' notif = Inr p \<Longrightarrow> about_device U p) \<Longrightarrow>
    disti_step U s (fst (inboundNotification disti_handlers notif s))"
| select: "disti_step U s (fst (setSelectedRegion r s))"
| toggle: "disti_step U s (fst (toggleRegionView s))"
| connection: "page t = page s \<Longrightarrow> disti_step U s t"

lemma safe_change_of: "(\<And>pg. table (f pg) = table pg) \<Longrightarrow> (\<And>pg. dom (f pg) = dom pg) \<Longrightarrow>
    (\<And>pg. sensors (f pg) = sensors pg) \<Longrightarrow> (\<And>pg. tracked (f pg) = tracked pg) \<Longrightarrow> safe U (change_page f)"
  by (rule safe_change) simp

lemma safe_about:
  assumes "prefix_free U" "about_device U p"
  shows "safe U (onSensorConnectionState p)" "safe U (onSensorBasicInfo p)" "safe U (onOemCfgUpdateStatus p)"
proof -
  show c: "safe U (onSensorConnectionState p)"
    using assms unfolding onSensorConnectionState_def about_device_def by (auto intro!: safe_read safe_handle)
  show "safe U (onSensorBasicInfo p)"
    unfolding onSensorBasicInfo_def by (intro safe_read kept.stays_if c kept.stays_simple)
  have finish: "safe U (steps [establishSensorElement d ''.status'', put_inner (status_id d) t])" if "d \<in> U" for d t
    using that assms(1) by (intro kept.stays_steps) (auto intro: safe_establish safe_derived)
  have complete: "safe U (steps [sendSensorRequest d m, steps [establishSensorElement d ''.status'', put_inner (status_id d) t]])"
    if "d \<in> U" for d m t
    using that by (intro kept.stays_steps) (auto simp del: steps.simps intro: safe_send finish)
  have U: "p = Some j \<Longrightarrow> json_prop ''device_id'' j = Inr v \<Longrightarrow> to_str v \<in> U" for j v
    using assms(2) by (simp add: about_device_def)
  show "safe U (onOemCfgUpdateStatus p)"
    unfolding onOemCfgUpdateStatus_def Let_def
    by (intro safe_read kept.stays_if finish complete) (rule U; assumption)+
qed

lemma safe_responses:
  assumes "prefix_free U" "d \<in> U"
  shows "safe U (onGeoRegionResponse d v)" "safe U (onSoftwareVersionResponse d v)"
  using assms unfolding onGeoRegionResponse_def onSoftwareVersionResponse_def
  by (auto intro!: safe_acts safe_establish safe_check)

lemma safe_mapPending:
  assumes "safe U (f None)" "\<And>d. d \<in> U \<Longrightarrow> safe U (f (Some d))"
  shows "safe U (mapPendingSensor i f)"
proof -
  have "disti_inv U (fst (mapPendingSensor i f s))" if inv: "disti_inv U s" for s
  proof (cases "obj_get (pendingRequests s) (to_str i)")
    case (Some q)
    have "safe U (f (obj_get (tracked (page s)) (to_str i)))"
    proof (cases "obj_get (tracked (page s)) (to_str i)")
      case (Some d)
      have "snd ` set (tracked (page s)) \<subseteq> U" using inv by (auto simp: disti_inv_def disti_rows_def)
      moreover have "d \<in> snd ` set (tracked (page s))" using map_of_SomeD [OF Some] by force
      ultimately show ?thesis using Some assms(2) by auto
    qed (use assms(1) in simp)
    then show ?thesis using Some inv safeD by (simp add: mapPendingSensor_def)
  qed (use inv in \<open>simp add: mapPendingSensor_def\<close>)
  then show ?thesis by (simp add: stays_kept)
qed

lemma safe_tables: "safe U (onRepoVersions v)" "safe U (onAllGeoRegions v)" "safe U (onGetAllSensorIds v)"
  unfolding onRepoVersions_def onAllGeoRegions_def onGetAllSensorIds_def
  by (auto intro!: safe_acts safe_change_of)

lemma safe_select:
  assumes "prefix_free U"
  shows "safe U (setSelectedRegion r)"
proof -
  have "disti_inv U (fst (for_each (obj_keys (sensors (page s))) checkSensorConfigStatus s))" if inv: "disti_inv U s" for s
  proof -
    have "set (obj_keys (sensors (page s))) \<subseteq> U" using inv by (auto simp: disti_inv_def disti_rows_def)
    then have "safe U (for_each (obj_keys (sensors (page s))) checkSensorConfigStatus)"
      by (auto intro!: kept.stays_for_each safe_check [OF assms])
    from safeD [OF this inv] show ?thesis .
  qed
  then have "safe U (\<lambda>s. for_each (obj_keys (sensors (page s))) checkSensorConfigStatus s)" by (simp add: stays_kept)
  then show ?thesis
    unfolding setSelectedRegion_def closeRegionView_def by (auto intro!: safe_acts safe_change_of)
qed

lemma safe_log: "safe U (\<lambda>s. (log_line m s, None))"
proof -
  have "disti_inv U (log_line m s) = disti_inv U s" for s
    by (rule disti_inv_page) (simp add: log_line_def)
  then show ?thesis by (simp add: stays_kept)
qed

lemma safe_response:
  assumes "prefix_free U"
    and "\<And>p. req_method q = ''sensor_get_basic_info'' \<Longrightarrow> json_prop ''result'' rsp = Inr p \<Longrightarrow> about_device U p"
  shows "safe U (disti_response rsp q)"
proof -
  have about: "safe U (read ''id'' (Some rsp) (\<lambda>i. mapPendingSensor i (\<lambda>d. case d of None \<Rightarrow> pass | Some d \<Rightarrow> f d v)))"
    if "\<And>d. d \<in> U \<Longrightarrow> safe U (f d v)" for f and v :: "json option"
    by (intro safe_read safe_mapPending) (simp_all add: kept.stays_simple that)
  show ?thesis
    unfolding disti_response_def Let_def
    apply (rule safe_read)
    apply (rule kept.stays_if, rule safe_log)
    apply (rule kept.stays_if, rule safe_tables)
    apply (rule kept.stays_if, rule safe_about, rule assms(1), rule assms(2), assumption, simp)
    apply (rule kept.stays_if, rule safe_tables)
    apply (rule kept.stays_if, rule safe_tables)
    apply (rule kept.stays_if, rule about, rule safe_responses [OF assms(1)], assumption)
    apply (rule kept.stays_if, rule about, rule safe_responses [OF assms(1)], assumption)
    apply (rule kept.stays_simple)
    done
qed

lemma disti_step_inv:
  assumes "disti_step U s t" "prefix_free U" "disti_inv U s"
  shows "disti_inv U t"
  using assms(1)
proof cases
  case (state_change cb st)
  have "safe U (disti_onSocketState st)" unfolding disti_onSocketState_def by (auto intro!: safe_acts)
  then show ?thesis using state_change assms(3) safeD by (simp add: disti_handlers_def)
next
  case (response q rsp)
  have "safe U (disti_response rsp q)" by (rule safe_response [OF assms(2) response(2)])
  then show ?thesis using response assms(3) safeD by (simp add: disti_handlers_def)
next
  case (notification notif)
  have "safe U (disti_notification notif)"
    unfolding disti_notification_def using notification(2) assms(2) by (auto intro!: safe_acts safe_about)
  then show ?thesis using notification assms(3) safeD by (simp add: disti_handlers_def)
next
  case (select r)
  then show ?thesis using safe_select [OF assms(2)] assms(3) safeD by blast
next
  case toggle
  have "safe U toggleRegionView" unfolding toggleRegionView_def by (rule safe_element)
  then show ?thesis using toggle assms(3) safeD by blast
next
  case connection
  then show ?thesis using assms(3) disti_inv_page by blast
qed

text \<open>The page when it has loaded.\<close>

definition disti_start :: "disti cws \<Rightarrow> bool" where
  "disti_start s \<longleftrightarrow> sensors (page s) = [] \<and> tracked (page s) = [] \<and> static_ids s
     \<and> (\<forall>c \<in> set (table (page s)). c = TextNode)"

lemma disti_reach_inv:
  assumes "(disti_step U)\<^sup>*\<^sup>* s0 s" "disti_start s0" "prefix_free U"
  shows "disti_inv U s"
  using assms(1)
proof (induction rule: rtranclp_induct)
  case base
  have "filter (\<lambda>c. c \<noteq> TextNode) (table (page s0)) = []" using assms(2) by (auto simp: disti_start_def filter_empty_conv)
  then have "disti_rows U [] s0" using assms(2)
    by (simp add: disti_rows_def srow.rows_ok_def srow.table_of_def disti_start_def)
  then show ?case by (auto simp: disti_inv_def)
qed (use disti_step_inv assms(3) in blast)

subsection \<open>The page is well formed\<close>

lemma disti_reach_rows:
  "(disti_step U)\<^sup>*\<^sup>* s0 s \<Longrightarrow> disti_start s0 \<Longrightarrow> prefix_free U \<Longrightarrow> \<exists>ks. disti_rows U ks s"
  using disti_reach_inv unfolding disti_inv_def by blast

text \<open>
  C11: The table of sensors and the variables of the page always fit together.  Whatever the
  controller sends about the devices of the installation (none of whose names begins another),
  whatever the user selects and however often the connection is lost, the rows of the table are
  those of the sensors that are entered, one each and in ascending order, and every sensor that
  is entered has an element for each of its values and no other sensor has any.
\<close>

theorem disti_page_well_formed:
  assumes "(disti_step U)\<^sup>*\<^sup>* s0 s" and "disti_start s0" and "prefix_free U"
  shows "\<exists>ks. srow.rows_ok ks s \<and> set ks \<subseteq> U \<and> set (obj_keys (sensors (page s))) = set ks
    \<and> (\<forall>d x. x \<in> set disti_suffixes \<longrightarrow>
         (getElementById (d @ x) s \<noteq> None \<longleftrightarrow> obj_get (sensors (page s)) d \<noteq> None))"
proof -
  obtain ks where ks: "disti_rows U ks s" using disti_reach_rows [OF assms] by blast
  have "getElementById (d @ x) s \<noteq> None \<longleftrightarrow> obj_get (sensors (page s)) d \<noteq> None"
    if "x \<in> set disti_suffixes" for d x
    using srow.rows_ok_text [of ks s x d] ks that
    by (auto simp: disti_rows_def text_of_def map_of_eq_None_iff)
  then show ?thesis using ks by (auto simp: disti_rows_def)
qed

text \<open>A page that has loaded and opened its connection, and a notification.\<close>

definition demo_disti :: "disti cws" where
  "demo_disti = (ControllerWebSocket \<lparr>dom = [(''selected_region'', blank_element)], alerts = [], pollers = 0,
     cookies = [], table = [TextNode], sensors = [], availableAppVersion = Some (JStr ''1.2-b''),
     availablePlatformSupportVersion = Some (JStr ''3''), selectedRegion = Some JNull, regions = [], tracked = []\<rparr>)
     \<lparr>socket := Some 0, sockets := [(OPEN, True)]\<rparr>"

definition connected_change :: "string \<Rightarrow> json" where
  "connected_change d = JObj [(''device_id'', JStr d), (''connection_state'', JStr ''CONNECTED'')]"

lemma demo_disti_ok: "disti_start demo_disti" "open_socket demo_disti 0" "prefix_free {''RSP-1'', ''RSP-2''}"
proof -
  show "prefix_free {''RSP-1'', ''RSP-2''}" by (rule same_length_prefix_free [where n = 5]) simp
qed (simp_all add: disti_start_def demo_disti_def ControllerWebSocket_def open_socket_def static_ids_def)

definition demo_notification :: json where
  "demo_notification = JObj [(''method'', JStr ''sensor_connection_state_notification''), (''params'', connected_change ''RSP-1'')]"

lemma demo_step: "(disti_step {''RSP-1'', ''RSP-2''})\<^sup>*\<^sup>* demo_disti (fst (inboundNotification disti_handlers demo_notification demo_disti))"
proof (rule r_into_rtranclp, rule disti_step.notification)
  fix p
  assume "json_prop ''params'' demo_notification = Inr p"
  then show "about_device {''RSP-1'', ''RSP-2''} p"
    by (auto simp: about_device_def demo_notification_def connected_change_def to_str_def)
qed

theorem disti_page_well_formed_witness:
  "\<exists>ks. srow.rows_ok ks (fst (inboundNotification disti_handlers demo_notification demo_disti))
    \<and> set ks \<subseteq> {''RSP-1'', ''RSP-2''}"
  using disti_page_well_formed [OF demo_step demo_disti_ok(1,3)] by (elim exE conjE) (intro exI conjI)

subsection \<open>Notifications about the connection\<close>

lemma connection_notification:
  "obj_get ps ''device_id'' = Some (JStr d) \<Longrightarrow> obj_get ps ''connection_state'' = Some st \<Longrightarrow>
    onSensorConnectionState (Some (JObj ps)) = handleConnectionState d (Some st)"
  by (simp add: onSensorConnectionState_def read_def to_str_def fun_eq_iff)

text \<open>
  C17: The status of a sensor is right after every notification about it.  In every state the page
  can reach, while the connection is open, a notification about the connection of a device of the
  installation is handled without an error; the sensor is then entered with the state the
  notification says, and its status says what it should, given what is known: that its
  connection is waited for, that its software is being updated, that its region is being changed,
  or that it is as selected.  Nothing shown of other sensors changes.
\<close>

theorem disti_status_correct:
  assumes "(disti_step U)\<^sup>*\<^sup>* s0 s" and "disti_start s0" and "prefix_free U" and "d \<in> U"
    and "open_socket s w" and "availableAppVersion (page s) = Some (JStr a)"
    and "obj_get ps ''device_id'' = Some (JStr d)" and "obj_get ps ''connection_state'' = Some st"
  shows "\<exists>t r. onSensorConnectionState (Some (JObj ps)) s = (t, None)
    \<and> obj_get (sensors (page t)) d = Some r \<and> connection_state r = Some st
    \<and> text_of t (status_id d) = Some (config_status (page s) r)
    \<and> (\<forall>i. i \<notin> (\<lambda>x. d @ x) ` set disti_suffixes \<longrightarrow> text_of t i = text_of s i)
    \<and> (\<forall>d'. d' \<noteq> d \<longrightarrow> obj_get (sensors (page t)) d' = obj_get (sensors (page s)) d')"
proof -
  obtain ks where ks: "disti_rows U ks s" using disti_reach_rows [OF assms(1-3)] by blast
  from handleConnectionState_effect [OF ks assms(3-6), of "Some st"]
  obtain t r0 r where "handleConnectionState d (Some st) s = (t, None)" "r = r0\<lparr>connection_state := Some st\<rparr>"
    "obj_get (sensors (page t)) d = Some r" "text_of t (status_id d) = Some (config_status (page s) r)"
    "\<forall>i. i \<notin> (\<lambda>x. d @ x) ` set disti_suffixes \<longrightarrow> text_of t i = text_of s i"
    "\<forall>d'. d' \<noteq> d \<longrightarrow> obj_get (sensors (page t)) d' = obj_get (sensors (page s)) d'" by blast
  then show ?thesis by (intro exI [of _ t] exI [of _ r]) (simp add: connection_notification [OF assms(7,8)])
qed

theorem disti_status_correct_witness:
  "\<exists>t (r :: sensor). onSensorConnectionState (Some (JObj [(''device_id'', JStr ''RSP-1''), (''connection_state'', JStr ''DISCONNECTED'')])) demo_disti = (t, None)
    \<and> connection_state r = Some (JStr ''DISCONNECTED'') \<and> text_of t (status_id ''RSP-1'') = Some ''Waiting for sensor connection''"
proof -
  have "availableAppVersion (page demo_disti) = Some (JStr ''1.2-b'')" by (simp add: demo_disti_def ControllerWebSocket_def)
  from disti_status_correct [OF rtranclp.rtrancl_refl demo_disti_ok(1,3) _ demo_disti_ok(2) this, of "''RSP-1''"
      "[(''device_id'', JStr ''RSP-1''), (''connection_state'', JStr ''DISCONNECTED'')]" "JStr ''DISCONNECTED''"]
  obtain t and r :: sensor where "onSensorConnectionState (Some (JObj [(''device_id'', JStr ''RSP-1''), (''connection_state'', JStr ''DISCONNECTED'')])) demo_disti = (t, None)"
    "connection_state r = Some (JStr ''DISCONNECTED'')" "text_of t (status_id ''RSP-1'') = Some (config_status (page demo_disti) r)"
    by (elim meta_impE exE conjE) (simp, simp, simp)
  moreover from this(2) have "config_status (page demo_disti) r = ''Waiting for sensor connection''" by (simp add: config_status_def)
  ultimately show ?thesis by (intro exI [of _ t] exI [of _ r] conjI) simp_all
qed

text \<open>
  C31: A sensor is told to update its software before its version is known.  When the page hears
  that a device it has no row for is connected, and the version of the repository is known, it
  sends \<open>sensor_update_software\<close> at once and says so in the status: the version it compares is the
  \<open>???\<close> it has just entered, since the answer to its own \<open>sensor_get_versions\<close> is still to come.
\<close>

theorem update_before_versions:
  assumes "(disti_step U)\<^sup>*\<^sup>* s0 s" and "disti_start s0" and "prefix_free U" and "d \<in> U"
    and "open_socket s w" and "availableAppVersion (page s) = Some (JStr a)"
    and "a \<noteq> ''UNKNOWN''" and "\<not> starts_with ''???'' a" and "obj_get (sensors (page s)) d = None"
  shows "\<exists>t i. onSensorConnectionState (Some (connected_change d)) s = (t, None)
    \<and> text_of t (status_id d) = Some ''Requested sensor software update''
    \<and> (w, RequestFrame \<lparr>req_jsonrpc = ''2.0'', req_id = i, req_method = ''sensor_update_software'',
         req_params = Some (JObj [(''device_id'', JStr d)])\<rparr>) \<in> set (sent t)"
proof -
  obtain ks where ks: "disti_rows U ks s" using disti_reach_rows [OF assms(1-3)] by blast
  have d: "d \<notin> set ks" using ks assms(9) by (auto simp: disti_rows_def map_of_eq_None_iff)
  obtain t r0 r where t: "handleConnectionState d (Some (JStr ''CONNECTED'')) s = (t, None)"
    "obj_get [(d, new_sensor)] d = Some r0" "r = r0\<lparr>connection_state := Some (JStr ''CONNECTED'')\<rparr>"
    "text_of t (status_id d) = Some (config_status (page s) r)"
    "config_status (page s) r = ''Requested sensor software update'' \<longrightarrow>
        (\<exists>i. (w, RequestFrame \<lparr>req_jsonrpc = ''2.0'', req_id = i, req_method = ''sensor_update_software'',
           req_params = Some (JObj [(''device_id'', JStr d)])\<rparr>) \<in> set (sent t))"
    using handleConnectionState_effect [OF ks assms(3-6), of "Some (JStr ''CONNECTED'')"] d by auto
  have "r = new_sensor\<lparr>connection_state := Some (JStr ''CONNECTED'')\<rparr>" using t(2,3) by simp
  then have "config_status (page s) r = ''Requested sensor software update''"
    using assms(6-8) by (simp add: config_status_def new_sensor_def unknown_def startsWith_def to_str_def)
  moreover have "onSensorConnectionState (Some (connected_change d)) s = (t, None)"
    using t(1) by (simp add: connected_change_def connection_notification)
  ultimately show ?thesis using t(4,5) by auto
qed

theorem update_before_versions_witness:
  "\<exists>t. onSensorConnectionState (Some (connected_change ''RSP-1'')) demo_disti = (t, None)
    \<and> text_of t (status_id ''RSP-1'') = Some ''Requested sensor software update''"
  using update_before_versions [OF rtranclp.rtrancl_refl demo_disti_ok(1,3) _ demo_disti_ok(2), of "''RSP-1''" "''1.2-b''"]
  by (auto simp: demo_disti_def ControllerWebSocket_def)

end
