(* ===== verification/Page_TagStats.thy ===== *)
theory Page_TagStats
  imports Page_Base
begin

text \<open>
  The script of \<^verbatim>\<open>web-admin/tag-stats.html\<close> (lines 14-241): a table with a row for each tag and a
  column for each antenna or alias that has read it; the colour of a cell tells how strong and
  how recent the reading is, which a legend explains.
\<close>

subsection \<open>State\<close>

record header_cell =
  hc_id :: string
  hc_text :: string

text \<open>A cell: whether it has the class \<open>w3-dark-grey\<close>, and what it shows.\<close>

record stat_cell =
  c_grey :: bool
  c_text :: string

text \<open>
  The table, as its header and the rows below it; the variables of the page; the background
  colours of the legend by the ids of its tiles; what \<open>Date.now()\<close> returns.
\<close>

record stats_page = dom_page +
  headers :: "header_cell list"
  body :: "stat_cell list list"
  colLookup :: "nat obj"
  stats_update :: "json option"
  legend :: "string obj"
  clock :: jsnum

type_synonym stats = "unit stats_page_ext dom_page_ext"

subsection \<open>Colours\<close>

definition t1 :: jsnum where "t1 = Fin 60000"
definition t2 :: jsnum where "t2 = Fin 300000"
definition t3 :: jsnum where "t3 = Fin 900000"
definition r1 :: jsnum where "r1 = Fin (- 50)"
definition r2 :: jsnum where "r2 = Fin (- 70)"

definition getColor :: "jsnum \<Rightarrow> jsnum \<Rightarrow> string" where
  "getColor mean elapsed =
     (if num_less elapsed t1 then
        (if num_less r1 mean then ''#00FF00'' else if num_less r2 mean then ''#FFFF00'' else ''#FF0000'')
      else if num_less elapsed t2 then
        (if num_less r1 mean then ''#00CC00'' else if num_less r2 mean then ''#CCCC00'' else ''#CC0000'')
      else if num_less elapsed t3 then
        (if num_less r1 mean then ''#009900'' else if num_less r2 mean then ''#999900'' else ''#990000'')
      else
        (if num_less r1 mean then ''#006600'' else if num_less r2 mean then ''#666600'' else ''#660000''))"



definition tile_id :: "nat \<Rightarrow> nat \<Rightarrow> string" where
  "tile_id t r = ''t'' @ nat_str t @ ''r'' @ nat_str r"



subsection \<open>Columns\<close>

text \<open>
  A column is added to the header; then the loop over the rows reads \<open>table.row\<close>, which is
  \<open>undefined\<close> (the property is called \<open>rows\<close>), at its first round.
\<close>

definition add_column :: "json \<Rightarrow> stats act" where
  "add_column v s = (let pg = page s; i = prop_key v in
     (s\<lparr>page := pg\<lparr>colLookup := obj_set i (length (headers pg)) (colLookup pg),
        headers := headers pg @ [\<lparr>hc_id = i, hc_text = inner_text (Some v)\<rparr>]\<rparr>\<rparr>,
      if body pg = [] then None else Some TypeError))"

definition establish_column :: "json \<Rightarrow> stats act" where
  "establish_column v s =
     (if obj_get (colLookup (page s)) (prop_key v) = None then add_column v s else (s, None))"

subsection \<open>Rows\<close>

text \<open>The text of the first cell (there is one in every row: the header has one).\<close>

definition row_key :: "stat_cell list \<Rightarrow> string" where
  "row_key r = (case r of [] \<Rightarrow> [] | c # cs \<Rightarrow> c_text c)"

fun index_where :: "('a \<Rightarrow> bool) \<Rightarrow> 'a list \<Rightarrow> nat" where
  "index_where P [] = 0"
| "index_where P (x # xs) = (if P x then 0 else Suc (index_where P xs))"

definition new_row :: "string \<Rightarrow> nat \<Rightarrow> stat_cell list" where
  "new_row epc n = (replicate n \<lparr>c_grey = False, c_text = []\<rparr>)[0 := \<lparr>c_grey = False, c_text = epc\<rparr>]"

text \<open>The row of a tag: found, or inserted before the first one that comes after it; with its index.\<close>

definition establish_stat_row :: "string \<Rightarrow> stats_page \<Rightarrow> nat \<times> stats_page" where
  "establish_stat_row epc pg =
     (let i = index_where (\<lambda>r. row_key r = epc) (body pg) in
      if i < length (body pg) then (i, pg)
      else (let j = index_where (\<lambda>r. epc < row_key r) (body pg) in
        (j, pg\<lparr>body := take j (body pg) @ [new_row epc (length (headers pg))] @ drop j (body pg)\<rparr>)))"

text \<open>\<open>x.toFixed(1)\<close>.\<close>

fun to_fixed1 :: "jsnum \<Rightarrow> string" where
  "to_fixed1 (Fin q) = (if \<bar>q\<bar> \<ge> of_int (10 ^ 21) then num_str (Fin q)
     else (let n = \<lfloor>\<bar>q\<bar> * 10 + 1 / 2\<rfloor> in
       (if q < 0 then ''-'' else []) @ int_str (n div 10) @ ''.'' @ int_str (n mod 10)))"
| "to_fixed1 x = num_str x"

definition cell_text :: "string \<Rightarrow> jsnum \<Rightarrow> string" where
  "cell_text color mean = ''<span class=\"w3-button w3-tiny w3-padding-small\" onclick='showInfo();' style=\"background-color:''
     @ color @ ''\"></span>&nbsp;'' @ to_fixed1 mean"

definition change_cell :: "nat \<Rightarrow> nat \<Rightarrow> (stat_cell \<Rightarrow> stat_cell) \<Rightarrow> stats act" where
  "change_cell i x f = change_page (\<lambda>pg. pg\<lparr>body := (body pg)[i := (body pg ! i)[x := f (body pg ! i ! x)]]\<rparr>)"

definition is_truthy :: "json option \<Rightarrow> bool" where
  "is_truthy v = (case v of None \<Rightarrow> False | Some JNull \<Rightarrow> False | Some (JBool b) \<Rightarrow> b
     | Some (JNum x) \<Rightarrow> x \<noteq> Fin 0 \<and> x \<noteq> NaN | Some (JStr t) \<Rightarrow> t \<noteq> [] | _ \<Rightarrow> True)"

text \<open>The cell \<open>x\<close> of row \<open>i\<close> for one entry of the statistics: the column must be that of its alias.\<close>

definition show_cell :: "nat \<Rightarrow> json \<Rightarrow> nat \<Rightarrow> stats act" where
  "show_cell i stat x s = (if length (headers (page s)) \<le> x then (s, Some TypeError)
     else read ''source_alias'' (Some stat) (\<lambda>al.
       if strict_eq (Some (JStr (hc_id (headers (page s) ! x)))) al then
         read ''is_location'' (Some stat) (\<lambda>loc. read ''last_read'' (Some stat) (\<lambda>last. read ''mean'' (Some stat) (\<lambda>mean.
           steps [change_cell i x (\<lambda>c. c\<lparr>c_grey := is_truthy loc\<rparr>),
             (case mean of
                Some (JNum m) \<Rightarrow> change_cell i x (\<lambda>c. c\<lparr>c_text :=
                  cell_text (getColor m (num_sub (clock (page s)) (json_number last))) m\<rparr>)
              | _ \<Rightarrow> throw TypeError)])))
       else pass) s)"

definition show_stat :: "nat \<Rightarrow> json \<Rightarrow> stats act" where
  "show_stat i stat s = for_each [0..<length (body (page s) ! i)] (show_cell i stat) s"

definition show_epc :: "string \<times> json \<Rightarrow> stats act" where
  "show_epc = (\<lambda>(epc, statsList) s. let (i, pg) = establish_stat_row epc (page s) in
     read_list (Some statsList) (\<lambda>vs. for_each vs (show_stat i)) (s\<lparr>page := pg\<rparr>))"

text \<open>The keys a \<open>for\<close>-\<open>in\<close> loop visits, with their values.\<close>

fun in_entries :: "json option \<Rightarrow> (string \<times> json) list" where
  "in_entries (Some (JObj ps)) = ps"
| "in_entries (Some (JArr vs)) = zip (map nat_str [0..<length vs]) vs"
| "in_entries (Some (JStr t)) = zip (map nat_str [0..<length t]) (map (\<lambda>c. JStr [c]) t)"
| "in_entries v = []"

definition onTagStatsUpdate :: "stats act" where
  "onTagStatsUpdate s = (let u = stats_update (page s) in steps
     [read ''source_aliases'' u (\<lambda>als. read_list als (\<lambda>vs. for_each vs establish_column)),
      read ''epc_map'' u (\<lambda>m. for_each (in_entries m) show_epc)] s)"

subsection \<open>The rest of the page\<close>

definition showInfo :: "stats act" where
  "showInfo = set_element ''modal_overlay'' (\<lambda>e. e\<lparr>display := ''block''\<rparr>)"

definition hideInfo :: "stats act" where
  "hideInfo = set_element ''modal_overlay'' (\<lambda>e. e\<lparr>display := ''none''\<rparr>)"

definition showInfoOnce :: "stats act" where
  "showInfoOnce s = (if read_cookie ''tag_stats_shown'' s \<noteq> ''true''
     then steps [showInfo, store_cookie ''tag_stats_shown'' ''true''] s else (s, None))"

definition with_pattern :: "(string \<Rightarrow> stats act) \<Rightarrow> stats act" where
  "with_pattern f s = (case element_of s ''epc_filter_pattern'' of None \<Rightarrow> (s, Some TypeError) | Some e \<Rightarrow> f (e_value e) s)"

definition requestInventoryTagStatsInfo :: "stats act" where
  "requestInventoryTagStatsInfo = with_pattern (\<lambda>p.
     request ''inventory_get_tag_stats_info'' (Some (JObj [(''filter_pattern'', JStr p)])))"

definition sendStatsPattern :: "stats act" where
  "sendStatsPattern = steps [change_page (\<lambda>pg. pg\<lparr>body := []\<rparr>),
     with_pattern (store_cookie ''epc_filter_pattern''), requestInventoryTagStatsInfo]"

definition initStatsFilter :: "stats act" where
  "initStatsFilter s = set_element ''epc_filter_pattern'' (\<lambda>e. e\<lparr>e_value := read_cookie ''epc_filter_pattern'' s\<rparr>) s"

definition stats_keyup :: "nat \<Rightarrow> stats act" where
  "stats_keyup keyCode = (if keyCode = 13 then sendStatsPattern else pass)"

definition stats_onSocketState :: "conn_state \<Rightarrow> stats act" where
  "stats_onSocketState st = (if st = Open_State then steps [requestInventoryTagStatsInfo, set_interval] else pass)"

definition stats_response :: "json \<Rightarrow> request \<Rightarrow> stats act" where
  "stats_response rsp req = (if req_method req = ''inventory_get_tag_stats_info''
     then read ''result'' (Some rsp) (\<lambda>v. steps [change_page (\<lambda>pg. pg\<lparr>stats_update := v\<rparr>), onTagStatsUpdate])
     else pass)"

definition stats_handlers :: "stats handlers" where
  "stats_handlers = unhandled_handlers\<lparr>state_cb := (\<lambda>cb. stats_onSocketState), inboundResponse := stats_response\<rparr>"

subsection \<open>The legend\<close>













definition demo_tag_stats :: "unit stats_page_ext dom_page_ext" where
  "demo_tag_stats = \<lparr>dom = (''epc_filter_pattern'', blank_element)
       # map (\<lambda>(t, r). (tile_id t r, blank_element)) (List.product [0..<4] [0..<3]),
     alerts = [], pollers = 0, cookies = [], headers = [\<lparr>hc_id = [], hc_text = ''EPC''\<rparr>], body = [], colLookup = [],
     stats_update = None, legend = [], clock = Fin 1000000\<rparr>"


subsection \<open>Rows follow the statistics\<close>

lemma steps_snoc: "steps (as @ [a]) s = (case steps as s of (t, None) \<Rightarrow> a t | (t, Some e) \<Rightarrow> (t, Some e))"
  by (induction as arbitrary: s) (auto split: prod.splits option.splits)

text \<open>The cell of a reading, and a row in which the reading is shown where its alias has a column.\<close>

definition reading_cell :: "jsnum \<Rightarrow> json obj \<Rightarrow> stat_cell" where
  "reading_cell now ps = \<lparr>c_grey = is_truthy (obj_get ps ''is_location''),
     c_text = (case obj_get ps ''mean'' of
        Some (JNum m) \<Rightarrow> cell_text (getColor m (num_sub now (json_number (obj_get ps ''last_read'')))) m
      | _ \<Rightarrow> [])\<rparr>"

definition read_row :: "header_cell list \<Rightarrow> jsnum \<Rightarrow> stat_cell list \<Rightarrow> json obj \<Rightarrow> stat_cell list" where
  "read_row hs now r ps = map (\<lambda>(h, c). if obj_get ps ''source_alias'' = Some (JStr (hc_id h))
     then reading_cell now ps else c) (zip hs r)"

text \<open>A reading of the controller: its mean is a number and its alias is not empty.\<close>

definition reading :: "json obj \<Rightarrow> bool" where
  "reading ps \<longleftrightarrow> (\<exists>m. obj_get ps ''mean'' = Some (JNum m)) \<and> obj_get ps ''source_alias'' \<noteq> Some (JStr [])"

abbreviation with_body :: "stat_cell list list \<Rightarrow> stats cws \<Rightarrow> stats cws" where
  "with_body b s \<equiv> s\<lparr>page := page s\<lparr>body := b\<rparr>\<rparr>"

lemma strict_eq_str: "strict_eq (Some (JStr a)) v \<longleftrightarrow> v = Some (JStr a)"
  by (cases v) auto

lemma show_cell_reading:
  assumes "reading ps" "x < length (headers (page s))" "i < length (body (page s))" "x < length (body (page s) ! i)"
  shows "show_cell i (JObj ps) x s = (if obj_get ps ''source_alias'' = Some (JStr (hc_id (headers (page s) ! x)))
    then with_body ((body (page s))[i := (body (page s) ! i)[x := reading_cell (clock (page s)) ps]]) s else s, None)"
proof -
  obtain m where m: "obj_get ps ''mean'' = Some (JNum m)" using assms(1) by (auto simp: reading_def)
  have set: "c\<lparr>c_grey := g, c_text := t\<rparr> = \<lparr>c_grey = g, c_text = t\<rparr>" for c :: stat_cell and g t by (cases c) simp
  show ?thesis using assms(2-4) m
    by (simp add: set show_cell_def read_def strict_eq_str change_cell_def change_page_def pass_def reading_cell_def)
qed

lemma read_row_length [simp]: "length r \<le> length hs \<Longrightarrow> length (read_row hs now r ps) = length r"
  by (simp add: read_row_def)

lemma show_stat_reading:
  assumes "reading ps" "i < length (body (page s))" "length (body (page s) ! i) \<le> length (headers (page s))"
  shows "show_stat i (JObj ps) s =
    (with_body ((body (page s))[i := read_row (headers (page s)) (clock (page s)) (body (page s) ! i) ps]) s, None)"
proof -
  let ?b = "body (page s)" and ?hs = "headers (page s)" and ?now = "clock (page s)"
  let ?r = "?b ! i"
  let ?r' = "read_row ?hs ?now ?r ps"
  have "for_each [0..<n] (show_cell i (JObj ps)) s = (with_body (?b[i := take n ?r' @ drop n ?r]) s, None)"
    if "n \<le> length ?r" for n
    using that
  proof (induction n)
    case 0
    then show ?case by (simp add: for_each_def)
  next
    case (Suc n)
    let ?u = "with_body (?b[i := take n ?r' @ drop n ?r]) s"
    have n: "n < length ?r" "n < length ?hs" "length ?r' = length ?r" using Suc.prems assms(3) by simp_all
    have r': "?r' ! n = (if obj_get ps ''source_alias'' = Some (JStr (hc_id (?hs ! n))) then reading_cell ?now ps else ?r ! n)"
      using n by (simp add: read_row_def)
    have nxt: "take (Suc n) ?r' @ drop (Suc n) ?r = (take n ?r' @ drop n ?r)[n := ?r' ! n]"
      using n by (simp add: take_Suc_conv_app_nth list_update_append Cons_nth_drop_Suc [symmetric])
    have same: "(take n ?r' @ drop n ?r)[n := ?r ! n] = take n ?r' @ drop n ?r"
      using n by (simp add: list_update_append Cons_nth_drop_Suc [symmetric])
    have "for_each [0..<Suc n] (show_cell i (JObj ps)) s = show_cell i (JObj ps) n ?u"
      using Suc by (simp add: for_each_def steps_snoc)
    also have "\<dots> = (with_body (?b[i := take (Suc n) ?r' @ drop (Suc n) ?r]) s, None)"
      using n assms(1,2) by (simp add: show_cell_reading nxt r' same)
    finally show ?case .
  qed
  from this [of "length ?r"] show ?thesis using assms(3) by (simp add: show_stat_def)
qed

lemma show_stats_readings:
  assumes "\<forall>ps \<in> set rs. reading ps" "i < length (body (page s))" "length (body (page s) ! i) \<le> length (headers (page s))"
  shows "for_each (map JObj rs) (show_stat i) s =
    (with_body ((body (page s))[i := foldl (read_row (headers (page s)) (clock (page s))) (body (page s) ! i) rs]) s, None)"
  using assms
proof (induction rs arbitrary: s)
  case Nil
  then show ?case by (simp add: for_each_def)
next
  case (Cons ps rs)
  let ?u = "with_body ((body (page s))[i := read_row (headers (page s)) (clock (page s)) (body (page s) ! i) ps]) s"
  have "show_stat i (JObj ps) s = (?u, None)" using Cons.prems by (simp add: show_stat_reading)
  then show ?case using Cons.IH [of ?u] Cons.prems by (simp add: for_each_def)
qed

text \<open>The rows of the tags, by EPC; where a new row goes.\<close>

definition rows_of :: "stat_cell list list \<Rightarrow> string \<Rightarrow> stat_cell list option" where
  "rows_of b = map_of (map (\<lambda>r. (row_key r, r)) b)"

lemma index_where_split: "take (index_where P xs) xs = takeWhile (\<lambda>x. \<not> P x) xs"
    "drop (index_where P xs) xs = dropWhile (\<lambda>x. \<not> P x) xs"
  by (induction xs) auto

lemma index_where_le: "index_where P xs \<le> length xs"
  by (induction xs) auto

lemma index_where_found: "index_where P xs < length xs \<longleftrightarrow> (\<exists>x \<in> set xs. P x)"
    "index_where P xs < length xs \<Longrightarrow> P (xs ! index_where P xs)"
  by (induction xs) auto

lemma rows_of_none: "rows_of b e = None \<longleftrightarrow> e \<notin> row_key ` set b"
  by (force simp: rows_of_def map_of_eq_None_iff)

lemma rows_of_update:
  "i < length b \<Longrightarrow> distinct (map row_key b) \<Longrightarrow> row_key r = row_key (b ! i) \<Longrightarrow> rows_of (b[i := r]) = (rows_of b)(row_key r \<mapsto> r)"
proof (induction b arbitrary: i)
  case (Cons a b)
  then show ?case
  proof (cases i)
    case (Suc j)
    with Cons have "row_key a \<noteq> row_key r" by auto
    moreover have "rows_of (b[j := r]) = (rows_of b)(row_key r \<mapsto> r)" using Cons.IH [of j] Cons.prems Suc by (auto simp: fun_eq_iff)
    ultimately show ?thesis using Suc by (simp add: rows_of_def fun_eq_iff)
  qed (simp add: rows_of_def fun_eq_iff)
qed simp

lemma rows_of_insert:
  "row_key r \<notin> row_key ` set (xs @ ys) \<Longrightarrow> rows_of (xs @ r # ys) = (rows_of (xs @ ys))(row_key r \<mapsto> r)"
  by (induction xs) (auto simp: rows_of_def fun_upd_twist)

lemma sorted_insert_row:
  assumes "sorted_wrt (<) (map row_key b)" "row_key r \<notin> row_key ` set b"
  shows "sorted_wrt (<) (map row_key (takeWhile (\<lambda>x. \<not> row_key r < row_key x) b @ r # dropWhile (\<lambda>x. \<not> row_key r < row_key x) b))"
  using assms
proof (induction b)
  case (Cons a b)
  show ?case
  proof (cases "row_key r < row_key a")
    case True
    then show ?thesis using Cons.prems by (auto dest: less_trans)
  next
    case False
    then have "row_key a < row_key r" using Cons.prems(2) by (auto simp: not_less le_less)
    moreover have "set (takeWhile P b) \<subseteq> set b" "set (dropWhile P b) \<subseteq> set b" for P
      by (auto dest: set_takeWhileD set_dropWhileD)
    ultimately show ?thesis using False Cons by (fastforce simp: not_less)
  qed
qed simp

text \<open>
  What holds of the table: the first column has no id, the others are found by theirs, no row is longer than the header, and the
  rows are in the order of their EPCs.
\<close>

definition stats_ok :: "stats_page \<Rightarrow> bool" where
  "stats_ok pg \<longleftrightarrow> headers pg \<noteq> [] \<and> hc_id (hd (headers pg)) = []
     \<and> (\<forall>k i. obj_get (colLookup pg) k = Some i \<longrightarrow> i < length (headers pg) \<and> hc_id (headers pg ! i) = k)
     \<and> (\<forall>r \<in> set (body pg). r \<noteq> [] \<and> length r \<le> length (headers pg)) \<and> sorted_wrt (<) (map row_key (body pg))"

definition row_of :: "header_cell list \<Rightarrow> (string \<Rightarrow> stat_cell list option) \<Rightarrow> string \<Rightarrow> stat_cell list" where
  "row_of hs m e = (case m e of None \<Rightarrow> new_row e (length hs) | Some r \<Rightarrow> r)"

lemma read_row_key:
  "reading ps \<Longrightarrow> hs \<noteq> [] \<Longrightarrow> hc_id (hd hs) = [] \<Longrightarrow> row_key (read_row hs now r ps) = row_key r"
  by (cases hs; cases r) (auto simp: read_row_def row_key_def reading_def)

lemma read_rows:
  assumes "\<forall>ps \<in> set rs. reading ps" "hs \<noteq> []" "hc_id (hd hs) = []" "length r \<le> length hs"
  shows "row_key (foldl (read_row hs now) r rs) = row_key r" "length (foldl (read_row hs now) r rs) = length r"
  using assms by (induction rs arbitrary: r) (auto simp: read_row_key)

lemma new_row_simps [simp]: "length (new_row e n) = n" "0 < n \<Longrightarrow> row_key (new_row e n) = e"
  by (cases n; simp add: new_row_def row_key_def)+

lemma rows_of_some:
  assumes "distinct (map row_key b)" "i < length b"
  shows "rows_of b (row_key (b ! i)) = Some (b ! i)"
proof -
  have "(row_key (b ! i), b ! i) \<in> set (map (\<lambda>r. (row_key r, r)) b)" using assms(2) by force
  then show ?thesis unfolding rows_of_def by (intro map_of_is_SomeI) (use assms(1) in \<open>simp_all add: comp_def\<close>)
qed

lemma establish_stat_row_effect:
  assumes "stats_ok pg"
  shows "\<exists>i b. establish_stat_row e pg = (i, pg\<lparr>body := b\<rparr>) \<and> i < length b \<and> row_key (b ! i) = e
    \<and> b ! i = row_of (headers pg) (rows_of (body pg)) e \<and> stats_ok (pg\<lparr>body := b\<rparr>)
    \<and> rows_of b = (rows_of (body pg))(e \<mapsto> b ! i)"
proof -
  let ?b = "body pg" and ?n = "new_row e (length (headers pg))"
  have sorted: "sorted_wrt (<) (map row_key ?b)" and hs: "0 < length (headers pg)"
    using assms by (auto simp: stats_ok_def)
  then have d: "distinct (map row_key ?b)" by (simp add: strict_sorted_iff)
  let ?i = "index_where (\<lambda>r. row_key r = e) ?b" and ?j = "index_where (\<lambda>r. e < row_key r) ?b"
  show ?thesis
  proof (cases "?i < length ?b")
    case True
    have k: "row_key (?b ! ?i) = e" by (rule index_where_found(2) [OF True])
    then have "rows_of ?b e = Some (?b ! ?i)" using rows_of_some [OF d True] by simp
    then show ?thesis using True k assms
      by (intro exI [of _ ?i] exI [of _ ?b]) (auto simp: establish_stat_row_def row_of_def fun_upd_idem)
  next
    case False
    then have e: "e \<notin> row_key ` set ?b" using index_where_found(1) [of "\<lambda>r. row_key r = e" ?b] by auto
    let ?c = "take ?j ?b @ ?n # drop ?j ?b"
    have n: "?c ! ?j = ?n" "?j < length ?c" using index_where_le [of "\<lambda>r. e < row_key r" ?b]
      by (simp_all add: nth_append min_def)
    have k: "row_key ?n = e" using hs by simp
    have "sorted_wrt (<) (map row_key ?c)"
      using sorted_insert_row [OF sorted, of ?n] e k by (simp add: index_where_split)
    then have "stats_ok (pg\<lparr>body := ?c\<rparr>)" using assms hs
      by (auto simp: stats_ok_def dest: in_set_takeD in_set_dropD) (metis length_0_conv list.size(3) new_row_simps(1))+
    moreover have "rows_of ?c = (rows_of ?b)(e \<mapsto> ?n)"
      using rows_of_insert [of ?n "take ?j ?b" "drop ?j ?b"] e k by simp
    moreover have "rows_of ?b e = None" using e by (simp add: rows_of_none)
    ultimately show ?thesis using False n k
      by (intro exI [of _ ?j] exI [of _ ?c]) (simp add: establish_stat_row_def Let_def row_of_def)
  qed
qed

lemma show_epc_effect:
  assumes "stats_ok (page s)" "\<forall>ps \<in> set rs. reading ps"
  shows "\<exists>b. show_epc (e, JArr (map JObj rs)) s = (with_body b s, None) \<and> stats_ok (page s\<lparr>body := b\<rparr>)
    \<and> rows_of b = (rows_of (body (page s)))(e \<mapsto> foldl (read_row (headers (page s)) (clock (page s)))
        (row_of (headers (page s)) (rows_of (body (page s))) e) rs)"
proof -
  let ?hs = "headers (page s)"
  obtain i b where b: "establish_stat_row e (page s) = (i, page s\<lparr>body := b\<rparr>)" "i < length b" "row_key (b ! i) = e"
    "b ! i = row_of ?hs (rows_of (body (page s))) e" "stats_ok (page s\<lparr>body := b\<rparr>)"
    "rows_of b = (rows_of (body (page s)))(e \<mapsto> b ! i)"
    using establish_stat_row_effect [OF assms(1)] by blast
  let ?r = "foldl (read_row ?hs (clock (page s))) (b ! i) rs"
  have ok: "?hs \<noteq> []" "hc_id (hd ?hs) = []" "length (b ! i) \<le> length ?hs" "b ! i \<noteq> []" "sorted_wrt (<) (map row_key b)"
    using b(2,5) nth_mem [OF b(2)] by (auto simp: stats_ok_def simp del: nth_mem)
  note r = read_rows [OF assms(2) ok(1-3), of "clock (page s)"]
  have "map row_key (b[i := ?r]) = map row_key b" using r(1) nth_map [OF b(2), of row_key] list_update_id [of "map row_key b" i]
    by (simp add: map_update)
  moreover have "?r \<noteq> []" using r(2) ok(4) by (metis length_0_conv)
  ultimately have "stats_ok (page s\<lparr>body := b[i := ?r]\<rparr>)"
    using b(5) r(2) ok(3) by (auto simp: stats_ok_def dest!: subsetD [OF set_update_subset_insert])
  moreover have "rows_of (b[i := ?r]) = (rows_of b)(e \<mapsto> ?r)"
    using rows_of_update [OF b(2), of ?r] ok(5) r(1) b(3) by (simp add: strict_sorted_iff)
  moreover have "show_epc (e, JArr (map JObj rs)) s = (with_body (b[i := ?r]) s, None)"
    using show_stats_readings [OF assms(2), of i "with_body b s"] b(1,2) ok(3) by (simp add: show_epc_def read_list_def)
  ultimately show ?thesis using b(4,6) by auto
qed

lemma add_column_ok: "stats_ok (page s) \<Longrightarrow> stats_ok (page (fst (add_column v s)))"
  by (fastforce simp: add_column_def stats_ok_def Let_def nth_append js_simps split: if_splits)

text \<open>The aliases with columns, those of a list that get one, and the headers they get.\<close>

definition columns :: "stats_page \<Rightarrow> string set" where
  "columns pg = set (map fst (colLookup pg))"

fun new_aliases :: "string set \<Rightarrow> json list \<Rightarrow> json list" where
  "new_aliases K [] = []"
| "new_aliases K (v # vs) =
     (if prop_key v \<in> K then new_aliases K vs else v # new_aliases (insert (prop_key v) K) vs)"

definition header_of :: "json \<Rightarrow> header_cell" where
  "header_of v = \<lparr>hc_id = prop_key v, hc_text = inner_text (Some v)\<rparr>"

lemma columns_iff: "k \<in> columns pg \<longleftrightarrow> obj_get (colLookup pg) k \<noteq> None"
  by (auto simp: columns_def map_of_eq_None_iff)

lemma no_new_aliases: "prop_key ` set vs \<subseteq> K \<Longrightarrow> new_aliases K vs = []"
  by (induction vs) auto

text \<open>What the first loop of an update does to the page.\<close>

definition columns_added :: "json list \<Rightarrow> stats cws \<Rightarrow> stats cws \<Rightarrow> bool" where
  "columns_added vs s t \<longleftrightarrow> body (page t) = body (page s) \<and> clock (page t) = clock (page s)
     \<and> stats_update (page t) = stats_update (page s) \<and> columns (page t) = columns (page s) \<union> prop_key ` set vs
     \<and> headers (page t) = headers (page s) @ map header_of (new_aliases (columns (page s)) vs)"

lemma known_aliases: "prop_key ` set vs \<subseteq> columns (page s) \<Longrightarrow> for_each vs establish_column s = (s, None)"
  by (induction vs) (auto simp: for_each_def establish_column_def columns_iff)

lemma establish_column_first:
  assumes "stats_ok (page s)" "body (page s) = []"
  shows "\<exists>t. establish_column v s = (t, None) \<and> stats_ok (page t) \<and> columns_added [v] s t"
proof (cases "obj_get (colLookup (page s)) (prop_key v)")
  case None
  then have "prop_key v \<notin> columns (page s)" by (simp add: columns_iff)
  with None show ?thesis using add_column_ok [OF assms(1), of v] assms(2)
    by (auto simp: establish_column_def add_column_def columns_added_def header_of_def Let_def set_eq_iff columns_iff js_simps)
next
  case (Some i)
  then have "prop_key v \<in> columns (page s)" by (simp add: columns_iff)
  with Some show ?thesis using assms by (auto simp: establish_column_def columns_added_def)
qed

lemma first_columns:
  assumes "stats_ok (page s)" "body (page s) = []"
  shows "\<exists>t. for_each vs establish_column s = (t, None) \<and> stats_ok (page t) \<and> columns_added vs s t"
  using assms
proof (induction vs arbitrary: s)
  case (Cons v vs)
  obtain u where u: "establish_column v s = (u, None)" "stats_ok (page u)" "columns_added [v] s u"
    using establish_column_first [OF Cons.prems] by blast
  have "body (page u) = []" using u(3) Cons.prems(2) by (simp add: columns_added_def)
  from Cons.IH [OF u(2) this] obtain t where
    t: "for_each vs establish_column u = (t, None)" "stats_ok (page t)" "columns_added vs u t" by blast
  have "columns_added (v # vs) s t" using u(3) t(3) by (auto simp: columns_added_def insert_absorb)
  then show ?case using u(1) t(1,2) by (simp add: for_each_def)
qed (simp add: for_each_def columns_added_def)

text \<open>Where the first loop succeeds: no rows yet, or no new alias.\<close>

lemma columns_established:
  assumes "stats_ok (page s)" and "body (page s) = [] \<or> prop_key ` set vs \<subseteq> columns (page s)"
  shows "\<exists>t. for_each vs establish_column s = (t, None) \<and> stats_ok (page t) \<and> columns_added vs s t"
  using assms(2)
proof
  assume "body (page s) = []"
  from first_columns [OF assms(1) this, of vs] show ?thesis by blast
next
  assume v: "prop_key ` set vs \<subseteq> columns (page s)"
  then have "columns_added vs s s" by (simp add: columns_added_def no_new_aliases sup_absorb1)
  then show ?thesis using known_aliases [OF v] assms(1) by blast
qed

text \<open>What a message says of the tags, applied to their rows.\<close>

definition apply_stats :: "header_cell list \<Rightarrow> jsnum \<Rightarrow> (string \<times> json obj list) list
    \<Rightarrow> (string \<Rightarrow> stat_cell list option) \<Rightarrow> string \<Rightarrow> stat_cell list option" where
  "apply_stats hs now es m = foldl (\<lambda>m (e, rs). m(e \<mapsto> foldl (read_row hs now) (row_of hs m e) rs)) m es"

lemma show_epcs_effect:
  assumes "stats_ok (page s)" "\<forall>(e, rs) \<in> set es. \<forall>ps \<in> set rs. reading ps"
  shows "\<exists>b. for_each (map (\<lambda>(e, rs). (e, JArr (map JObj rs))) es) show_epc s = (with_body b s, None)
    \<and> stats_ok (page s\<lparr>body := b\<rparr>)
    \<and> rows_of b = apply_stats (headers (page s)) (clock (page s)) es (rows_of (body (page s)))"
  using assms
proof (induction es arbitrary: s)
  case Nil
  then show ?case by (intro exI [of _ "body (page s)"]) (simp add: for_each_def apply_stats_def)
next
  case (Cons x es)
  obtain e rs where x: "x = (e, rs)" by (cases x)
  from Cons.prems x have "\<forall>ps \<in> set rs. reading ps" by simp
  from show_epc_effect [OF Cons.prems(1) this, of e] obtain b where
    b: "show_epc (e, JArr (map JObj rs)) s = (with_body b s, None)" "stats_ok (page s\<lparr>body := b\<rparr>)"
      "rows_of b = (rows_of (body (page s)))(e \<mapsto> foldl (read_row (headers (page s)) (clock (page s)))
        (row_of (headers (page s)) (rows_of (body (page s))) e) rs)" by blast
  have "stats_ok (page (with_body b s))" "\<forall>(e, rs) \<in> set es. \<forall>ps \<in> set rs. reading ps"
    using b(2) Cons.prems(2) by auto
  from Cons.IH [OF this] obtain c where
    c: "for_each (map (\<lambda>(e, rs). (e, JArr (map JObj rs))) es) show_epc (with_body b s) = (with_body c s, None)"
      "stats_ok (page s\<lparr>body := c\<rparr>)" "rows_of c = apply_stats (headers (page s)) (clock (page s)) es (rows_of b)"
    by auto
  show ?case using x b(1,3) c by (intro exI [of _ c]) (simp add: for_each_def apply_stats_def)
qed

text \<open>
  C18: The table of the tag statistics page follows the answers of the controller.  When it has no
  rows yet, or all the aliases of an answer have columns, the answer is handled without an error
  and its new aliases have columns, in their order after the others; the rows are in the order of their EPCs, and they are the rows
  by EPC that were shown before, updated with the readings of the answer: each reading is shown in
  the column of its alias, with the colour of its strength and age, and nowhere else.
\<close>

theorem stats_table_refines:
  assumes "stats_ok (page s)" and "stats_update (page s) = Some (JObj u)"
    and "obj_get u ''source_aliases'' = Some (JArr vs)"
    and "body (page s) = [] \<or> prop_key ` set vs \<subseteq> columns (page s)"
    and "obj_get u ''epc_map'' = Some (JObj (map (\<lambda>(e, rs). (e, JArr (map JObj rs))) es))"
    and "\<forall>(e, rs) \<in> set es. \<forall>ps \<in> set rs. reading ps"
  shows "\<exists>t. onTagStatsUpdate s = (t, None) \<and> stats_ok (page t)
    \<and> columns (page t) = columns (page s) \<union> prop_key ` set vs
    \<and> headers (page t) = headers (page s) @ map header_of (new_aliases (columns (page s)) vs)
    \<and> rows_of (body (page t)) = apply_stats (headers (page t)) (clock (page s)) es (rows_of (body (page s)))"
proof -
  obtain t where t: "for_each vs establish_column s = (t, None)" "stats_ok (page t)" "columns_added vs s t"
    using columns_established [OF assms(1,4)] by blast
  obtain b where "for_each (map (\<lambda>(e, rs). (e, JArr (map JObj rs))) es) show_epc t = (with_body b t, None)"
    "stats_ok (page t\<lparr>body := b\<rparr>)"
    "rows_of b = apply_stats (headers (page t)) (clock (page t)) es (rows_of (body (page t)))"
    using show_epcs_effect [OF t(2) assms(6)] by blast
  with t show ?thesis using assms(2,3,5)
    by (intro exI [of _ "with_body b t"]) (simp add: onTagStatsUpdate_def read_def read_list_def columns_added_def columns_def)
qed

text \<open>
  C33: Once the table has rows, an answer with a new alias breaks the update: the new column gets
  its header, then an error is thrown, so that no row changes and all the readings of the answer
  are lost.
\<close>

theorem new_alias_loses_statistics:
  assumes "body (page s) \<noteq> []" and "stats_update (page s) = Some (JObj u)"
    and "obj_get u ''source_aliases'' = Some (JArr vs)"
    and "v \<in> set vs" and "prop_key v \<notin> columns (page s)"
  shows "\<exists>t. onTagStatsUpdate s = (t, Some TypeError) \<and> body (page t) = body (page s)
    \<and> length (headers (page t)) = Suc (length (headers (page s)))"
proof -
  have "\<exists>t. for_each vs establish_column s = (t, Some TypeError) \<and> body (page t) = body (page s)
    \<and> length (headers (page t)) = Suc (length (headers (page s)))"
    using assms(1,4,5)
    by (induction vs) (auto simp: columns_iff for_each_def establish_column_def add_column_def Let_def)
  then show ?thesis using assms(2,3) by (auto simp: onTagStatsUpdate_def read_def read_list_def)
qed

text \<open>A page that shows one tag, and an answer about it and another one.\<close>

definition demo_stats_answer :: "json obj \<Rightarrow> json obj" where
  "demo_stats_answer r = [(''source_aliases'', JArr [JStr ''dock'']), (''epc_map'', JObj [(''30B2'', JArr [JObj r])])]"

definition demo_stat :: "json obj" where
  "demo_stat = [(''source_alias'', JStr ''dock''), (''mean'', JNum (Fin (- 60))), (''last_read'', JNum (Fin 990000))]"

definition demo_stats_rows :: "(nat obj) \<Rightarrow> unit stats_page_ext dom_page_ext" where
  "demo_stats_rows cols = demo_tag_stats\<lparr>headers := [\<lparr>hc_id = [], hc_text = ''EPC''\<rparr>, \<lparr>hc_id = ''dock'', hc_text = ''dock''\<rparr>],
     colLookup := cols, body := [new_row ''30A1'' 2], stats_update := Some (JObj (demo_stats_answer demo_stat))\<rparr>"

theorem stats_table_refines_witness:
  "\<exists>t. onTagStatsUpdate (ControllerWebSocket (demo_stats_rows [(''dock'', 1)])) = (t, None) \<and> stats_ok (page t)
    \<and> rows_of (body (page t)) ''30B2'' = Some [\<lparr>c_grey = False, c_text = ''30B2''\<rparr>,
        \<lparr>c_grey = False, c_text = cell_text ''#FFFF00'' (Fin (- 60))\<rparr>]"
proof -
  let ?pg = "demo_stats_rows [(''dock'', 1)]" and ?es = "[(''30B2'', [demo_stat])]"
  have ok: "stats_ok ?pg" by (simp add: stats_ok_def demo_stats_rows_def new_row_def)
  have r: "reading demo_stat" by (simp add: reading_def demo_stat_def)
  have c: "columns ?pg = {''dock''}" by (simp add: columns_def demo_stats_rows_def)
  have "num_sub (Fin 1000000) (Fin 990000) = Fin 10000" using num_sub_int [of 1000000 990000] by simp
  then have row: "read_row (headers ?pg) (clock ?pg) (new_row ''30B2'' 2) demo_stat
      = [\<lparr>c_grey = False, c_text = ''30B2''\<rparr>, \<lparr>c_grey = False, c_text = cell_text ''#FFFF00'' (Fin (- 60))\<rparr>]"
    by (simp add: demo_stats_rows_def demo_tag_stats_def read_row_def reading_cell_def demo_stat_def new_row_def
        json_number_def getColor_def t1_def r1_def r2_def is_truthy_def numeral_2_eq_2)
  have "rows_of (body ?pg) ''30B2'' = None" by (simp add: rows_of_def demo_stats_rows_def)
  then have "apply_stats (headers ?pg) (clock ?pg) ?es (rows_of (body ?pg)) ''30B2''
      = Some (read_row (headers ?pg) (clock ?pg) (new_row ''30B2'' 2) demo_stat)"
    by (simp add: apply_stats_def row_of_def demo_stats_rows_def numeral_2_eq_2)
  with row have shown: "apply_stats (headers ?pg) (clock ?pg) ?es (rows_of (body ?pg)) ''30B2''
      = Some [\<lparr>c_grey = False, c_text = ''30B2''\<rparr>, \<lparr>c_grey = False, c_text = cell_text ''#FFFF00'' (Fin (- 60))\<rparr>]" by simp
  have s: "page (ControllerWebSocket ?pg) = ?pg" by (simp add: ControllerWebSocket_def)
  have h: "stats_update ?pg = Some (JObj (demo_stats_answer demo_stat))" by (simp add: demo_stats_rows_def)
  have al: "obj_get (demo_stats_answer demo_stat) ''source_aliases'' = Some (JArr [JStr ''dock''])"
    and em: "obj_get (demo_stats_answer demo_stat) ''epc_map'' = Some (JObj (map (\<lambda>(e, rs). (e, JArr (map JObj rs))) ?es))"
    by (simp_all add: demo_stats_answer_def)
  have known: "prop_key ` set [JStr ''dock''] \<subseteq> columns ?pg" using c by simp
  have rs: "\<forall>(e, rs) \<in> set ?es. \<forall>ps \<in> set rs. reading ps" using r by simp
  obtain t where t: "onTagStatsUpdate (ControllerWebSocket ?pg) = (t, None)" "stats_ok (page t)"
    "headers (page t) = headers ?pg @ map header_of (new_aliases (columns ?pg) [JStr ''dock''])"
    "rows_of (body (page t)) = apply_stats (headers (page t)) (clock ?pg) ?es (rows_of (body ?pg))"
    using stats_table_refines [of "ControllerWebSocket ?pg", unfolded s, OF ok h al disjI2 [OF known] em rs] by blast
  have "headers (page t) = headers ?pg" using t(3) no_new_aliases [OF known] by simp
  with t shown show ?thesis by auto
qed

theorem new_alias_loses_statistics_witness:
  "\<exists>t. onTagStatsUpdate (ControllerWebSocket (demo_stats_rows [])) = (t, Some TypeError)
    \<and> body (page t) = [new_row ''30A1'' 2] \<and> length (headers (page t)) = 3"
proof -
  let ?s = "ControllerWebSocket (demo_stats_rows [])"
  have s: "body (page ?s) = [new_row ''30A1'' 2]" "length (headers (page ?s)) = 2" "columns (page ?s) = {}"
    "stats_update (page ?s) = Some (JObj (demo_stats_answer demo_stat))"
    by (simp_all add: ControllerWebSocket_def demo_stats_rows_def columns_def)
  have "obj_get (demo_stats_answer demo_stat) ''source_aliases'' = Some (JArr [JStr ''dock''])"
    by (simp add: demo_stats_answer_def)
  from new_alias_loses_statistics [of ?s, OF _ s(4) this] s show ?thesis by auto
qed

subsection \<open>Contracts\<close>

lemma stays_state: "(\<And>u. stays R (f u)) \<Longrightarrow> stays R (\<lambda>s. f s s)"
  by (simp add: stays_def)

text \<open>What an update writes: the header with its index, then the rows.\<close>

lemma add_column_steps: "add_column v = (\<lambda>s. steps
   [change_page (\<lambda>pg. pg\<lparr>colLookup := obj_set (prop_key v) (length (headers pg)) (colLookup pg),
      headers := headers pg @ [\<lparr>hc_id = prop_key v, hc_text = inner_text (Some v)\<rparr>]\<rparr>),
    if body (page s) = [] then pass else throw TypeError] s)"
  by (rule ext) (simp add: add_column_def change_page_def pass_def throw_def Let_def)

lemma show_cell_steps: "show_cell i stat x = (\<lambda>s. (if length (headers (page s)) \<le> x then throw TypeError
   else read ''source_alias'' (Some stat) (\<lambda>al.
       if strict_eq (Some (JStr (hc_id (headers (page s) ! x)))) al then
         read ''is_location'' (Some stat) (\<lambda>loc. read ''last_read'' (Some stat) (\<lambda>last. read ''mean'' (Some stat) (\<lambda>mean.
           steps [change_cell i x (\<lambda>c. c\<lparr>c_grey := is_truthy loc\<rparr>),
             (case mean of
                Some (JNum m) \<Rightarrow> change_cell i x (\<lambda>c. c\<lparr>c_text :=
                  cell_text (getColor m (num_sub (clock (page s)) (json_number last))) m\<rparr>)
              | _ \<Rightarrow> throw TypeError)])))
       else pass)) s)"
  by (rule ext) (simp add: show_cell_def throw_def)

lemma show_epc_steps: "show_epc (e, v) = (\<lambda>s. steps [change_page (\<lambda>pg. snd (establish_stat_row e pg)),
   read_list (Some v) (\<lambda>vs. for_each vs (show_stat (fst (establish_stat_row e (page s)))))] s)"
  by (rule ext) (simp add: show_epc_def change_page_def case_prod_beta steps_one split: prod.splits option.splits)

lemma establish_stat_row_body: "snd (establish_stat_row e pg) = pg\<lparr>body := body (snd (establish_stat_row e pg))\<rparr>"
  by (simp add: establish_stat_row_def Let_def)

lemma establish_column_steps: "establish_column v =
   (\<lambda>s. (if obj_get (colLookup (page s)) (prop_key v) = None then add_column v else pass) s)"
  by (rule ext) (simp add: establish_column_def pass_def)

text \<open>
  Whatever a message says, an update stays within every relation that the changes of the table
  stay within.
\<close>

locale stats_relation = act_relation R for R :: "stats cws \<Rightarrow> stats cws \<Rightarrow> bool" +
  assumes stays_body: "stays R (change_page (\<lambda>pg. pg\<lparr>body := b pg\<rparr>))"
    and stays_columns: "stays R (change_page (\<lambda>pg. pg\<lparr>colLookup := c pg, headers := h pg\<rparr>))"
begin

lemma stays_show_cell: "stays R (show_cell i stat x)"
  unfolding show_cell_steps change_cell_def
  by (rule stays_state, intro stays_intros) (auto split: option.splits json.splits intro: stays_intros stays_body)

lemma stays_show_stat: "stays R (show_stat i v)"
  unfolding show_stat_def by (rule stays_state) (intro stays_for_each stays_show_cell)

lemma stays_show_epc: "stays R (show_epc x)"
proof (cases x)
  case (Pair e v)
  have row: "stays R (change_page (\<lambda>pg. snd (establish_stat_row e pg)))"
    by (subst establish_stat_row_body) (rule stays_body)
  show ?thesis unfolding Pair show_epc_steps
    by (rule stays_state) (intro row stays_chain stays_read_list stays_for_each stays_show_stat)
qed

lemma stays_add_column: "stays R (add_column v)"
  unfolding add_column_steps by (rule stays_state) (intro stays_chain stays_if stays_columns stays_simple)

lemma stays_column: "stays R (establish_column v)"
  unfolding establish_column_steps by (rule stays_state) (intro stays_if stays_add_column stays_simple)

lemma stays_update: "stays R onTagStatsUpdate"
  unfolding onTagStatsUpdate_def Let_def
  by (rule stays_state) (intro stays_chain stays_read stays_read_list stays_for_each stays_column stays_show_epc)

end

interpretation stats_api: stats_relation page_api
  by unfold_locales (rule page_acts)+

interpretation stats_frame: stats_relation same_frame
  by unfold_locales (rule keeps_acts; simp)+

lemmas stats_update_acts [page_acts] = stats_api.stays_update

lemmas stats_update_keeps [keeps_acts] = stats_frame.stays_update

lemma page_act_stats_request [page_acts]: "page_act requestInventoryTagStatsInfo"
  using page_actD [OF page_act_request]
  by (auto simp: page_act_def requestInventoryTagStatsInfo_def with_pattern_def intro: api_nothing split: option.splits)

lemma stats_unhandled [page_acts]:
  "page_act (inboundRequest unhandled_handlers r :: stats act)" "page_act (inboundNotification unhandled_handlers r :: stats act)"
  by (auto simp: page_act_def unhandled_handlers_def intro: api_log api_nothing)

interpretation stats: page_callbacks stats_handlers
  by (rule page_callbacksI)
    (auto simp: stats_handlers_def stats_onSocketState_def stats_response_def intro!: page_acts)

definition has_pattern :: "unit stats_page_ext dom_page_ext \<Rightarrow> bool" where
  "has_pattern pg \<longleftrightarrow> obj_get (dom pg) ''epc_filter_pattern'' \<noteq> None"

interpretation stats_polls: polling_page stats_handlers has_pattern pollers
proof unfold_locales
  fix s :: "stats cws" and w cb
  assume s: "has_pattern (page s)" "socket s = Some w" "fst (sockets s ! w) = OPEN"
  then obtain e where "element_of s ''epc_filter_pattern'' = Some e" by (auto simp: has_pattern_def)
  then obtain t where "requestInventoryTagStatsInfo s = (t, None)" "page t = page s"
    using request_open [OF s(2,3)] unfolding requestInventoryTagStatsInfo_def with_pattern_def by fastforce
  then show "has_pattern (page (fst (state_cb stats_handlers cb Open_State s)))
      \<and> pollers (page (fst (state_cb stats_handlers cb Open_State s))) = Suc (pollers (page s))"
    using s(1) by (simp add: stats_handlers_def stats_onSocketState_def set_interval_def change_page_def has_pattern_def)
next
  fix r q and s :: "stats cws"
  assume "has_pattern (page s)"
  moreover have "keeps_polls (stats_response r q)"
    by (auto simp: stats_response_def intro!: keeps_acts)
  ultimately show "has_pattern (page (fst (inboundResponse stats_handlers r q s)))
      \<and> pollers (page (fst (inboundResponse stats_handlers r q s))) = pollers (page s)"
    using keeps_pollsD [of "stats_response r q" s]
    by (auto simp: stats_handlers_def page_frame_def has_pattern_def)
qed (simp_all add: stats_handlers_def stats_onSocketState_def pass_def unhandled_handlers_def log_line_def)

end
