(* ===== verification/Page_Sensors.thy ===== *)
theory Page_Sensors
  imports Page_Inventory
begin

text \<open>
  The script of \<^verbatim>\<open>web-admin/sensors-main.html\<close> (lines 14-389): a row for each sensor with its
  connection, its state and its alerts, the alerts of a sensor and the results of commands in a
  dialog.  What the rows do when they are clicked is \<open>selectSensor\<close> and \<open>showAlerts\<close>.
\<close>

subsection \<open>State\<close>

record alert_row =
  alert_color :: string
  alert_texts :: "string list"

text \<open>
  The alerts by device, as the messages list them (\<open>undefined\<close> for a device without any); the
  selected device; the rows of alerts in the dialog, behind the text of the element
  \<open>modal_content\<close>; how often the page has been reloaded.
\<close>

record sensors_page = rows_page +
  sensorAlerts :: "json option obj"
  selectedSensorId :: string
  modal_rows :: "alert_row list"
  reloads :: nat

type_synonym main = "unit sensors_page_ext rows_page_ext dom_page_ext"

definition alerts_of :: "string \<Rightarrow> sensors_page \<Rightarrow> json option" where
  "alerts_of d pg = (case obj_get (sensorAlerts pg) d of None \<Rightarrow> None | Some v \<Rightarrow> v)"

definition set_alerts :: "string \<Rightarrow> json option \<Rightarrow> main act" where
  "set_alerts d v = change_page (\<lambda>pg. pg\<lparr>sensorAlerts := obj_set d v (sensorAlerts pg)\<rparr>)"

subsection \<open>Rows\<close>

definition main_cells :: "string \<Rightarrow> element obj" where
  "main_cells d = [(d @ ''.row'', blank_element\<lparr>className := ''w3-row w3-padding w3-border-bottom''\<rparr>),
     (d @ ''.connection_state'', blank_element), (d @ ''.read_state'', blank_element),
     createStandardColumn ''w3-col m2'' (d @ ''.behavior''),
     createStandardColumn ''w3-col m2'' (d @ ''.facility''),
     createStandardColumn ''w3-col m1'' (d @ ''.personality''),
     createStandardColumn ''w3-col m4'' (d @ ''.aliases''),
     createStandardColumn ''w3-col m1 w3-hover-white w3-center'' (d @ ''.alerts'')]"

definition main_createSensorRow :: "string \<Rightarrow> main act" where
  "main_createSensorRow d = create_row main_cells d"

definition establishElement :: "string \<Rightarrow> string \<Rightarrow> main act" where
  "establishElement d x = establish main_cells d x"

definition establishSensorRow :: "string \<Rightarrow> main act" where
  "establishSensorRow d = establishElement d ''.row''"

text \<open>Nothing calls \<open>removeSensorRow\<close>.\<close>

fun without_row :: "string \<Rightarrow> child list \<Rightarrow> child list" where
  "without_row i [] = []"
| "without_row i (TextNode # cs) = TextNode # without_row i cs"
| "without_row i (RowNode r els # cs) = (if r = i then cs else RowNode r els # without_row i cs)"

definition removeSensorRow :: "string \<Rightarrow> main act" where
  "removeSensorRow d = change_page (\<lambda>pg. pg\<lparr>table := without_row (d @ ''.row'') (table pg)\<rparr>)"

subsection \<open>The cells of a sensor\<close>

definition set_icon :: "string \<Rightarrow> string \<Rightarrow> string \<Rightarrow> main act" where
  "set_icon i cls tip = on_element i (\<lambda>e. e\<lparr>className := cls, tooltip := tip\<rparr>)"

definition icon_class :: "string \<Rightarrow> string" where
  "icon_class k = the (obj_get icons k)"

definition main_handleConnectionState :: "string \<Rightarrow> json option \<Rightarrow> main act" where
  "main_handleConnectionState d st = steps [establishElement d ''.connection_state'',
     if st = Some (JStr ''CONNECTED'') then set_icon (d @ ''.connection_state'') (icon_class ''connected'') ''Connected''
     else set_icon (d @ ''.connection_state'') (icon_class ''disconnected'') ''Disconnected'']"

definition or_blank :: "json option \<Rightarrow> string" where
  "or_blank v = (if v \<noteq> Some JNull then inner_text v else ''&nbsp;'')"

definition handleReadState :: "string \<Rightarrow> json option \<Rightarrow> json option \<Rightarrow> main act" where
  "handleReadState d st behavior = steps [establishElement d ''.read_state'',
     if st = Some (JStr ''STARTED'') then set_icon (d @ ''.read_state'') (icon_class ''reading'') ''Reading''
     else set_icon (d @ ''.read_state'') [] [],
     establishElement d ''.behavior'', put_inner (d @ ''.behavior'') (or_blank behavior)]"

text \<open>\<open>aliases.join(", ")\<close>: only a list has the method; null is the empty string.\<close>

definition join_aliases :: "json option \<Rightarrow> js_error + string" where
  "join_aliases v = (case v of Some (JArr vs) \<Rightarrow> Inr (js_join '', '' (map (\<lambda>j. inner_text (Some j)) vs))
     | _ \<Rightarrow> Inl TypeError)"

definition handleConfig :: "string \<Rightarrow> json option \<Rightarrow> json option \<Rightarrow> json option \<Rightarrow> main act" where
  "handleConfig d facility personality aliases = steps
     [establishElement d ''.facility'', put_inner (d @ ''.facility'') (inner_text facility),
      establishElement d ''.personality'', put_inner (d @ ''.personality'') (or_blank personality),
      establishElement d ''.aliases'',
      (case join_aliases aliases of Inl e \<Rightarrow> throw e | Inr t \<Rightarrow> put_inner (d @ ''.aliases'') t)]"

text \<open>What \<open>innerHTML\<close> becomes when \<open>v.length\<close> is assigned to it.\<close>

fun length_text :: "json \<Rightarrow> js_error + string" where
  "length_text JNull = Inl TypeError"
| "length_text (JArr vs) = Inr (nat_str (length vs))"
| "length_text (JStr t) = Inr (nat_str (length t))"
| "length_text (JObj ps) = Inr (inner_text (obj_get ps ''length''))"
| "length_text v = Inr ''undefined''"

definition updateAlerts :: "string \<Rightarrow> main act" where
  "updateAlerts d = steps [establishElement d ''.alerts'',
     (\<lambda>s. (case alerts_of d (page s) of None \<Rightarrow> pass
        | Some v \<Rightarrow> (case length_text v of Inl e \<Rightarrow> throw e | Inr t \<Rightarrow> put_inner (d @ ''.alerts'') t)) s)]"

subsection \<open>The dialog\<close>

definition showResultsModal :: "main act" where
  "showResultsModal = set_element ''modal_overlay'' (\<lambda>e. e\<lparr>display := ''block''\<rparr>)"

definition closeResultsModal :: "main act" where
  "closeResultsModal = set_element ''modal_overlay'' (\<lambda>e. e\<lparr>display := ''none''\<rparr>)"

text \<open>\<open>e.classList.add(c)\<close>.\<close>

definition class_added :: "string \<Rightarrow> string \<Rightarrow> string" where
  "class_added c s = (let ts = remdups (filter (\<lambda>t. t \<noteq> []) (split_on CHR '' '' s)) in
     js_join '' '' (if c \<in> set ts then ts else ts @ [c]))"

definition add_class :: "string \<Rightarrow> main act" where
  "add_class c = set_element ''modal_content'' (\<lambda>e. e\<lparr>className := class_added c (className e)\<rparr>)"

text \<open>The content becomes a text; emptied, it becomes the empty one.\<close>

definition set_content :: "string \<Rightarrow> main act" where
  "set_content t = steps [set_inner ''modal_content'' t, change_page (\<lambda>pg. pg\<lparr>modal_rows := []\<rparr>)]"

definition pre :: "json \<Rightarrow> string" where
  "pre v = ''<pre>'' @ stringify v @ ''</pre>''"

definition showCommandResult :: "json \<Rightarrow> main act" where
  "showCommandResult rsp = steps [add_class ''w3-container'',
     read ''result'' (Some rsp) (\<lambda>r. case r of Some v \<Rightarrow> set_content (pre v)
     | None \<Rightarrow> read ''error'' (Some rsp) (\<lambda>e. case e of Some v \<Rightarrow> set_content (pre v)
     | None \<Rightarrow> set_content ''<pre>response error</pre>''))]"

text \<open>\<open>classList.add(undefined)\<close> adds the class \<open>undefined\<close>.\<close>

definition severity_class :: "json option \<Rightarrow> string" where
  "severity_class v = (case v of
     Some (JStr t) \<Rightarrow> (case mapSeverityToColor t of Some c \<Rightarrow> c | None \<Rightarrow> ''undefined'')
   | _ \<Rightarrow> ''undefined'')"

definition append_alert :: "json \<Rightarrow> main act" where
  "append_alert a = read ''severity'' (Some a) (\<lambda>sev. read ''alert_number'' (Some a) (\<lambda>n.
     read ''alert_description'' (Some a) (\<lambda>de. read ''sent_on'' (Some a) (\<lambda>t.
       change_page (\<lambda>pg. pg\<lparr>modal_rows := modal_rows pg @ [\<lparr>alert_color = severity_class sev,
         alert_texts = [inner_text n, inner_text sev, inner_text de, date_text t]\<rparr>]\<rparr>)))))"

definition showAlerts :: "string \<Rightarrow> main act" where
  "showAlerts d s = (let al = alerts_of d (page s) in
     if al = None then (s, None)
     else read_list al (\<lambda>vs. if al = Some (JArr []) \<or> al = Some (JStr []) then pass else steps
       [set_inner ''modal_device_id'' d, set_inner ''modal_label'' ''Alerts'', set_content [],
        for_each vs append_alert, showResultsModal]) s)"

text \<open>The parameter \<open>deviceId\<close> is not used.\<close>

definition setupResults :: "string \<Rightarrow> string \<Rightarrow> main act" where
  "setupResults d command s = steps [set_inner ''modal_device_id'' (selectedSensorId (page s)),
     set_inner ''modal_label'' command,
     set_content ''<br>&nbsp;<br>...results pending <i class=\"fas fa-spinner fa-pulse\"></i><br>&nbsp;<br>&nbsp;'',
     add_class ''w3-container''] s"

subsection \<open>Commands\<close>

definition commands :: "string list" where
  "commands = [''get_bist_results'', ''get_versions'', ''get_state'', ''reboot'', ''remove'', ''reset'']"

definition selectSensor :: "string \<Rightarrow> main act" where
  "selectSensor d = steps [change_page (\<lambda>pg. pg\<lparr>selectedSensorId := d\<rparr>), set_inner ''sensor_commands_device_id'' d]"

definition doSimpleGet :: "string \<Rightarrow> main act" where
  "doSimpleGet command s = steps [setupResults (selectedSensorId (page s)) command, showResultsModal,
     request (''sensor_'' @ command) (Some (JObj [(''device_id'', JStr (selectedSensorId (page s)))]))] s"

definition forceDisconnect :: "main act" where
  "forceDisconnect = steps [setupResults [] ''Force All Disconnect'', showResultsModal,
     request ''sensor_force_all_disconnect'' (Some JNull)]"

subsection \<open>Messages\<close>

definition ask_basic_info :: "json option \<Rightarrow> main act" where
  "ask_basic_info d = request ''sensor_get_basic_info''
     (Some (JObj (case d of None \<Rightarrow> [] | Some v \<Rightarrow> [(''device_id'', v)])))"

text \<open>Two loops over the ids.\<close>

definition main_onGetAllSensorIds :: "json option \<Rightarrow> main act" where
  "main_onGetAllSensorIds ids = read_list ids (\<lambda>vs. steps
     [for_each vs (\<lambda>v. establishSensorRow (to_str (Some v))), for_each vs (\<lambda>v. ask_basic_info (Some v))])"

definition main_onSensorBasicInfo :: "json option \<Rightarrow> main act" where
  "main_onSensorBasicInfo info = read ''device_id'' info (\<lambda>dv. let d = to_str dv in steps
     [read ''connection_state'' info (main_handleConnectionState d),
      read ''read_state'' info (\<lambda>st. read ''behavior_id'' info (handleReadState d st)),
      read ''facility_id'' info (\<lambda>f. read ''personality'' info (\<lambda>p. read ''aliases'' info (handleConfig d f p))),
      read ''alerts'' info (set_alerts d),
      updateAlerts d])"

definition main_onSensorConnectionState :: "json option \<Rightarrow> main act" where
  "main_onSensorConnectionState params = read ''device_id'' params (\<lambda>dv. read ''connection_state'' params (\<lambda>st.
     steps [main_handleConnectionState (to_str dv) st,
       if st = Some (JStr ''CONNECTED'') then ask_basic_info dv else pass]))"

definition onSensorReadState :: "json option \<Rightarrow> main act" where
  "onSensorReadState params = read ''device_id'' params (\<lambda>dv. read ''current_state'' params (\<lambda>st.
     read ''behavior_id'' params (handleReadState (to_str dv) st)))"

definition onSensorConfigUpdate :: "json option \<Rightarrow> main act" where
  "onSensorConfigUpdate params = read ''device_id'' params (\<lambda>dv. read ''facility_id'' params (\<lambda>f.
     read ''personality'' params (\<lambda>p. read ''aliases'' params (handleConfig (to_str dv) f p))))"

text \<open>
  The guard compares the alerts of the device with the string \<open>'undefined'\<close>; only a list has the
  method \<open>push\<close>.
\<close>

definition onDeviceAlert :: "json option \<Rightarrow> main act" where
  "onDeviceAlert details = read ''device_id'' details (\<lambda>dv s. let d = to_str dv in
     (case alerts_of d (page s) of
        Some (JArr vs) \<Rightarrow> steps [set_alerts d (Some (JArr (vs @ [the details]))), updateAlerts d]
      | Some (JStr t) \<Rightarrow> if t = ''undefined'' then pass else throw TypeError
      | _ \<Rightarrow> throw TypeError) s)"

definition onSensorRemove :: "json \<Rightarrow> main act" where
  "onSensorRemove rsp = read ''result'' (Some rsp) (\<lambda>r.
     if r \<noteq> None then change_page (\<lambda>pg. pg\<lparr>reloads := reloads pg + 1\<rparr>) else showCommandResult rsp)"

definition main_onSocketState :: "conn_state \<Rightarrow> main act" where
  "main_onSocketState st = (if st = Open_State then request ''sensor_get_device_ids'' None else pass)"

definition main_response :: "json \<Rightarrow> request \<Rightarrow> main act" where
  "main_response rsp req = (let m = req_method req in
     if m = ''sensor_get_device_ids'' then read ''result'' (Some rsp) main_onGetAllSensorIds
     else if m = ''sensor_get_basic_info'' then read ''result'' (Some rsp) main_onSensorBasicInfo
     else if m = ''sensor_remove'' then onSensorRemove rsp
     else showCommandResult rsp)"

definition main_notification :: "json \<Rightarrow> main act" where
  "main_notification notif = read ''method'' (Some notif) (\<lambda>m.
     if m = Some (JStr ''sensor_connection_state_notification'') then read ''params'' (Some notif) main_onSensorConnectionState
     else if m = Some (JStr ''sensor_read_state_notification'') then read ''params'' (Some notif) onSensorReadState
     else if m = Some (JStr ''sensor_config_notification'') then read ''params'' (Some notif) onSensorConfigUpdate
     else if m = Some (JStr ''device_alert'') then read ''params'' (Some notif) onDeviceAlert
     else pass)"

definition main_topics :: json where
  "main_topics = JArr (map JStr [''sensor_alerts'', ''sensor_connection_state_notification'',
     ''sensor_read_state_notification'', ''sensor_config_notification''])"

definition main_handlers :: "main handlers" where
  "main_handlers = unhandled_handlers\<lparr>state_cb := (\<lambda>cb. main_onSocketState),
     inboundResponse := main_response, inboundNotification := main_notification\<rparr>"

subsection \<open>Contracts\<close>

definition main_suffixes :: "string list" where
  "main_suffixes = [''.row'', ''.connection_state'', ''.read_state'', ''.behavior'', ''.facility'', ''.personality'',
     ''.aliases'', ''.alerts'']"

interpretation mains: row_table main_cells main_suffixes
  by unfold_locales
    (auto simp: main_cells_def main_suffixes_def createStandardColumn_def is_suffix_code)

lemmas main_parts = establishElement_def establishSensorRow_def set_icon_def set_alerts_def ask_basic_info_def

lemma page_act_cells [page_acts]:
  "page_act (main_handleConnectionState d v)" "page_act (handleReadState d v w)" "page_act (handleConfig d v w x)"
proof -
  show "page_act (main_handleConnectionState d v)" "page_act (handleReadState d v w)"
    unfolding main_handleConnectionState_def handleReadState_def main_parts by (intro page_acts; auto intro!: page_acts)+
  have "page_act (case join_aliases x of Inl e \<Rightarrow> throw e | Inr t \<Rightarrow> put_inner (d @ ''.aliases'') t)"
    by (auto intro: page_acts split: sum.splits)
  then show "page_act (handleConfig d v w x)"
    unfolding handleConfig_def main_parts by (intro api.stays_chain page_acts)
qed

lemma stays_at_page: "(\<And>pg. stays R (f pg)) \<Longrightarrow> stays R (\<lambda>s. f (page s) s)"
  by (simp add: stays_def)

lemma page_act_alerts [page_acts]: "page_act (updateAlerts d)" "page_act (onDeviceAlert v)"
proof -
  have "page_act (\<lambda>s. (case alerts_of d (page s) of None \<Rightarrow> pass
        | Some v \<Rightarrow> (case length_text v of Inl e \<Rightarrow> throw e | Inr t \<Rightarrow> put_inner (d @ ''.alerts'') t)) s)" for d
    by (rule stays_at_page) (auto intro: page_acts split: option.splits sum.splits)
  then show u: "page_act (updateAlerts d)" for d
    unfolding updateAlerts_def main_parts by (intro api.stays_chain page_acts)
  show "page_act (onDeviceAlert v)"
    unfolding onDeviceAlert_def Let_def main_parts
    by (rule api.stays_read, rule stays_at_page) (auto simp del: steps.simps intro: page_acts u api.stays_chain split: option.splits json.splits)
qed

lemma page_act_content [page_acts]: "page_act (set_content t)"
  unfolding set_content_def by (intro api.stays_chain page_acts)

lemma page_act_results [page_acts]: "page_act (showCommandResult v)"
  unfolding showCommandResult_def add_class_def
  by (intro api.stays_chain api.stays_read page_acts) (auto intro!: page_acts split: option.splits)

lemma page_act_messages [page_acts]:
  "page_act (main_onGetAllSensorIds v)" "page_act (main_onSensorBasicInfo v)" "page_act (main_onSensorConnectionState v)"
  "page_act (onSensorReadState v)" "page_act (onSensorConfigUpdate v)" "page_act (onSensorRemove w)"
  unfolding main_onGetAllSensorIds_def main_onSensorBasicInfo_def main_onSensorConnectionState_def onSensorReadState_def
    onSensorConfigUpdate_def onSensorRemove_def main_parts Let_def
  by (intro api.stays_read api.stays_read_list api.stays_chain api.stays_for_each api.stays_if page_acts)+

interpretation main: page_callbacks main_handlers
proof (rule page_callbacksI)
  have "page_act (inboundRequest unhandled_handlers r :: main act)" for r
    by (auto simp: page_act_def unhandled_handlers_def intro: api_log api_nothing)
  then show "page_act (state_cb main_handlers cb st)" "page_act (inboundRequest main_handlers r)"
    "page_act (inboundResponse main_handlers r q)" "page_act (inboundNotification main_handlers r)" for cb st r q
    by (simp_all add: main_handlers_def main_onSocketState_def main_response_def main_notification_def Let_def page_acts)
qed

subsection \<open>The cells follow the messages\<close>

text \<open>Once a sensor has a row, establishing its elements does nothing.\<close>

lemma established:
  assumes "mains.rows_ok ks s" "d \<in> set ks" "x \<in> set main_suffixes"
  shows "establishElement d x s = (s, None)"
proof -
  have "text_of s (d @ x) \<noteq> None" using mains.rows_ok_text [OF assms(1,3)] assms(2) by simp
  then have "getElementById (d @ x) s \<noteq> None" by (auto simp: text_of_def)
  then show ?thesis unfolding establishElement_def establish_def by (rule if_not_P)
qed

lemma suffixes_main [simp]: "''.row'' \<in> set main_suffixes" "''.connection_state'' \<in> set main_suffixes"
  "''.read_state'' \<in> set main_suffixes" "''.behavior'' \<in> set main_suffixes" "''.facility'' \<in> set main_suffixes"
  "''.personality'' \<in> set main_suffixes" "''.aliases'' \<in> set main_suffixes" "''.alerts'' \<in> set main_suffixes"
  by (simp_all add: main_suffixes_def)

text \<open>A part of a handler that writes the texts \<open>m\<close> to cells of the sensor \<open>d\<close>, which has a row.\<close>

definition writes :: "string \<Rightarrow> (string \<Rightarrow> string option) \<Rightarrow> main act \<Rightarrow> bool" where
  "writes d m a \<longleftrightarrow> (\<forall>ks s. mains.rows_ok ks s \<longrightarrow> d \<in> set ks \<longrightarrow> (\<exists>t. a s = (t, None) \<and> mains.rows_ok ks t
     \<and> text_of t = text_of s ++ m \<and> sensorAlerts (page t) = sensorAlerts (page s)))"

lemma writesD: "writes d m a \<Longrightarrow> mains.rows_ok ks s \<Longrightarrow> d \<in> set ks \<Longrightarrow>
   \<exists>t. a s = (t, None) \<and> mains.rows_ok ks t \<and> text_of t = text_of s ++ m \<and> sensorAlerts (page t) = sensorAlerts (page s)"
  unfolding writes_def by blast

lemma sensorAlerts_element: "sensorAlerts (page (fst (on_element i f s))) = sensorAlerts (page s)"
  by (auto simp: on_element_def set_element_def change_page_def split: option.splits)

lemma writes_put: "x \<in> set main_suffixes \<Longrightarrow> writes d [d @ x \<mapsto> v] (put_inner (d @ x) v)"
proof -
  assume x: "x \<in> set main_suffixes"
  have "\<exists>t. put_inner (d @ x) v s = (t, None) \<and> mains.rows_ok ks t \<and> text_of t = text_of s ++ [d @ x \<mapsto> v]
     \<and> sensorAlerts (page t) = sensorAlerts (page s)" if "mains.rows_ok ks s" "d \<in> set ks" for ks s
    using mains.put_effect [OF that(1), of "d @ x" v] mains.rows_ok_text [OF that(1) x, of d] that(2)
      sensorAlerts_element [of "d @ x" "\<lambda>e. e\<lparr>inner := v\<rparr>" s]
    by (auto simp: put_inner_def)
  then show ?thesis unfolding writes_def by blast
qed









text \<open>The row of a sensor, made if need be.\<close>

lemma establish_main:
  assumes "mains.rows_ok ks s" "prefix_free (insert d (set ks))" "x \<in> set main_suffixes"
  shows "\<exists>u. establishElement d x s = (u, None) \<and> mains.rows_ok (with_key d ks) u \<and> sensorAlerts (page u) = sensorAlerts (page s)
    \<and> (\<forall>i. i \<notin> (\<lambda>x. d @ x) ` set main_suffixes \<longrightarrow> text_of u i = text_of s i)"
proof -
  obtain u where u: "establish main_cells d x s = (u, None)" "mains.rows_ok (with_key d ks) u"
    "\<forall>i. i \<notin> (\<lambda>x. d @ x) ` set main_suffixes \<longrightarrow> text_of u i = text_of s i"
    using mains.establish_effect [OF assms(1,3,2)] by blast
  have "sensorAlerts (page (fst (establish main_cells d x s))) = sensorAlerts (page s)"
    by (simp add: establish_def create_row_def change_page_def)
  then show ?thesis using u by (simp add: establishElement_def)
qed

lemma rows_ok_alerts [simp]: "mains.rows_ok ks (s\<lparr>page := page s\<lparr>sensorAlerts := al\<rparr>\<rparr>) = mains.rows_ok ks s"
  by (simp add: mains.rows_ok_def static_ids_def)

lemma text_of_alerts [simp]: "text_of (s\<lparr>page := page s\<lparr>sensorAlerts := al\<rparr>\<rparr>) = text_of s"
  by (simp add: text_of_def getElementById_def fun_eq_iff split: option.splits)

text \<open>Setting the alerts of a device to a list, and showing how many they are.\<close>

lemma alerts_shown:
  assumes "mains.rows_ok ks s" "prefix_free (insert d (set ks))"
  shows "\<exists>t. steps [set_alerts d (Some (JArr vs)), updateAlerts d] s = (t, None) \<and> mains.rows_ok (with_key d ks) t
    \<and> alerts_of d (page t) = Some (JArr vs) \<and> text_of t (d @ ''.alerts'') = Some (nat_str (length vs))
    \<and> (d \<in> set ks \<longrightarrow> text_of t = (text_of s)(d @ ''.alerts'' \<mapsto> nat_str (length vs)))
    \<and> (\<forall>i. i \<notin> (\<lambda>x. d @ x) ` set main_suffixes \<longrightarrow> text_of t i = text_of s i)"
proof -
  let ?s = "s\<lparr>page := page s\<lparr>sensorAlerts := obj_set d (Some (JArr vs)) (sensorAlerts (page s))\<rparr>\<rparr>"
  have ok: "mains.rows_ok ks ?s" using assms(1) by simp
  obtain u where u: "establishElement d ''.alerts'' ?s = (u, None)" "mains.rows_ok (with_key d ks) u"
    "sensorAlerts (page u) = sensorAlerts (page ?s)"
    "\<forall>i. i \<notin> (\<lambda>x. d @ x) ` set main_suffixes \<longrightarrow> text_of u i = text_of s i"
    using establish_main [OF ok assms(2), of "''.alerts''"] by auto
  have k: "d \<in> set (with_key d ks)" by simp
  obtain t where t: "put_inner (d @ ''.alerts'') (nat_str (length vs)) u = (t, None)" "mains.rows_ok (with_key d ks) t"
    "text_of t = text_of u ++ [d @ ''.alerts'' \<mapsto> nat_str (length vs)]" "sensorAlerts (page t) = sensorAlerts (page u)"
    using writesD [OF writes_put [OF suffixes_main(8)] u(2) k] by blast
  have a: "alerts_of d (page u) = Some (JArr vs)" "alerts_of d (page t) = Some (JArr vs)"
    using u(3) t(4) by (simp_all add: alerts_of_def js_simps)
  have "u = ?s" if "d \<in> set ks" using established [OF ok that, of "''.alerts''"] u(1) by simp
  then have "d \<in> set ks \<longrightarrow> text_of t = (text_of s)(d @ ''.alerts'' \<mapsto> nat_str (length vs))" using t(3) by auto
  moreover have "steps [set_alerts d (Some (JArr vs)), updateAlerts d] s = (t, None)"
    using u(1) t(1) a(1) by (simp add: set_alerts_def change_page_def updateAlerts_def)
  ultimately show ?thesis using t(2,3) a(2) u(4) by (intro exI [of _ t]) auto
qed


text \<open>
  C35: An alert of a sensor whose alerts are listed is added to them and counted in its cell; an
  alert of a sensor whose basic information has not come yet is an error and is lost.
\<close>

theorem alert_needs_listed_sensor:
  assumes "mains.rows_ok ks s" and "prefix_free (insert d (set ks))" and "obj_get ps ''device_id'' = Some (JStr d)"
  shows "case alerts_of d (page s) of
     None \<Rightarrow> onDeviceAlert (Some (JObj ps)) s = (s, Some TypeError)
   | Some (JArr vs) \<Rightarrow> (\<exists>t. onDeviceAlert (Some (JObj ps)) s = (t, None) \<and> mains.rows_ok (with_key d ks) t
      \<and> alerts_of d (page t) = Some (JArr (vs @ [JObj ps])) \<and> text_of t (d @ ''.alerts'') = Some (nat_str (Suc (length vs))))
   | _ \<Rightarrow> True"
proof -
  have "onDeviceAlert (Some (JObj ps)) s = steps [set_alerts d (Some (JArr (vs @ [JObj ps]))), updateAlerts d] s"
    if "alerts_of d (page s) = Some (JArr vs)" for vs
    using that assms(3) by (simp add: onDeviceAlert_def read_def to_str_def)
  moreover have "onDeviceAlert (Some (JObj ps)) s = (s, Some TypeError)" if "alerts_of d (page s) = None"
    using that assms(3) by (simp add: onDeviceAlert_def read_def to_str_def throw_def)
  ultimately show ?thesis using alerts_shown [OF assms(1,2)]
    by (auto simp del: steps.simps split: option.splits json.splits) (metis length_append_singleton)
qed

text \<open>The page with one sensor, and what the controller says of it.\<close>

definition demo_main :: "unit sensors_page_ext rows_page_ext dom_page_ext" where
  "demo_main = \<lparr>dom = [(''modal_content'', blank_element)], alerts = [], pollers = 0, cookies = [], table = [TextNode],
     sensorAlerts = [], selectedSensorId = [], modal_rows = [], reloads = 0\<rparr>"

lemma demo_main_ok: "mains.rows_ok [] (ControllerWebSocket demo_main)"
  by (simp add: mains.rows_ok_def demo_main_def ControllerWebSocket_def static_ids_def)


theorem alert_needs_listed_sensor_witness:
  "onDeviceAlert (Some (JObj [(''device_id'', JStr ''RSP-1'')])) (ControllerWebSocket demo_main)
    = (ControllerWebSocket demo_main, Some TypeError)"
proof -
  have "prefix_free (insert ''RSP-1'' (set []))" by (simp add: prefix_free_def)
  moreover have "alerts_of ''RSP-1'' (page (ControllerWebSocket demo_main)) = None"
    by (simp add: alerts_of_def demo_main_def ControllerWebSocket_def)
  ultimately show ?thesis
    using alert_needs_listed_sensor [OF demo_main_ok, of "''RSP-1''" "[(''device_id'', JStr ''RSP-1'')]"] by simp
qed

end
