(* ===== verification/Page_Forms.thy ===== *)
theory Page_Forms
  imports Page_TagStats Page_Rows
begin

text \<open>
  The scripts of \<^verbatim>\<open>web-admin/behaviors.html\<close> (lines 14-581) and \<^verbatim>\<open>web-admin/mobility-profile.html\<close> (lines
  14-545): a form for each item (a behavior, a mobility profile) the controller lists, in which it is
  edited, saved, copied, downloaded and deleted.  The second script is a copy of the first with
  other parameters, so that both are instances of one model; mobility profiles can also be
  activated.
\<close>

subsection \<open>State\<close>

text \<open>The parameters of an item, and their inputs: a selection with its index, a number as text.\<close>

datatype param = SelectParam "string list" | NumberParam | BooleanParam

datatype field = SelectField "string list" nat | NumberField string

text \<open>
  A form is a container with the id of its item.  Its inputs are listed by their element ids;
  \<open>params_class\<close> is the class of its inner element, \<open>mark\<close> the content and title of the sign that
  the item is active.
\<close>

record form =
  form_id :: string
  params_class :: string
  mark :: "string \<times> string"
  inputs :: "field obj"

datatype modal = Blank | DeleteQuestion | CopyInput string | UploadInput | ErrorText string

text \<open>What the two scripts differ in: the name of an item in the requests, its texts, its parameters.\<close>

record form_spec =
  item :: string
  delete_subject :: string
  copy_subject :: string
  copy_prompt :: string
  copy_failed :: string
  upload_subject :: string
  params :: "(string \<times> param) list"

text \<open>
  The items by id; the forms in the order of the document; the items a dialog is about; the
  content of the dialog; the files downloaded, as name and text (before it is encoded for the
  URL).  \<open>collate\<close> is the order of the browser's locale, as \<open>localeCompare\<close> tells.
\<close>

record form_page = dom_page +
  items :: "json obj"
  forms :: "form list"
  deleteCurId :: string
  copyCurId :: string
  modal :: modal
  downloads :: "(string \<times> string) list"
  collate :: "string \<Rightarrow> string \<Rightarrow> int"

type_synonym forms_act = "(unit form_page_ext dom_page_ext) act"

definition behaviors :: form_spec where
  "behaviors = \<lparr>item = ''behavior'', delete_subject = ''Delete behavior: '', copy_subject = ''Copy Behavior'',
     copy_prompt = ''Enter new behavior id'', copy_failed = ''Copy failed ... behavior id must be different'', upload_subject = ''Upload Behavior File'',
     params = [(''power_level'', NumberParam), (''link_profile'', NumberParam),
       (''operation_mode'', SelectParam [''NonContinuous'', ''Continuous'']),
       (''filter_duplicates'', BooleanParam), (''auto_repeat'', BooleanParam),
       (''q_algorithm'', SelectParam [''Fixed'', ''Dynamic'']),
       (''fixed_q_value'', NumberParam), (''start_q_value'', NumberParam), (''min_q_value'', NumberParam),
       (''max_q_value'', NumberParam), (''inv_cycles'', NumberParam), (''dwell_time'', NumberParam),
       (''retry_count'', NumberParam), (''threshold_multiplier'', NumberParam),
       (''session_flag'', SelectParam [''S0'', ''S1'', ''S2'', ''S3'']),
       (''selected_state'', SelectParam [''Any'', ''Deasserted'', ''Asserted'']),
       (''target_state'', SelectParam [''A'', ''B'']), (''toggle_target_flag'', BooleanParam),
       (''repeat_until_no_tags'', BooleanParam), (''perform_select'', BooleanParam),
       (''perform_post_match'', BooleanParam)]\<rparr>"

definition mobility_profiles :: form_spec where
  "mobility_profiles = \<lparr>item = ''mobility_profile'', delete_subject = ''Delete mobilityProfile: '',
     copy_subject = ''Copy MobilityProfile'', copy_prompt = ''Enter new mobility profile id'',
     copy_failed = ''Copy failed ... mobility profile id must be different'', upload_subject = ''Upload MobilityProfile File'',
     params = [(''slope'', NumberParam), (''threshold'', NumberParam), (''holdoff'', NumberParam)]\<rparr>"

subsection \<open>Inputs\<close>

text \<open>
  The value of a number input: a text that is no decimal number (in the syntax of HTML, without a
  plus sign, digits after a point) leaves it empty, as does null.
\<close>

fun dots_ok :: "string \<Rightarrow> bool" where
  "dots_ok [] = True"
| "dots_ok (c # cs) = ((c = CHR ''.'' \<longrightarrow> cs \<noteq> [] \<and> is_digit (hd cs)) \<and> dots_ok cs)"

definition valid_float :: "string \<Rightarrow> bool" where
  "valid_float t \<longleftrightarrow> t \<noteq> [] \<and> hd t \<noteq> CHR ''+'' \<and> list_all (\<lambda>c. c \<in> set ''0123456789.eE+-'') t \<and> dots_ok t
     \<and> (case to_number t of Fin q \<Rightarrow> True | _ \<Rightarrow> False)"

definition number_value :: "json option \<Rightarrow> string" where
  "number_value v = (let t = inner_text v in if valid_float t then t else [])"

text \<open>The loop over the options: the index of the one whose text is the value, else as it was.\<close>

definition match_index :: "string list \<Rightarrow> nat \<Rightarrow> json option \<Rightarrow> nat" where
  "match_index os n v = foldl (\<lambda>m i. if v = Some (JStr (os ! i)) then i else m) n [0..<length os]"

definition member :: "string \<Rightarrow> json \<Rightarrow> json option" where
  "member k v = (case json_prop k v of Inl e \<Rightarrow> None | Inr x \<Rightarrow> x)"

fun new_field :: "param \<Rightarrow> json option \<Rightarrow> field" where
  "new_field (SelectParam os) v = SelectField os (match_index os 0 v)"
| "new_field NumberParam v = NumberField (number_value v)"
| "new_field BooleanParam v = SelectField [''true'', ''false''] (if is_truthy v then 0 else 1)"

definition field_text :: "field \<Rightarrow> string" where
  "field_text f = (case f of SelectField os n \<Rightarrow> os ! n | NumberField t \<Rightarrow> t)"

definition aligned_field :: "json option \<Rightarrow> field \<Rightarrow> field" where
  "aligned_field v f = (case f of SelectField os n \<Rightarrow> SelectField os (match_index os n v)
     | NumberField t \<Rightarrow> NumberField (number_value v))"

definition input_id :: "string \<Rightarrow> string \<Rightarrow> string" where
  "input_id d k = d @ ''.'' @ k"

text \<open>\<open>getElementById\<close> among the inputs.\<close>

fun find_field :: "string \<Rightarrow> form list \<Rightarrow> field option" where
  "find_field i [] = None"
| "find_field i (f # fs) = (case obj_get (inputs f) i of Some x \<Rightarrow> Some x | None \<Rightarrow> find_field i fs)"

fun change_field :: "string \<Rightarrow> (field \<Rightarrow> field) \<Rightarrow> form list \<Rightarrow> form list" where
  "change_field i g [] = []"
| "change_field i g (f # fs) = (case obj_get (inputs f) i of
     Some x \<Rightarrow> f\<lparr>inputs := obj_set i (g x) (inputs f)\<rparr> # fs
   | None \<Rightarrow> f # change_field i g fs)"

subsection \<open>Forms\<close>

definition container_id :: "string \<Rightarrow> string" where
  "container_id d = d @ ''_container''"

definition new_form :: "form_spec \<Rightarrow> string \<Rightarrow> json \<Rightarrow> form" where
  "new_form sp d v = \<lparr>form_id = d, params_class = ''w3-row w3-margin-bottom w3-hide'', mark = (''&nbsp;'', []),
     inputs = map (\<lambda>(k, p). (input_id d k, new_field p (member k v))) (params sp)\<rparr>"

text \<open>Before the first container whose id comes after the id of the new one.\<close>

fun insert_form :: "(string \<Rightarrow> string \<Rightarrow> int) \<Rightarrow> form \<Rightarrow> form list \<Rightarrow> form list" where
  "insert_form col f [] = [f]"
| "insert_form col f (g # gs) =
     (if col (container_id (form_id f)) (container_id (form_id g)) < 0 then f # g # gs else g # insert_form col f gs)"

definition createContainer :: "form_spec \<Rightarrow> string \<Rightarrow> json \<Rightarrow> forms_act" where
  "createContainer sp d v = change_page (\<lambda>pg. pg\<lparr>forms := insert_form (collate pg) (new_form sp d v) (forms pg)\<rparr>)"

definition align :: "string \<Rightarrow> json \<Rightarrow> forms_act" where
  "align d v = for_each (in_entries (Some v))
     (\<lambda>(k, x). change_page (\<lambda>pg. pg\<lparr>forms := change_field (input_id d k) (aligned_field (Some x)) (forms pg)\<rparr>))"

definition has_container :: "string \<Rightarrow> form_page \<Rightarrow> bool" where
  "has_container d pg \<longleftrightarrow> obj_get (dom pg) (container_id d) \<noteq> None \<or> d \<in> form_id ` set (forms pg)"

definition show_item :: "form_spec \<Rightarrow> json \<Rightarrow> forms_act" where
  "show_item sp v = read ''id'' (Some v) (\<lambda>dv. let d = to_str dv in steps
     [change_page (\<lambda>pg. pg\<lparr>items := obj_set d v (items pg)\<rparr>),
      (\<lambda>s. (if has_container d (page s) then align d v else createContainer sp d v) s)])"

definition handleList :: "form_spec \<Rightarrow> json option \<Rightarrow> forms_act" where
  "handleList sp vs = read_list vs (\<lambda>l. for_each l (show_item sp))"

definition onDelete :: "json option \<Rightarrow> forms_act" where
  "onDelete vs = read_list vs (\<lambda>l. for_each l (\<lambda>v. read ''id'' (Some v) (\<lambda>dv. let d = to_str dv in
     change_page (\<lambda>pg. pg\<lparr>items := obj_del d (items pg), forms := filter (\<lambda>f. form_id f \<noteq> d) (forms pg)\<rparr>))))"

definition shown_class :: "string \<Rightarrow> string" where
  "shown_class c = (if index_of ''w3-show'' c = -1 then c @ '' w3-show'' else remove_first '' w3-show'' c)"

definition toggle :: "string \<Rightarrow> forms_act" where
  "toggle d = change_page (\<lambda>pg. pg\<lparr>forms := map (\<lambda>f. if form_id f = d
     then f\<lparr>params_class := shown_class (params_class f)\<rparr> else f) (forms pg)\<rparr>)"

subsection \<open>Dialogs\<close>

definition showInputModal :: "string \<Rightarrow> string \<Rightarrow> forms_act" where
  "showInputModal subject prompt = steps [set_inner ''modal_subject'' subject, set_inner ''modal_prompt'' prompt,
     set_element ''modal_overlay'' (\<lambda>e. e\<lparr>display := ''block''\<rparr>)]"

definition closeInputModal :: forms_act where
  "closeInputModal = set_element ''modal_overlay'' (\<lambda>e. e\<lparr>display := ''none''\<rparr>)"

text \<open>\<open>prepareModal\<close>, with what is then put into the dialog.\<close>

definition fill_modal :: "modal \<Rightarrow> forms_act" where
  "fill_modal m = steps [set_element ''modal_content'' id, change_page (\<lambda>pg. pg\<lparr>modal := m\<rparr>)]"

definition showError :: "string \<Rightarrow> forms_act" where
  "showError msg = steps [fill_modal (ErrorText msg), showInputModal ''ERROR'' []]"

subsection \<open>Operations on an item\<close>

definition method_of :: "form_spec \<Rightarrow> string \<Rightarrow> string" where
  "method_of sp x = item sp @ x"

definition delete_item :: "form_spec \<Rightarrow> string \<Rightarrow> forms_act" where
  "delete_item sp d = steps [change_page (\<lambda>pg. pg\<lparr>deleteCurId := d\<rparr>), fill_modal DeleteQuestion,
     showInputModal (delete_subject sp) d]"

definition confirmDelete :: "form_spec \<Rightarrow> forms_act" where
  "confirmDelete sp s = (let d = deleteCurId (page s) in steps [closeInputModal, toggle d,
     request (method_of sp ''_delete'') (Some (JObj [(method_of sp ''_id'', JStr d)]))] s)"

definition copy_item :: "form_spec \<Rightarrow> string \<Rightarrow> forms_act" where
  "copy_item sp d = steps [change_page (\<lambda>pg. pg\<lparr>copyCurId := d\<rparr>), fill_modal (CopyInput d),
     showInputModal (copy_subject sp) (copy_prompt sp)]"

text \<open>\<open>JSON.parse\<close> of \<open>undefined\<close>, of an item deleted meanwhile, throws.\<close>

definition with_id :: "string \<Rightarrow> json \<Rightarrow> json" where
  "with_id d v = (case v of JObj ps \<Rightarrow> JObj (obj_set ''id'' (JStr d) ps) | _ \<Rightarrow> v)"

definition confirmCopy :: "form_spec \<Rightarrow> forms_act" where
  "confirmCopy sp = steps [closeInputModal, (\<lambda>s. case modal (page s) of
     CopyInput newId \<Rightarrow> (let d = copyCurId (page s) in
       if newId = d then showError (copy_failed sp) s
       else steps [toggle d, (case obj_get (items (page s)) d of
           None \<Rightarrow> throw SyntaxError
         | Some v \<Rightarrow> request (method_of sp ''_put'') (Some (with_id newId v)))] s)
   | _ \<Rightarrow> (s, Some TypeError))]"

text \<open>
  \<open>saveBehavior\<close>: the value of an input for a member, by the type of the member; nothing for a type
  there is no case for.
\<close>

definition input_value :: "json \<Rightarrow> string \<Rightarrow> json option" where
  "input_value v t = (case v of JStr u \<Rightarrow> Some (JStr t) | JNum x \<Rightarrow> Some (JNum (to_number t))
     | JBool b \<Rightarrow> Some (JBool (if t = ''true'' then True else if t = ''false'' then False else b)) | _ \<Rightarrow> None)"

text \<open>The loop: the item, whether it has changed, and whether the loop has returned early.\<close>

fun save_loop :: "form list \<Rightarrow> string \<Rightarrow> string list \<Rightarrow> json obj \<Rightarrow> bool \<Rightarrow> json obj \<times> bool \<times> bool" where
  "save_loop fs d [] it ch = (it, ch, False)"
| "save_loop fs d (k # ks) it ch = (case (find_field (input_id d k) fs, obj_get it k) of
     (Some f, Some v) \<Rightarrow> (case input_value v (field_text f) of
         None \<Rightarrow> (it, ch, True)
       | Some w \<Rightarrow> if strict_eq (Some v) (Some w) then save_loop fs d ks it ch
           else save_loop fs d ks (obj_set k w it) True)
   | _ \<Rightarrow> save_loop fs d ks it ch)"

definition save_item :: "form_spec \<Rightarrow> string \<Rightarrow> forms_act" where
  "save_item sp d s = (case obj_get (items (page s)) d of
     Some (JObj it) \<Rightarrow> (let (it', changed, bad) = save_loop (forms (page s)) d (obj_keys it) it False in
       steps [change_page (\<lambda>pg. pg\<lparr>items := obj_set d (JObj it') (items pg)\<rparr>),
         if bad then (\<lambda>s. (log_line ''bad type in Json'' s, None))
         else if changed then request (method_of sp ''_put'') (Some (JObj it')) else pass] s)
   | _ \<Rightarrow> (s, None))"

definition download_item :: "string \<Rightarrow> forms_act" where
  "download_item d = change_page (\<lambda>pg. pg\<lparr>downloads := downloads pg @ [(d @ ''.json'',
     case obj_get (items pg) d of None \<Rightarrow> ''undefined'' | Some v \<Rightarrow> json_text ''  '' [] v)]\<rparr>)"

definition initiateUpload :: "form_spec \<Rightarrow> forms_act" where
  "initiateUpload sp = steps [fill_modal UploadInput, showInputModal (upload_subject sp) []]"

text \<open>
  The chosen file, if any, is what \<open>JSON.parse\<close> makes of it: a value or the message of an error.
  \<open>message\<close> are the messages of the errors that sending throws.
\<close>

definition uploadFile :: "form_spec \<Rightarrow> (js_error \<Rightarrow> string) \<Rightarrow> (string + json) option \<Rightarrow> forms_act" where
  "uploadFile sp message file = steps [closeInputModal, (\<lambda>s. if modal (page s) \<noteq> UploadInput then (s, Some TypeError) else
     (case file of
        None \<Rightarrow> showError ''No file selected'' s
      | Some (Inl msg) \<Rightarrow> showError msg s
      | Some (Inr v) \<Rightarrow> (case request (method_of sp ''_put'') (Some v) s of
           (t, None) \<Rightarrow> (t, None) | (t, Some e) \<Rightarrow> showError (message e) t)))]"

subsection \<open>Messages\<close>

definition list_response :: "form_spec \<Rightarrow> json \<Rightarrow> request \<Rightarrow> forms_act" where
  "list_response sp rsp req =
     (if req_method req = method_of sp ''_get_all'' \<or> req_method req = method_of sp ''_put''
      then read ''result'' (Some rsp) (handleList sp)
      else if req_method req = method_of sp ''_delete'' then read ''result'' (Some rsp) onDelete
      else pass)"

definition behaviors_state :: "conn_state \<Rightarrow> forms_act" where
  "behaviors_state st = (if st = Open_State then request ''behavior_get_all'' None else pass)"

definition behaviors_handlers :: "(unit form_page_ext dom_page_ext) handlers" where
  "behaviors_handlers = unhandled_handlers\<lparr>state_cb := (\<lambda>cb. behaviors_state), inboundResponse := list_response behaviors\<rparr>"

text \<open>The signs of the active profile; a profile without a form is an error.\<close>

definition mark_active :: "json option \<Rightarrow> string \<Rightarrow> forms_act" where
  "mark_active active d s = (if d \<notin> form_id ` set (forms (page s)) then (s, Some TypeError)
     else change_page (\<lambda>pg. pg\<lparr>forms := map (\<lambda>f. if form_id f = d then f\<lparr>mark :=
       (if active = Some (JStr d) then (''<i class=\"fas fa-check-circle\"></i>'', ''active mobility profile'') else ([], []))\<rparr>
       else f) (forms pg)\<rparr>) s)"

definition onActiveProfile :: "json option \<Rightarrow> forms_act" where
  "onActiveProfile active s = for_each (obj_keys (items (page s))) (mark_active active) s"

definition activate :: "string \<Rightarrow> forms_act" where
  "activate d = request ''inventory_activate_mobility_profile'' (Some (JObj [(''mobility_profile_id'', JStr d)]))"

definition profiles_state :: "conn_state \<Rightarrow> forms_act" where
  "profiles_state st = (if st = Open_State then steps [request ''mobility_profile_get_all'' None,
     request ''inventory_get_active_mobility_profile_id'' None] else pass)"

definition profiles_response :: "json \<Rightarrow> request \<Rightarrow> forms_act" where
  "profiles_response rsp req =
     (if req_method req = ''inventory_get_active_mobility_profile_id'' \<or> req_method req = ''inventory_activate_mobility_profile''
      then read ''result'' (Some rsp) onActiveProfile else list_response mobility_profiles rsp req)"

definition profiles_handlers :: "(unit form_page_ext dom_page_ext) handlers" where
  "profiles_handlers = unhandled_handlers\<lparr>state_cb := (\<lambda>cb. profiles_state), inboundResponse := profiles_response\<rparr>"

definition showProfileInfo :: forms_act where
  "showProfileInfo = set_element ''info_overlay'' (\<lambda>e. e\<lparr>display := ''block''\<rparr>)"

definition hideProfileInfo :: forms_act where
  "hideProfileInfo = set_element ''info_overlay'' (\<lambda>e. e\<lparr>display := ''none''\<rparr>)"

definition showProfileInfoOnce :: forms_act where
  "showProfileInfoOnce s = (if read_cookie ''mobilty_profile_info_shown'' s \<noteq> ''true''
     then steps [showProfileInfo, store_cookie ''mobilty_profile_info_shown'' ''true''] s else (s, None))"

subsection \<open>What an input shows\<close>

text \<open>
  An item whose members are of the types of its parameters (a number being one whose text reads
  back as it), with names without dots.
\<close>

fun fits :: "param \<Rightarrow> json option \<Rightarrow> bool" where
  "fits (SelectParam os) v = (case v of Some (JStr t) \<Rightarrow> t \<in> set os | _ \<Rightarrow> False)"
| "fits NumberParam v = (case v of Some (JNum (Fin q)) \<Rightarrow>
     valid_float (num_str (Fin q)) \<and> to_number (num_str (Fin q)) = Fin q | _ \<Rightarrow> False)"
| "fits BooleanParam v = (case v of Some (JBool b) \<Rightarrow> True | _ \<Rightarrow> False)"

definition item_ok :: "form_spec \<Rightarrow> string \<Rightarrow> json obj \<Rightarrow> bool" where
  "item_ok sp d ps \<longleftrightarrow> obj_get ps ''id'' = Some (JStr d) \<and> distinct (obj_keys ps)
     \<and> (\<forall>k \<in> set (obj_keys ps). CHR ''.'' \<notin> set k) \<and> (\<forall>(k, p) \<in> set (params sp). fits p (obj_get ps k))"

definition field_shows :: "field \<Rightarrow> json \<Rightarrow> bool" where
  "field_shows f v \<longleftrightarrow> (case input_value v (field_text f) of None \<Rightarrow> False | Some w \<Rightarrow> strict_eq (Some v) (Some w))"

lemma match_index_step:
  "match_index (os @ [t]) n v = (if v = Some (JStr t) then length os else match_index os n v)"
proof -
  have "foldl (\<lambda>m i. if v = Some (JStr ((os @ [t]) ! i)) then i else m) n [0..<length os]
      = foldl (\<lambda>m i. if v = Some (JStr (os ! i)) then i else m) n [0..<length os]"
    by (rule foldl_cong) (auto simp: nth_append)
  then show ?thesis by (simp add: match_index_def)
qed

lemma match_index_found:
  "t \<in> set os \<Longrightarrow> match_index os n (Some (JStr t)) < length os \<and> os ! match_index os n (Some (JStr t)) = t
     \<and> match_index os n (Some (JStr t)) = match_index os m (Some (JStr t))"
  by (induction os rule: rev_induct) (auto simp: match_index_step nth_append)

lemma match_index_other: "(\<And>t. v \<noteq> Some (JStr t)) \<Longrightarrow> match_index os n v = n"
  by (induction os rule: rev_induct) (auto simp: match_index_step match_index_def [of "[]"])

lemma num_text [simp]: "inner_text (Some (JNum x)) = num_str x"
  by (simp add: inner_text_def to_str_def)

lemma new_field_shows: "fits p (Some v) \<Longrightarrow> field_shows (new_field p (Some v)) v"
  by (cases p; cases v)
    (auto simp: field_shows_def field_text_def match_index_found number_value_def is_truthy_def input_value_def num_eq_def
      simp del: num_str.simps split: jsnum.splits)

text \<open>Aligning with a member the input shows, or with any truth value, changes nothing.\<close>

lemma aligned_same: "fits p (Some v) \<Longrightarrow> aligned_field (Some v) (new_field p (Some v)) = new_field p (Some v)"
  using match_index_found match_index_other
  by (cases p; cases v) (auto simp: aligned_field_def split: jsnum.splits)

lemma aligned_boolean: "aligned_field (Some (JBool b)) (new_field BooleanParam v) = new_field BooleanParam v"
  by (simp add: aligned_field_def match_index_other)

subsection \<open>Finding inputs\<close>

lemma input_id_eq: "CHR ''.'' \<notin> set k \<Longrightarrow> CHR ''.'' \<notin> set k' \<Longrightarrow> input_id d k = input_id d' k' \<longleftrightarrow> d = d' \<and> k = k'"
  using suffix_unique [of d "CHR ''.'' # k" d' "CHR ''.'' # k'"] by (auto simp: input_id_def is_suffix_def)

lemma spec_keys:
  assumes "sp \<in> {behaviors, mobility_profiles}"
  shows "distinct (map fst (params sp))" "\<forall>k \<in> set (map fst (params sp)). CHR ''.'' \<notin> set k"
  using assms by (auto simp: behaviors_def mobility_profiles_def)

definition forms_ok :: "form_spec \<Rightarrow> form list \<Rightarrow> bool" where
  "forms_ok sp fs \<longleftrightarrow> (\<forall>f \<in> set fs. obj_keys (inputs f) = map (input_id (form_id f)) (map fst (params sp)))"

lemma inputs_none:
  assumes "sp \<in> {behaviors, mobility_profiles}" "obj_keys (inputs f) = map (input_id (form_id f)) (map fst (params sp))"
    and "CHR ''.'' \<notin> set k" "form_id f \<noteq> d \<or> k \<notin> fst ` set (params sp)"
  shows "obj_get (inputs f) (input_id d k) = None"
proof -
  have "input_id d k \<notin> set (obj_keys (inputs f))"
  proof
    assume "input_id d k \<in> set (obj_keys (inputs f))"
    then obtain k' where k': "k' \<in> set (map fst (params sp))" "input_id d k = input_id (form_id f) k'"
      using assms(2) by auto
    then have "d = form_id f \<and> k = k'" using spec_keys(2) [OF assms(1)] input_id_eq [OF assms(3)] by blast
    with k'(1) assms(4) show False by auto
  qed
  then show ?thesis by (simp add: map_of_eq_None_iff)
qed

lemma find_field_none:
  assumes "sp \<in> {behaviors, mobility_profiles}" "forms_ok sp fs" "CHR ''.'' \<notin> set k"
    and "d \<notin> form_id ` set fs \<or> k \<notin> fst ` set (params sp)"
  shows "find_field (input_id d k) fs = None"
  using assms(2,4)
proof (induction fs)
  case (Cons f fs)
  have "obj_get (inputs f) (input_id d k) = None"
    using Cons.prems by (intro inputs_none [OF assms(1) _ assms(3)]) (auto simp: forms_ok_def)
  then show ?case using Cons by (auto simp: forms_ok_def)
qed simp

lemma find_field_insert:
  assumes "sp \<in> {behaviors, mobility_profiles}" "forms_ok sp fs" "CHR ''.'' \<notin> set k" "d \<notin> form_id ` set fs"
  shows "find_field (input_id d k) (insert_form col f fs) = obj_get (inputs f) (input_id d k)"
  using assms(2,4)
proof (induction fs)
  case (Cons g fs)
  have g: "obj_get (inputs g) (input_id d k) = None"
    using Cons.prems by (intro inputs_none [OF assms(1) _ assms(3)]) (auto simp: forms_ok_def)
  have "find_field (input_id d k) fs = None"
    using Cons.prems by (intro find_field_none [OF assms(1) _ assms(3)]) (auto simp: forms_ok_def)
  with g show ?case using Cons by (auto simp: forms_ok_def split: option.splits)
qed (simp split: option.splits)

lemma new_form_input:
  assumes "sp \<in> {behaviors, mobility_profiles}" "(k, p) \<in> set (params sp)"
  shows "obj_get (inputs (new_form sp d v)) (input_id d k) = Some (new_field p (member k v))"
proof (rule map_of_is_SomeI)
  have "inj_on (input_id d) (fst ` set (params sp))"
    by (auto simp: inj_on_def input_id_def)
  then show "distinct (map fst (inputs (new_form sp d v)))"
    using spec_keys(1) [OF assms(1)] by (simp add: new_form_def comp_def case_prod_beta distinct_map inj_on_def)
qed (use assms(2) in \<open>force simp: new_form_def\<close>)

lemma find_change: "find_field j (change_field i g fs) = (if j = i then map_option g (find_field i fs) else find_field j fs)"
  by (induction fs) (auto simp: js_simps split: option.splits)

lemma obj_set_same: "obj_get ps k = Some v \<Longrightarrow> obj_set k v ps = ps"
  by (induction ps) auto

lemma change_same: "(\<And>f. find_field i fs = Some f \<Longrightarrow> g f = f) \<Longrightarrow> change_field i g fs = fs"
proof (induction fs)
  case (Cons f fs)
  show ?case
  proof (cases "obj_get (inputs f) i")
    case (Some x)
    then have "g x = x" using Cons.prems by simp
    then have "obj_set i (g x) (inputs f) = inputs f" using Some by (simp add: obj_set_same)
    then show ?thesis using Some by simp
  qed (use Cons in simp)
qed simp

subsection \<open>Saving\<close>

lemma save_loop_skip:
  assumes "\<forall>f v. find_field (input_id d k) fs = Some f \<longrightarrow> obj_get it k = Some v \<longrightarrow> field_shows f v"
  shows "save_loop fs d (k # ks) it ch = save_loop fs d ks it ch"
proof (cases "find_field (input_id d k) fs = None \<or> obj_get it k = None")
  case True
  then show ?thesis by (auto split: option.splits)
next
  case False
  then obtain f v where fv: "find_field (input_id d k) fs = Some f" "obj_get it k = Some v" by auto
  then have "field_shows f v" using assms by blast
  then obtain w where "input_value v (field_text f) = Some w" "strict_eq (Some v) (Some w)"
    by (auto simp: field_shows_def split: option.splits)
  then show ?thesis using fv by simp
qed

lemma save_loop_shown:
  assumes "\<forall>k \<in> set ks. \<forall>f v. find_field (input_id d k) fs = Some f \<longrightarrow> obj_get it k = Some v \<longrightarrow> field_shows f v"
  shows "save_loop fs d ks it ch = (it, ch, False)"
  using assms by (induction ks) (simp_all add: save_loop_skip del: save_loop.simps(2))

lemma save_loop_one:
  assumes "distinct ks" "k \<in> set ks" "find_field (input_id d k) fs = Some f" "obj_get it k = Some v"
    and "input_value v (field_text f) = Some w" "\<not> strict_eq (Some v) (Some w)"
    and "\<forall>k' \<in> set ks. k' \<noteq> k \<longrightarrow> (\<forall>f v. find_field (input_id d k') fs = Some f \<longrightarrow> obj_get it k' = Some v \<longrightarrow> field_shows f v)"
  shows "save_loop fs d ks it ch = (obj_set k w it, True, False)"
  using assms(1,2,7)
proof (induction ks)
  case (Cons a ks)
  show ?case
  proof (cases "a = k")
    case True
    have "\<forall>k' \<in> set ks. \<forall>f v. find_field (input_id d k') fs = Some f \<longrightarrow> obj_get (obj_set k w it) k' = Some v \<longrightarrow> field_shows f v"
      using Cons.prems True by (auto simp: js_simps)
    from save_loop_shown [OF this] show ?thesis using True assms(3-6) by simp
  next
    case False
    then have "save_loop fs d (a # ks) it ch = save_loop fs d ks it ch"
      using Cons.prems(3) by (intro save_loop_skip) simp
    then show ?thesis using Cons False by simp
  qed
qed simp

text \<open>Forms that show the item \<open>ps\<close> of the id \<open>d\<close>.\<close>

definition form_shows :: "form_spec \<Rightarrow> string \<Rightarrow> json obj \<Rightarrow> form list \<Rightarrow> bool" where
  "form_shows sp d ps fs \<longleftrightarrow> (\<forall>k \<in> set (obj_keys ps). k \<notin> fst ` set (params sp) \<longrightarrow> find_field (input_id d k) fs = None)
     \<and> (\<forall>(k, p) \<in> set (params sp). find_field (input_id d k) fs = Some (new_field p (obj_get ps k)))"

lemma created_shows:
  assumes "sp \<in> {behaviors, mobility_profiles}" "forms_ok sp fs" "d \<notin> form_id ` set fs" "item_ok sp d ps"
  shows "form_shows sp d ps (insert_form col (new_form sp d (JObj ps)) fs)"
proof -
  let ?f = "new_form sp d (JObj ps)"
  have keys: "obj_keys (inputs ?f) = map (input_id (form_id ?f)) (map fst (params sp))"
    by (simp add: new_form_def comp_def case_prod_beta)
  have "find_field (input_id d k) (insert_form col ?f fs) = None" if "k \<in> set (obj_keys ps)" "k \<notin> fst ` set (params sp)" for k
  proof -
    have k: "CHR ''.'' \<notin> set k" using assms(4) that(1) by (auto simp: item_ok_def)
    show ?thesis using find_field_insert [OF assms(1,2) k assms(3)] inputs_none [OF assms(1) keys k] that(2) by simp
  qed
  moreover have "find_field (input_id d k) (insert_form col ?f fs) = Some (new_field p (obj_get ps k))" if "(k, p) \<in> set (params sp)" for k p
  proof -
    have k: "CHR ''.'' \<notin> set k" using spec_keys(2) [OF assms(1)] that by force
    show ?thesis
      using find_field_insert [OF assms(1,2) k assms(3)] new_form_input [OF assms(1) that, of d "JObj ps"]
      by (simp add: member_def)
  qed
  ultimately show ?thesis by (auto simp: form_shows_def)
qed

lemma item_value:
  assumes "item_ok sp d ps" "(k, p) \<in> set (params sp)"
  obtains v where "obj_get ps k = Some v" "fits p (Some v)"
proof -
  have f: "fits p (obj_get ps k)" using assms by (auto simp: item_ok_def)
  then have "obj_get ps k \<noteq> None" by (cases p; cases "obj_get ps k") simp_all
  with f that show thesis by auto
qed

lemma shown_fields:
  assumes "form_shows sp d ps fs" "item_ok sp d ps" "find_field (input_id d k) fs = Some f" "obj_get ps k = Some v"
  shows "field_shows f v"
proof -
  have "k \<in> set (obj_keys ps)" using assms(4) by (metis image_set map_of_eq_None_iff option.distinct(1))
  then obtain p where p: "(k, p) \<in> set (params sp)" using assms(1,3) by (force simp: form_shows_def)
  then have "f = new_field p (Some v)" "fits p (Some v)"
    using assms by (auto simp: form_shows_def item_ok_def)
  then show ?thesis using new_field_shows by simp
qed

text \<open>A list of one item that has no form yet makes its form; saving it then changes nothing.\<close>

lemma first_listed:
  assumes "sp \<in> {behaviors, mobility_profiles}" "forms_ok sp (forms (page s))" "\<not> has_container d (page s)" "item_ok sp d ps"
  shows "\<exists>t. handleList sp (Some (JArr [JObj ps])) s = (t, None) \<and> form_shows sp d ps (forms (page t))
    \<and> obj_get (items (page t)) d = Some (JObj ps) \<and> d \<in> form_id ` set (forms (page t))
    \<and> conn_view t = conn_view s \<and> sent t = sent s"
proof -
  let ?f = "new_form sp d (JObj ps)"
  let ?pg = "page s\<lparr>items := obj_set d (JObj ps) (items (page s)), forms := insert_form (collate (page s)) ?f (forms (page s))\<rparr>"
  have h: "\<not> has_container d (page s\<lparr>items := its\<rparr>)" for its using assms(3) by (simp add: has_container_def)
  have d: "d \<notin> form_id ` set (forms (page s))" using assms(3) by (simp add: has_container_def)
  have "set (insert_form col f fs) = insert f (set fs)" for col f fs by (induction fs) auto
  then have "d \<in> form_id ` set (forms ?pg)" by (simp add: new_form_def)
  moreover have "handleList sp (Some (JArr [JObj ps])) s = (s\<lparr>page := ?pg\<rparr>, None)"
    using assms(4) h
    by (simp add: handleList_def read_list_def for_each_def show_item_def read_def item_ok_def to_str_def change_page_def createContainer_def)
  ultimately show ?thesis
    using created_shows [OF assms(1,2) d assms(4), of "collate (page s)"]
    by (intro exI [of _ "s\<lparr>page := ?pg\<rparr>"]) (simp add: js_simps conn_view_def)
qed



lemma request_sent:
  assumes "socket s = Some w" "fst (sockets s ! w) = OPEN"
  shows "\<exists>t. request m p s = (t, None)
    \<and> sent t = sent s @ [(w, RequestFrame \<lparr>req_jsonrpc = ''2.0'', req_id = reqId s, req_method = m, req_params = p\<rparr>)]"
  using assms by (simp add: request_def request_then_def pass_def sendJsonRequest_def send_def Let_def)

text \<open>When all inputs but one show the item, exactly that member is changed, and the item is sent.\<close>

lemma save_one_change:
  assumes "socket s = Some w" "fst (sockets s ! w) = OPEN"
    and "obj_get (items (page s)) d = Some (JObj it)" "distinct (obj_keys it)"
    and "find_field (input_id d k) (forms (page s)) = Some f" "obj_get it k = Some v"
    and "input_value v (field_text f) = Some x" "\<not> strict_eq (Some v) (Some x)"
    and "\<And>k' f v. k' \<noteq> k \<Longrightarrow> find_field (input_id d k') (forms (page s)) = Some f \<Longrightarrow> obj_get it k' = Some v \<Longrightarrow> field_shows f v"
  shows "\<exists>t. save_item sp d s = (t, None) \<and> sent t = sent s @ [(w, RequestFrame \<lparr>req_jsonrpc = ''2.0'', req_id = reqId s,
    req_method = method_of sp ''_put'', req_params = Some (JObj (obj_set k x it))\<rparr>)]"
proof -
  have k: "k \<in> set (obj_keys it)" using assms(6) by (metis image_set map_of_eq_None_iff option.distinct(1))
  have "save_loop (forms (page s)) d (obj_keys it) it False = (obj_set k x it, True, False)"
    by (rule save_loop_one [OF assms(4) k assms(5-8)]) (use assms(9) in blast)
  moreover let ?s = "s\<lparr>page := page s\<lparr>items := obj_set d (JObj (obj_set k x it)) (items (page s))\<rparr>\<rparr>"
  obtain t where "request (method_of sp ''_put'') (Some (JObj (obj_set k x it))) ?s = (t, None)"
    "sent t = sent ?s @ [(w, RequestFrame \<lparr>req_jsonrpc = ''2.0'', req_id = reqId ?s,
      req_method = method_of sp ''_put'', req_params = Some (JObj (obj_set k x it))\<rparr>)]"
    using request_sent [of ?s w] assms(1,2) by auto
  ultimately show ?thesis
    using assms(3) by (intro exI [of _ t]) (simp add: save_item_def change_page_def)
qed

lemma align_same:
  assumes "\<And>k x f. (k, x) \<in> set xs \<Longrightarrow> find_field (input_id d k) (forms (page s)) = Some f \<Longrightarrow> aligned_field (Some x) f = f"
  shows "for_each xs (\<lambda>(k, x). change_page (\<lambda>pg. pg\<lparr>forms := change_field (input_id d k) (aligned_field (Some x)) (forms pg)\<rparr>)) s
    = (s, None)"
  using assms
proof (induction xs)
  case (Cons y xs)
  obtain k x where y: "y = (k, x)" by (cases y)
  have "change_field (input_id d k) (aligned_field (Some x)) (forms (page s)) = forms (page s)"
    by (rule change_same) (use Cons.prems y in auto)
  moreover have "for_each xs (\<lambda>(k, x). change_page (\<lambda>pg. pg\<lparr>forms := change_field (input_id d k) (aligned_field (Some x)) (forms pg)\<rparr>)) s
    = (s, None)" by (rule Cons.IH) (use Cons.prems in auto)
  ultimately show ?case by (simp add: y for_each_def) (simp add: change_page_def)
qed (simp add: for_each_def)

text \<open>Aligning a form with its item, but for the value of a boolean, changes no input.\<close>

lemma relisted_same:
  assumes "form_shows sp d ps fs" "item_ok sp d ps" "(k, BooleanParam) \<in> set (params sp)" "obj_get ps k = Some (JBool b)"
    and "(k', x) \<in> set (obj_set k (JBool c) ps)" "find_field (input_id d k') fs = Some f"
  shows "aligned_field (Some x) f = f"
proof -
  have "k \<in> set (obj_keys ps)" using assms(4) by (metis image_set map_of_eq_None_iff option.distinct(1))
  then have "distinct (obj_keys (obj_set k (JBool c) ps))" using assms(2) by (simp add: obj_keys_set item_ok_def)
  then have x: "obj_get (obj_set k (JBool c) ps) k' = Some x" using assms(5) by (simp add: map_of_eq_Some_iff)
  show ?thesis
  proof (cases "k' = k")
    case True
    then have "x = JBool c" using x by (simp add: js_simps)
    moreover have "f = new_field BooleanParam (Some (JBool b))" using assms(1,3,4,6) True by (force simp: form_shows_def)
    ultimately show ?thesis by (simp only: aligned_boolean)
  next
    case False
    then have x': "obj_get ps k' = Some x" using x by (simp add: js_simps)
    then have "k' \<in> set (obj_keys ps)" by (metis image_set map_of_eq_None_iff option.distinct(1))
    then obtain p where p: "(k', p) \<in> set (params sp)" using assms(1,6) by (force simp: form_shows_def)
    then have "f = new_field p (Some x)" "fits p (Some x)"
      using assms(1,2,6) x' by (auto simp: form_shows_def item_ok_def)
    then show ?thesis using aligned_same by simp
  qed
qed

text \<open>
  C26: A change of a truth value by someone else is reverted.  When the controller lists an item that
  has a form again, with another value of a boolean parameter, the form goes on showing the old
  value, and saving it without an edit sends the item with the old value.
\<close>

theorem stale_boolean_saved_back:
  assumes "sp \<in> {behaviors, mobility_profiles}" and "forms_ok sp (forms (page s))"
    and "\<not> has_container d (page s)" and "item_ok sp d ps"
    and "(k, BooleanParam) \<in> set (params sp)" and "obj_get ps k = Some (JBool b)"
    and "socket s = Some w" and "fst (sockets s ! w) = OPEN"
  shows "\<exists>t u v r. handleList sp (Some (JArr [JObj ps])) s = (t, None)
    \<and> handleList sp (Some (JArr [JObj (obj_set k (JBool (\<not> b)) ps)])) t = (u, None)
    \<and> forms (page u) = forms (page t) \<and> obj_get (items (page u)) d = Some (JObj (obj_set k (JBool (\<not> b)) ps))
    \<and> save_item sp d u = (v, None) \<and> sent v = sent s @ [(w, RequestFrame \<lparr>req_jsonrpc = ''2.0'', req_id = r,
        req_method = method_of sp ''_put'', req_params = Some (JObj ps)\<rparr>)]"
proof -
  let ?ps = "obj_set k (JBool (\<not> b)) ps"
  obtain t where t: "handleList sp (Some (JArr [JObj ps])) s = (t, None)" "form_shows sp d ps (forms (page t))"
    "obj_get (items (page t)) d = Some (JObj ps)" "d \<in> form_id ` set (forms (page t))" "conn_view t = conn_view s" "sent t = sent s"
    using first_listed [OF assms(1-4)] by blast
  have "''id'' \<notin> fst ` set (params sp)" using assms(1) by (auto simp: behaviors_def mobility_profiles_def)
  then have id: "obj_get ?ps ''id'' = Some (JStr d)" using assms(4,5) by (auto simp: item_ok_def js_simps)
  have k: "k \<in> set (obj_keys ps)" using assms(6) by (metis image_set map_of_eq_None_iff option.distinct(1))
  then have keys: "obj_keys ?ps = obj_keys ps" "distinct (obj_keys ?ps)"
    using assms(4) by (simp_all add: obj_keys_set item_ok_def)
  have undo: "obj_set k (JBool b) ?ps = ps" using assms(6) by (simp add: obj_set_same)
  have own: "find_field (input_id d k) (forms (page t)) = Some (new_field BooleanParam (Some (JBool b)))"
    using t(2) assms(5,6) by (force simp: form_shows_def)
  let ?u = "t\<lparr>page := page t\<lparr>items := obj_set d (JObj ?ps) (items (page t))\<rparr>\<rparr>"
  have "align d (JObj ?ps) ?u = (?u, None)"
    unfolding align_def in_entries.simps 
    by (rule align_same) (use relisted_same [OF t(2) assms(4-6)] in simp)
  then have u: "handleList sp (Some (JArr [JObj ?ps])) t = (?u, None)"
    using id t(4) by (simp add: handleList_def read_list_def for_each_def show_item_def read_def to_str_def change_page_def has_container_def)
  have sock: "socket ?u = Some w" "fst (sockets ?u ! w) = OPEN" using assms(7,8) t(5) by (simp_all add: conn_view_def)
  have "field_shows f v" if "k' \<noteq> k" "find_field (input_id d k') (forms (page ?u)) = Some f" "obj_get ?ps k' = Some v" for k' f v
    using shown_fields [OF t(2) assms(4), of k' f v] that by (simp add: js_simps)
  moreover have "find_field (input_id d k) (forms (page ?u)) = Some (new_field BooleanParam (Some (JBool b)))" using own by simp
  moreover have "input_value (JBool (\<not> b)) (field_text (new_field BooleanParam (Some (JBool b)))) = Some (JBool b)"
    by (simp add: input_value_def field_text_def is_truthy_def)
  ultimately obtain v where "save_item sp d ?u = (v, None)" "sent v = sent ?u @ [(w, RequestFrame \<lparr>req_jsonrpc = ''2.0'', req_id = reqId ?u,
    req_method = method_of sp ''_put'', req_params = Some (JObj ps)\<rparr>)]"
    using save_one_change [OF sock, of d ?ps k "new_field BooleanParam (Some (JBool b))" "JBool (\<not> b)" "JBool b" sp] keys(2) undo
    by (auto simp: js_simps)
  then show ?thesis using t(1,6) u
    by (intro exI [of _ t] exI [of _ ?u] exI [of _ v] exI [of _ "reqId ?u"]) (simp add: js_simps)
qed

text \<open>What the user types into a number input.\<close>

definition type_number :: "string \<Rightarrow> string \<Rightarrow> string \<Rightarrow> (unit form_page_ext dom_page_ext) cws \<Rightarrow> (unit form_page_ext dom_page_ext) cws" where
  "type_number d k x s = s\<lparr>page := page s\<lparr>forms := change_field (input_id d k) (\<lambda>f. NumberField x) (forms (page s))\<rparr>\<rparr>"

text \<open>
  C36: An edit of a number is what is saved.  After the text of a number input of a new form has
  been replaced by that of another number, saving sends the item with this member changed and no
  other; an emptied input counts as 0.
\<close>

theorem edited_number_saved:
  assumes "sp \<in> {behaviors, mobility_profiles}" and "forms_ok sp (forms (page s))"
    and "\<not> has_container d (page s)" and "item_ok sp d ps"
    and "(k, NumberParam) \<in> set (params sp)" and "obj_get ps k = Some (JNum q)"
    and "to_number x = Fin q'" and "q \<noteq> Fin q'"
    and "socket s = Some w" and "fst (sockets s ! w) = OPEN"
  shows "\<exists>t u r. handleList sp (Some (JArr [JObj ps])) s = (t, None) \<and> save_item sp d (type_number d k x t) = (u, None)
    \<and> sent u = sent s @ [(w, RequestFrame \<lparr>req_jsonrpc = ''2.0'', req_id = r,
        req_method = method_of sp ''_put'', req_params = Some (JObj (obj_set k (JNum (Fin q')) ps))\<rparr>)]"
proof -
  obtain t where t: "handleList sp (Some (JArr [JObj ps])) s = (t, None)" "form_shows sp d ps (forms (page t))"
    "obj_get (items (page t)) d = Some (JObj ps)" "conn_view t = conn_view s" "sent t = sent s"
    using first_listed [OF assms(1-4)] by blast
  let ?t = "type_number d k x t"
  have sock: "socket ?t = Some w" "fst (sockets ?t ! w) = OPEN"
    using assms(9,10) t(4) by (simp_all add: conn_view_def type_number_def)
  have own: "find_field (input_id d k) (forms (page t)) = Some (new_field NumberParam (Some (JNum q)))"
    using t(2) assms(5,6) by (force simp: form_shows_def)
  have "field_shows f v" if "k' \<noteq> k" "find_field (input_id d k') (forms (page ?t)) = Some f" "obj_get ps k' = Some v" for k' f v
    using shown_fields [OF t(2) assms(4), of k' f v] that by (simp add: type_number_def find_change input_id_def)
  moreover have "find_field (input_id d k) (forms (page ?t)) = Some (NumberField x)"
    using own by (simp add: type_number_def find_change)
  moreover have "input_value (JNum q) (field_text (NumberField x)) = Some (JNum (Fin q'))"
    using assms(7) by (simp add: input_value_def field_text_def)
  moreover have "\<not> strict_eq (Some (JNum q)) (Some (JNum (Fin q')))" using assms(8) by (simp add: num_eq_def)
  moreover have "obj_get (items (page ?t)) d = Some (JObj ps)" using t(3) by (simp add: type_number_def)
  moreover have "distinct (obj_keys ps)" using assms(4) by (simp add: item_ok_def)
  ultimately obtain u where "save_item sp d ?t = (u, None)" "sent u = sent ?t @ [(w, RequestFrame \<lparr>req_jsonrpc = ''2.0'', req_id = reqId ?t,
    req_method = method_of sp ''_put'', req_params = Some (JObj (obj_set k (JNum (Fin q')) ps))\<rparr>)]"
    using save_one_change [OF sock, of d ps k "NumberField x" "JNum q" "JNum (Fin q')" sp] assms(6) by blast
  then show ?thesis using t(1,5)
    by (intro exI [of _ t] exI [of _ u] exI [of _ "reqId ?t"]) (simp add: type_number_def)
qed

subsection \<open>An example\<close>

definition demo_forms :: "unit form_page_ext dom_page_ext" where
  "demo_forms = \<lparr>dom = [(''behaviors_container'', blank_element)], alerts = [], pollers = 0, cookies = [], items = [], forms = [],
     deleteCurId = [], copyCurId = [], modal = Blank, downloads = [],
     collate = (\<lambda>a b. if a < b then -1 else if a = b then 0 else 1)\<rparr>"

definition demo_behavior :: "json obj" where
  "demo_behavior = (''id'', JStr ''Deep'') # map (\<lambda>(k, p). (k, case p of SelectParam os \<Rightarrow> JStr (hd os)
     | NumberParam \<Rightarrow> JNum (Fin 1) | BooleanParam \<Rightarrow> JBool True)) (params behaviors)"

definition demo_forms_open :: "(unit form_page_ext dom_page_ext) cws" where
  "demo_forms_open = (ControllerWebSocket demo_forms)\<lparr>socket := Some 0, sockets := [(OPEN, False)]\<rparr>"

lemma one_reads_back: "valid_float (num_str (Fin 1)) \<and> to_number (num_str (Fin 1)) = Fin 1"
  by code_simp

lemma demo_behavior_ok: "item_ok behaviors ''Deep'' demo_behavior"
  using one_reads_back by (simp add: item_ok_def demo_behavior_def behaviors_def)

lemma demo_forms_ok: "forms_ok sp (forms (page demo_forms_open))" "\<not> has_container ''Deep'' (page demo_forms_open)"
  "socket demo_forms_open = Some 0" "fst (sockets demo_forms_open ! 0) = OPEN" "sent demo_forms_open = []"
  by (simp_all add: demo_forms_open_def demo_forms_def forms_ok_def has_container_def container_id_def ControllerWebSocket_def)


theorem stale_boolean_saved_back_witness:
  "\<exists>t u v r. handleList behaviors (Some (JArr [JObj demo_behavior])) demo_forms_open = (t, None)
    \<and> handleList behaviors (Some (JArr [JObj (obj_set ''auto_repeat'' (JBool False) demo_behavior)])) t = (u, None)
    \<and> save_item behaviors ''Deep'' u = (v, None) \<and> sent v = [(0, RequestFrame \<lparr>req_jsonrpc = ''2.0'', req_id = r,
        req_method = ''behavior_put'', req_params = Some (JObj demo_behavior)\<rparr>)]"
proof -
  have "(''auto_repeat'', BooleanParam) \<in> set (params behaviors)" by (simp add: behaviors_def)
  moreover have "obj_get demo_behavior ''auto_repeat'' = Some (JBool True)" by (simp add: demo_behavior_def behaviors_def)
  moreover have "method_of behaviors ''_put'' = ''behavior_put''" by (simp add: method_of_def behaviors_def)
  ultimately show ?thesis
    using stale_boolean_saved_back [OF _ demo_forms_ok(1,2) demo_behavior_ok _ _ demo_forms_ok(3,4), of "''auto_repeat''" True]
    by (simp add: demo_forms_ok(5)) blast
qed

theorem edited_number_saved_witness:
  "\<exists>t u r. handleList behaviors (Some (JArr [JObj demo_behavior])) demo_forms_open = (t, None)
    \<and> save_item behaviors ''Deep'' (type_number ''Deep'' ''power_level'' [] t) = (u, None)
    \<and> sent u = [(0, RequestFrame \<lparr>req_jsonrpc = ''2.0'', req_id = r,
        req_method = ''behavior_put'', req_params = Some (JObj (obj_set ''power_level'' (JNum (Fin 0)) demo_behavior))\<rparr>)]"
proof -
  have "(''power_level'', NumberParam) \<in> set (params behaviors)" by (simp add: behaviors_def)
  moreover have "obj_get demo_behavior ''power_level'' = Some (JNum (Fin 1))" by (simp add: demo_behavior_def behaviors_def)
  moreover have "to_number [] = Fin 0" by code_simp
  moreover have "method_of behaviors ''_put'' = ''behavior_put''" by (simp add: method_of_def behaviors_def)
  ultimately show ?thesis
    using edited_number_saved [OF _ demo_forms_ok(1,2) demo_behavior_ok _ _ _ _ demo_forms_ok(3,4), of "''power_level''" "Fin 1" "[]" 0]
    by (simp add: demo_forms_ok(5))
qed

subsection \<open>The handlers keep the contract of the socket\<close>

lemma page_act_forms [page_acts]: "page_act (align d v)" "page_act (createContainer sp d v)" "page_act (mark_active a d)"
proof -
  show "page_act (align d v)" "page_act (createContainer sp d v)"
    unfolding align_def createContainer_def by (auto intro!: page_acts)
  show "page_act (mark_active a d)"
    using page_actD [OF page_act_simple] by (auto simp: page_act_def mark_active_def intro: api_nothing)
qed

lemma page_act_lists [page_acts]: "page_act (handleList sp v)" "page_act (onDelete v)" "page_act (onActiveProfile a)"
proof -
  have "page_act (\<lambda>s. (if has_container d (page s) then align d v else createContainer sp d v) s)" for d v
    using page_actD [OF page_act_forms(1)] page_actD [OF page_act_forms(2)] by (auto simp: page_act_def)
  then have "page_act (show_item sp v)" for v
    unfolding show_item_def Let_def by (intro api.stays_read api.stays_chain page_act_simple)
  then show "page_act (handleList sp v)" unfolding handleList_def by (intro api.stays_read_list api.stays_for_each)
  show "page_act (onDelete v)" unfolding onDelete_def Let_def
    by (intro api.stays_read_list api.stays_for_each api.stays_read page_act_simple)
  show "page_act (onActiveProfile a)"
  proof -
    have "page_act (for_each xs (mark_active a))" for xs by (intro api.stays_for_each page_act_forms)
    then show ?thesis by (simp add: page_act_def onActiveProfile_def)
  qed
qed

lemma page_act_responses [page_acts]: "page_act (list_response sp r q)" "page_act (profiles_response r q)"
  unfolding profiles_response_def list_response_def by (auto intro!: page_acts)

lemma page_act_forms_unhandled [page_acts]:
  "page_act (inboundRequest unhandled_handlers r :: forms_act)" "page_act (inboundNotification unhandled_handlers r :: forms_act)"
  by (auto simp: page_act_def unhandled_handlers_def intro: api_log api_nothing)

interpretation behaviors: page_callbacks behaviors_handlers
  by (rule page_callbacksI) (auto simp: behaviors_handlers_def behaviors_state_def intro!: page_acts)

interpretation profiles: page_callbacks profiles_handlers
  by (rule page_callbacksI) (auto simp: profiles_handlers_def profiles_state_def simp del: steps.simps intro!: page_acts)

end
