(* ===== verification/Spec2Isabelle.thy ===== *)
theory Spec2Isabelle
  imports Web_Common Web_TableSort Web_Socket Web_Header Web_Icons Fa_Promise_Run Fa_Boot
    Page_Dashboard Page_Inventory Page_Disti Page_TagStats Page_Sensors Page_Forms
begin

text \<open>
  \<^bold>\<open>The web administration of the RSP Controller.\<close>  The controller (Java, under
  \<^verbatim>\<open>src/src/main/java\<close>) serves the pages of \<^verbatim>\<open>src/web-admin\<close>.  This development models the
  JavaScript of those pages: the shared scripts and Font Awesome, the icon library that ships
  with them.

  \<^bold>\<open>Parts and theories.\<close>

  \<^item> \<^verbatim>\<open>Js_Prelude\<close>, \<^verbatim>\<open>Js_Number\<close>, \<^verbatim>\<open>Js_Json\<close>: the parts of the language and its standard
    library the sources use: strings, objects as insertion-ordered association lists, thrown
    errors as values of a sum type, IEEE doubles with their printing and parsing, JSON values.
  \<^item> \<^verbatim>\<open>Web_Common\<close> (common.js): time stamps, severity colours, the icon table, cookies (the
    browser's cookie jar is the interface \<open>cookie_store\<close>, interpreted on a model of
    \<open>document.cookie\<close>).  Shown: time stamps render injectively, cookies round trip.
  \<^item> \<^verbatim>\<open>Web_TableSort\<close> (table-support.js): the click-to-sort exchange sort on live table rows.
    Shown: termination with an exact count of exchanges, stable sorting, direction and
    indicators, no lost rows even when it throws.
  \<^item> \<^verbatim>\<open>Web_Socket\<close> (socket-support.js): the reconnecting WebSocket wrapper as a state machine;
    the page's callbacks are the interface \<open>page_callbacks\<close>.  Shown: one socket and one timer at
    most, request ids, reconnection, responses consumed once, and three defects.
  \<^item> \<^verbatim>\<open>Web_Header\<close> (header.js): the menu bar.
  \<^item> \<^verbatim>\<open>Fa_Config\<close>, \<^verbatim>\<open>Fa_Util\<close>, \<^verbatim>\<open>Fa_Html\<close>, \<^verbatim>\<open>Fa_Library\<close>, \<^verbatim>\<open>Fa_Svg\<close>, \<^verbatim>\<open>Fa_Parse\<close>
    (fontawesome.js): configuration, string utilities, HTML serialisation, the registry of
    icons, the renderer, the parsers of a node.  Shown: precedence of configuration, the
    serialisation reads back (no value escapes its place), lookup tables in step with the
    registry, parsers inverting printers.
  \<^item> \<^verbatim>\<open>Fa_Tables\<close>, \<^verbatim>\<open>Fa_Packs\<close> (solid.js, regular.js, brands.js, v4-shims.js): all icons and
    shims, loading them, facts about every icon.
  \<^item> \<^verbatim>\<open>Fa_Promise\<close>, \<^verbatim>\<open>Fa_Promise_Run\<close> (fontawesome.js): the promises Font Awesome brings with it,
    with their queue of callbacks flushed by a timer.  Shown: a refinement of an abstract
    specification, settling once, no callback lost or repeated, the order of callbacks, that
    flushes end when the callbacks only settle promises.
  \<^item> \<^verbatim>\<open>Fa_Api\<close>, \<^verbatim>\<open>Fa_Mutate\<close> (fontawesome.js): the programming interface (icons, texts, counters and
    layers with their html and node), and the passes that replace the elements of a page by
    icons in an animation frame.  Shown: what an icon object is, that the style sheet is
    inserted once, which elements a pass replaces, and when it never ends.
  \<^item> \<^verbatim>\<open>Fa_Observe\<close>, \<^verbatim>\<open>Fa_Boot\<close> (fontawesome.js): the observer of the page and the replacement of
    pseudo-elements; waiting for the document, \<open>dom.watch\<close>, \<open>noAuto\<close>, and the order in which the
    scripts are loaded.  Shown: replacements set off no further pass, a search reaches its goal and
    then rests (unless a code point is unknown), what waits runs once, the order of the scripts does
    not matter, and defects.
  \<^item> \<^verbatim>\<open>Page_Base\<close>: how the scripts of the pages handle messages: handlers that change the
    elements of a page, send requests and throw.  What handlers leave alone is stated with
    relations on states (the interface \<open>act_relation\<close>).
  \<^item> \<^verbatim>\<open>Page_Dashboard\<close> (dashboard.html, scheduler.html, about.html), \<^verbatim>\<open>Page_Inventory\<close>
    (inventory-main.html), \<^verbatim>\<open>Page_Sensors\<close> (sensors-main.html) and \<^verbatim>\<open>Page_Disti\<close> (sensors-disti.html): the scripts of these pages, each an
    instance of the interface of \<^verbatim>\<open>Web_Socket\<close>.  \<^verbatim>\<open>Page_Rows\<close> holds the tables they keep sorted by
    inserting rows (the interface \<open>row_table\<close>).  Shown: the run state marked, the rows following
    the answers, the sensors of a page and its rows always fitting together, and defects.
  \<^item> \<^verbatim>\<open>Page_TagStats\<close> (tag-stats.html): a table with a row for each tag and a column for each alias,
    and the legend of its colours.  Shown: an answer updates the rows by EPC as an abstract map
    says, the legend agrees with the cells, and the defect that a new alias breaks the update.
  \<^item> \<^verbatim>\<open>Page_Forms\<close> (behaviors.html, mobility-profile.html): a form for each item, made when it is
    listed, aligned when it is listed again, saved by member.  Shown: an unedited form saves nothing,
    an edit is what is sent, and a boolean changed elsewhere is not shown and sent back as it was.
  \<^item> \<^verbatim>\<open>Web_Icons\<close>: the pages and the icons together.

  \<^bold>\<open>Conventions.\<close>  Each definition has the name of the function it models; inner steps and
  handlers have a name of their own.  State is a record passed through; a thrown error is a
  value \<open>Inl e\<close>; a loop that need not end is a \<open>partial_function\<close> whose value is then \<open>None\<close>.
  The browser (document, timers, sockets, random numbers) is explicit state or an argument.
  The reader of \<^verbatim>\<open>Fa_Html\<close> runs with fuel one more than the length of the text, which is
  enough because every step consumes a character.

  \<^bold>\<open>Not modelled.\<close>  The script inside cluster-config.html, the Java controller, style sheets, the
  minified copies and the bundle all.js of the modelled Font Awesome scripts, the SVG path data
  of the icons (an argument, nothing depends on it).
\<close>

end
